theory Spec2Isabelle
  imports Complex_Main
begin

section \<open>Numbers of the program\<close>

text \<open>
  Every numeric global of \<^verbatim>\<open>noaa_clock.cpp\<close> is a C \<^verbatim>\<open>double\<close>. The model reads a
  double as an exact real number or as \<open>Undef\<close>, the value of an operation that has no
  finite result in C: a division by zero, an inverse trigonometric function outside
  \<open>[-1, 1]\<close>, a tangent at a pole, and every operation on such a value (C's NaN and
  infinities). The rounding and the overflow of an operation on doubles are not modelled;
  the conversion of a double to a \<^verbatim>\<open>float\<close>, where a table is stored into, is. A comparison
  with \<open>Undef\<close> is false, as a comparison with NaN is.
\<close>

datatype dbl = Fin real | Undef

instantiation dbl :: "{zero,one,plus,minus,uminus,times,inverse,ord}"
begin

definition zero_dbl :: dbl where
  "zero_dbl = Fin 0"

definition one_dbl :: dbl where
  "one_dbl = Fin 1"

definition plus_dbl :: "dbl \<Rightarrow> dbl \<Rightarrow> dbl" where
  "plus_dbl a b = (case a of Undef \<Rightarrow> Undef | Fin x \<Rightarrow> (case b of Undef \<Rightarrow> Undef | Fin y \<Rightarrow> Fin (x + y)))"

definition minus_dbl :: "dbl \<Rightarrow> dbl \<Rightarrow> dbl" where
  "minus_dbl a b = (case a of Undef \<Rightarrow> Undef | Fin x \<Rightarrow> (case b of Undef \<Rightarrow> Undef | Fin y \<Rightarrow> Fin (x - y)))"

definition uminus_dbl :: "dbl \<Rightarrow> dbl" where
  "uminus_dbl a = (case a of Undef \<Rightarrow> Undef | Fin x \<Rightarrow> Fin (- x))"

definition times_dbl :: "dbl \<Rightarrow> dbl \<Rightarrow> dbl" where
  "times_dbl a b = (case a of Undef \<Rightarrow> Undef | Fin x \<Rightarrow> (case b of Undef \<Rightarrow> Undef | Fin y \<Rightarrow> Fin (x * y)))"

definition divide_dbl :: "dbl \<Rightarrow> dbl \<Rightarrow> dbl" where
  "divide_dbl a b = (case a of Undef \<Rightarrow> Undef | Fin x \<Rightarrow>
     (case b of Undef \<Rightarrow> Undef | Fin y \<Rightarrow> if y = 0 then Undef else Fin (x / y)))"

definition inverse_dbl :: "dbl \<Rightarrow> dbl" where
  "inverse_dbl a = (case a of Undef \<Rightarrow> Undef | Fin x \<Rightarrow> if x = 0 then Undef else Fin (inverse x))"

definition less_dbl :: "dbl \<Rightarrow> dbl \<Rightarrow> bool" where
  "less_dbl a b = (case a of Undef \<Rightarrow> False | Fin x \<Rightarrow> (case b of Undef \<Rightarrow> False | Fin y \<Rightarrow> x < y))"

definition less_eq_dbl :: "dbl \<Rightarrow> dbl \<Rightarrow> bool" where
  "less_eq_dbl a b = (case a of Undef \<Rightarrow> False | Fin x \<Rightarrow> (case b of Undef \<Rightarrow> False | Fin y \<Rightarrow> x \<le> y))"

instance ..

end

instance dbl :: semigroup_add
proof
  fix a b c :: dbl
  show "a + b + c = a + (b + c)"
    by (cases a; cases b; cases c) (simp_all add: plus_dbl_def)
qed

instance dbl :: numeral ..

instance dbl :: power ..

text \<open>The C library functions the solar equations call, on \<open>dbl\<close>.\<close>

definition sin_d :: "dbl \<Rightarrow> dbl" where
  "sin_d a = (case a of Undef \<Rightarrow> Undef | Fin x \<Rightarrow> Fin (sin x))"

definition cos_d :: "dbl \<Rightarrow> dbl" where
  "cos_d a = (case a of Undef \<Rightarrow> Undef | Fin x \<Rightarrow> Fin (cos x))"

definition tan_d :: "dbl \<Rightarrow> dbl" where
  "tan_d a = (case a of Undef \<Rightarrow> Undef | Fin x \<Rightarrow> if cos x = 0 then Undef else Fin (tan x))"

definition asin_d :: "dbl \<Rightarrow> dbl" where
  "asin_d a = (case a of Undef \<Rightarrow> Undef | Fin x \<Rightarrow> if - 1 \<le> x \<and> x \<le> 1 then Fin (arcsin x) else Undef)"

definition acos_d :: "dbl \<Rightarrow> dbl" where
  "acos_d a = (case a of Undef \<Rightarrow> Undef | Fin x \<Rightarrow> if - 1 \<le> x \<and> x \<le> 1 then Fin (arccos x) else Undef)"

text \<open>\<^verbatim>\<open>atan2 (y, x)\<close>: the angle of the point \<open>(x, y)\<close>, in \<open>(-pi, pi]\<close>.\<close>

definition atan2_r :: "real \<Rightarrow> real \<Rightarrow> real" where
  "atan2_r y x =
     (if 0 < x then arctan (y / x)
      else if x < 0 then (if 0 \<le> y then arctan (y / x) + pi else arctan (y / x) - pi)
      else if 0 < y then pi / 2
      else if y < 0 then - (pi / 2)
      else 0)"

definition atan2_d :: "dbl \<Rightarrow> dbl \<Rightarrow> dbl" where
  "atan2_d a b = (case a of Undef \<Rightarrow> Undef | Fin y \<Rightarrow> (case b of Undef \<Rightarrow> Undef | Fin x \<Rightarrow> Fin (atan2_r y x)))"

text \<open>\<^verbatim>\<open>pow (x, n)\<close> for the exponents the program uses, the literals 3 and 5.\<close>

definition pow_d :: "dbl \<Rightarrow> nat \<Rightarrow> dbl" where
  "pow_d a n = (case a of Undef \<Rightarrow> Undef | Fin x \<Rightarrow> Fin (x ^ n))"

text \<open>
  \<^verbatim>\<open>fmod (x, y)\<close> is \<open>x - n * y\<close> for the quotient \<open>x / y\<close> truncated towards zero to the
  integer \<open>n\<close>: the result has the sign of \<open>x\<close>.
\<close>

definition trunc_r :: "real \<Rightarrow> int" where
  "trunc_r z = (if 0 \<le> z then \<lfloor>z\<rfloor> else \<lceil>z\<rceil>)"

definition fmod_r :: "real \<Rightarrow> real \<Rightarrow> real" where
  "fmod_r x y = x - of_int (trunc_r (x / y)) * y"

definition fmod_d :: "dbl \<Rightarrow> dbl \<Rightarrow> dbl" where
  "fmod_d a b = (case a of Undef \<Rightarrow> Undef | Fin x \<Rightarrow>
     (case b of Undef \<Rightarrow> Undef | Fin y \<Rightarrow> if y = 0 then Undef else Fin (fmod_r x y)))"

text \<open>
  The five tables are arrays of \<^verbatim>\<open>float\<close>, and a store into one converts the \<^verbatim>\<open>double\<close>: to
  the nearest value with 24 significant bits (IEEE 754 single precision), a tie going to
  the value whose last bit is even. \<open>pow2 e\<close> is \<open>2\<close> to the power \<open>e\<close>, \<open>float_exp x\<close> the
  exponent of the binade of \<open>x\<close> (from \<open>127\<close> down to \<open>- 126\<close>, where the subnormal numbers
  start), and \<open>pow2 (float_exp x - 23)\<close> the distance of two neighbouring floats there. A
  value that rounds to \<open>2\<close> to the power \<open>128\<close> or beyond has no finite float.
\<close>

definition pow2 :: "int \<Rightarrow> real" where
  "pow2 e = (if 0 \<le> e then 2 ^ nat e else 1 / 2 ^ nat (- e))"

definition round_even :: "real \<Rightarrow> int" where
  "round_even r =
     (if r - of_int \<lfloor>r\<rfloor> < 1 / 2 then \<lfloor>r\<rfloor>
      else if 1 / 2 < r - of_int \<lfloor>r\<rfloor> then \<lfloor>r\<rfloor> + 1
      else if even \<lfloor>r\<rfloor> then \<lfloor>r\<rfloor> else \<lfloor>r\<rfloor> + 1)"

primrec float_exp_from :: "nat \<Rightarrow> real \<Rightarrow> int" where
  "float_exp_from 0 a = - 126"
| "float_exp_from (Suc n) a = (if pow2 (int n - 125) \<le> a then int n - 125 else float_exp_from n a)"

definition float_exp :: "real \<Rightarrow> int" where
  "float_exp x = float_exp_from 253 \<bar>x\<bar>"

definition to_float_r :: "real \<Rightarrow> real" where
  "to_float_r x = of_int (round_even (x / pow2 (float_exp x - 23))) * pow2 (float_exp x - 23)"

definition to_float :: "dbl \<Rightarrow> dbl" where
  "to_float a = (case a of Undef \<Rightarrow> Undef | Fin x \<Rightarrow>
     if pow2 128 \<le> \<bar>to_float_r x\<bar> then Undef else Fin (to_float_r x))"

section \<open>Global variables\<close>

text \<open>
  The global NOAA variables of the program and its five per-minute tables
  (\<^verbatim>\<open>float [1440]\<close> in the source: an entry holds a value that \<open>to_float\<close> returns).
\<close>

record globals =
  lat_deg :: dbl
  long_deg :: dbl
  date_d :: dbl
  wtime_day :: dbl
  dst_hr :: dbl
  timezone_hr :: dbl
  my_timezone :: dbl
  jday :: dbl
  jcen :: dbl
  gmlong_deg :: dbl
  gmanom_deg :: dbl
  eccent :: dbl
  eqofctr :: dbl
  truelong_deg :: dbl
  trueanom_deg :: dbl
  radvect_au :: dbl
  applong_deg :: dbl
  moe_deg :: dbl
  ocorr_deg :: dbl
  rtasc_deg :: dbl
  decl_deg :: dbl
  var_y :: dbl
  eqoftime_min :: dbl
  ha_rise_deg :: dbl
  noon_lst :: dbl
  rise_lst :: dbl
  set_lst :: dbl
  lightdur_min :: dbl
  soltime_min :: dbl
  hrangle_deg :: dbl
  zangle_deg :: dbl
  elev_deg :: dbl
  refract_deg :: dbl
  elevc_deg :: dbl
  az_deg :: dbl
  solarmin :: "dbl list"
  elev :: "dbl list"
  elevc :: "dbl list"
  azim :: "dbl list"
  sunlong :: "dbl list"

text \<open>
  \<^verbatim>\<open>double dpi = 2.0 * 3.1415926535897932;\<close>, documented in the source as \<open>2 * pi\<close>. The
  literal is \<open>pi\<close> to the precision of a double, and the model takes it as \<open>pi\<close>.
\<close>

definition dpi :: dbl where
  "dpi = 2 * Fin pi"

definition d2r :: "dbl \<Rightarrow> dbl" where
  "d2r d = dpi * d / 360"

definition r2d :: "dbl \<Rightarrow> dbl" where
  "r2d r = 360 * r / dpi"

section \<open>The solar equations\<close>

text \<open>
  \<^verbatim>\<open>noaa_eq\<close> takes no argument and returns nothing: it reads and writes the globals,
  one assignment after the other. \<open>assign x_update rhs\<close> is the assignment statement
  \<^verbatim>\<open>x = rhs;\<close>, its right-hand side read in the state before it. The list has the
  assignments in the source's order. The two \<^verbatim>\<open>if\<close> statements of the source, whose
  branches all assign the same variable, are each one assignment of a conditional
  value, and \<^verbatim>\<open>refract_deg /= 3600\<close> is the assignment after the first of them.
\<close>

definition assign :: "(('a \<Rightarrow> 'a) \<Rightarrow> globals \<Rightarrow> globals) \<Rightarrow> (globals \<Rightarrow> 'a) \<Rightarrow> globals \<Rightarrow> globals" where
  "assign upd rhs g = upd (\<lambda>_. rhs g) g"

definition noaa_eq :: "globals \<Rightarrow> globals" where
  "noaa_eq g0 =
     fold (\<lambda>assignment. assignment)
      [
       assign jday_update (\<lambda>g.
         date_d g + 2415018.5 + wtime_day g - timezone_hr g / 24),
       assign jcen_update (\<lambda>g.
         (jday g - 2451545) / 36525),
       assign gmlong_deg_update (\<lambda>g.
         fmod_d (280.46646 + jcen g * (36000.76983 + jcen g * 0.0003032)) 360),
       assign gmanom_deg_update (\<lambda>g.
         357.52911 + jcen g * (35999.05029 - 0.0001537 * jcen g)),
       assign eccent_update (\<lambda>g.
         0.016708634 - jcen g * (0.000042037 + 0.0000001267 * jcen g)),
       assign eqofctr_update (\<lambda>g.
         sin_d (d2r (gmanom_deg g)) * (1.914602 - jcen g * (0.004817 + 0.000014 * jcen g))
           + sin_d (d2r (2 * gmanom_deg g)) * (0.019993 - 0.000101 * jcen g)
           + sin_d (d2r (3 * gmanom_deg g)) * 0.000289),
       assign truelong_deg_update (\<lambda>g.
         gmlong_deg g + eqofctr g),
       assign trueanom_deg_update (\<lambda>g.
         gmanom_deg g + eqofctr g),
       assign radvect_au_update (\<lambda>g.
         (1.000001018 * (1 - eccent g * eccent g)) / (1 + eccent g * cos_d (d2r (trueanom_deg g)))),
       assign applong_deg_update (\<lambda>g.
         truelong_deg g - 0.00569 - 0.00478 * sin_d (d2r (125.04 - 1934.136 * jcen g))),
       assign moe_deg_update (\<lambda>g.
         23 + (26 + ((21.448 - jcen g * (46.815 + jcen g * (0.00059 - jcen g * 0.001813)))) / 60) / 60),
       assign ocorr_deg_update (\<lambda>g.
         moe_deg g + 0.00256 * cos_d (d2r (125.04 - 1934.136 * jcen g))),
       assign rtasc_deg_update (\<lambda>g.
         r2d (atan2_d (cos_d (d2r (applong_deg g))) (cos_d (d2r (ocorr_deg g)) * sin_d (d2r (applong_deg g))))),
       assign decl_deg_update (\<lambda>g.
         r2d (asin_d (sin_d (d2r (ocorr_deg g)) * sin_d (d2r (applong_deg g))))),
       assign var_y_update (\<lambda>g.
         tan_d (d2r (ocorr_deg g / 2)) * tan_d (d2r (ocorr_deg g / 2))),
       assign eqoftime_min_update (\<lambda>g.
         4 * r2d (var_y g * sin_d (2 * d2r (gmlong_deg g))
           - 2 * eccent g * sin_d (d2r (gmanom_deg g))
           + 4 * eccent g * var_y g * sin_d (d2r (gmanom_deg g)) * cos_d (2 * d2r (gmlong_deg g))
           - 0.5 * var_y g * var_y g * sin_d (4 * d2r (gmlong_deg g))
           - 1.25 * eccent g * eccent g * sin_d (2 * d2r (gmanom_deg g)))),
       assign ha_rise_deg_update (\<lambda>g.
         r2d (acos_d (cos_d (d2r 90.833) / (cos_d (d2r (lat_deg g)) * cos_d (d2r (decl_deg g)))
           - tan_d (d2r (lat_deg g)) * tan_d (d2r (decl_deg g))))),
       assign noon_lst_update (\<lambda>g.
         (720 - 4 * long_deg g - eqoftime_min g + timezone_hr g * 60) / 1440),
       assign rise_lst_update (\<lambda>g.
         noon_lst g - ha_rise_deg g * 4 / 1440),
       assign set_lst_update (\<lambda>g.
         noon_lst g + ha_rise_deg g * 4 / 1440),
       assign lightdur_min_update (\<lambda>g.
         8 * ha_rise_deg g),
       assign soltime_min_update (\<lambda>g.
         fmod_d (wtime_day g * 1440 + eqoftime_min g + 4 * long_deg g - 60 * timezone_hr g) 1440),
       assign hrangle_deg_update (\<lambda>g.
         (if soltime_min g / 4 < 0 then soltime_min g / 4 + 180 else soltime_min g / 4 - 180)),
       assign zangle_deg_update (\<lambda>g.
         r2d (acos_d (sin_d (d2r (lat_deg g)) * sin_d (d2r (decl_deg g))
           + cos_d (d2r (lat_deg g)) * cos_d (d2r (decl_deg g)) * cos_d (d2r (hrangle_deg g))))),
       assign elev_deg_update (\<lambda>g.
         90 - zangle_deg g),
       assign refract_deg_update (\<lambda>g.
         (if elev_deg g > 85 then 0
           else if elev_deg g > 5 then
             58.1 / tan_d (d2r (elev_deg g)) - 0.07 / pow_d (tan_d (d2r (elev_deg g))) 3
             + 0.000086 / pow_d (tan_d (d2r (elev_deg g))) 5
           else if elev_deg g > - 0.575 then
             1735 + elev_deg g * (- 518.2 + elev_deg g * (103.4 + elev_deg g * (- 12.79 + elev_deg g * 0.711)))
           else - 20.772 / tan_d (d2r (elev_deg g)))),
       assign refract_deg_update (\<lambda>g.
         refract_deg g / 3600),
       assign elevc_deg_update (\<lambda>g.
         elev_deg g + refract_deg g),
       assign az_deg_update (\<lambda>g.
         (if hrangle_deg g > 0 then
             fmod_d (r2d (acos_d (((sin_d (d2r (lat_deg g)) * cos_d (d2r (zangle_deg g))) - sin_d (d2r (decl_deg g)))
               / (cos_d (d2r (lat_deg g)) * sin_d (d2r (zangle_deg g))))) + 180) 360
           else
             fmod_d (540 - r2d (acos_d (((sin_d (d2r (lat_deg g)) * cos_d (d2r (zangle_deg g))) - sin_d (d2r (decl_deg g)))
               / (cos_d (d2r (lat_deg g)) * sin_d (d2r (zangle_deg g)))))) 360))
      ]
      g0"

section \<open>The per-minute tables\<close>

text \<open>
  \<^verbatim>\<open>load\<close>: \<^verbatim>\<open>for (i = 0 ; i < 1440 ; i++)\<close> sets \<^verbatim>\<open>wtime_day\<close>, runs the equations and
  stores five of their results at index \<open>i\<close>, each converted from \<^verbatim>\<open>double\<close> to the \<^verbatim>\<open>float\<close>
  of the table. \<open>load_body i\<close> is the body of the loop and \<open>load_loop i g\<close> the loop from the
  test of its condition with counter \<open>i\<close>.
\<close>

definition load_body :: "nat \<Rightarrow> globals \<Rightarrow> globals" where
  "load_body i g0 =
    (let
       g = g0\<lparr>wtime_day := Fin (real i / 1440)\<rparr>;
       g = noaa_eq g;
       g = g\<lparr>solarmin := (solarmin g)[i := to_float (soltime_min g)]\<rparr>;
       g = g\<lparr>elev := (elev g)[i := to_float (elev_deg g)]\<rparr>;
       g = g\<lparr>elevc := (elevc g)[i := to_float (elevc_deg g)]\<rparr>;
       g = g\<lparr>azim := (azim g)[i := to_float (az_deg g)]\<rparr>;
       g = g\<lparr>sunlong := (sunlong g)[i := to_float (truelong_deg g)]\<rparr>
     in g)"

function load_loop :: "nat \<Rightarrow> globals \<Rightarrow> globals" where
  "load_loop i g = (if i < 1440 then load_loop (i + 1) (load_body i g) else g)"
  by pat_completeness auto
termination
  by (relation "measure (\<lambda>(i, g). 1440 - i)") auto

definition load :: "globals \<Rightarrow> globals" where
  "load g = load_loop 0 g"

text \<open>The tables are arrays of 1440 elements.\<close>

definition tables_ok :: "globals \<Rightarrow> bool" where
  "tables_ok g \<longleftrightarrow>
     length (solarmin g) = 1440 \<and> length (elev g) = 1440 \<and> length (elevc g) = 1440 \<and>
     length (azim g) = 1440 \<and> length (sunlong g) = 1440"

text \<open>The variables \<^verbatim>\<open>noaa_eq\<close> assigns, in the order of their first assignment.\<close>

definition derived :: "globals \<Rightarrow> dbl list" where
  "derived g =
    [jday g, jcen g, gmlong_deg g, gmanom_deg g, eccent g, eqofctr g, truelong_deg g,
     trueanom_deg g, radvect_au g, applong_deg g, moe_deg g, ocorr_deg g, rtasc_deg g,
     decl_deg g, var_y g, eqoftime_min g, ha_rise_deg g, noon_lst g, rise_lst g, set_lst g,
     lightdur_min g, soltime_min g, hrangle_deg g, zangle_deg g, elev_deg g, refract_deg g,
     elevc_deg g, az_deg g]"

text \<open>Two states hold the same values in the five variables \<^verbatim>\<open>noaa_eq\<close> reads before it assigns any.\<close>

definition same_inputs :: "globals \<Rightarrow> globals \<Rightarrow> bool" where
  "same_inputs g g' \<longleftrightarrow>
     lat_deg g' = lat_deg g \<and> long_deg g' = long_deg g \<and> date_d g' = date_d g \<and>
     wtime_day g' = wtime_day g \<and> timezone_hr g' = timezone_hr g"

text \<open>The globals at program start: C initialises every global without an initialiser to zero.\<close>

definition init_globals :: globals where
  "init_globals =
     \<lparr>lat_deg = 0, long_deg = 0, date_d = 0, wtime_day = 0, dst_hr = 0, timezone_hr = 0,
      my_timezone = 0, jday = 0, jcen = 0, gmlong_deg = 0, gmanom_deg = 0, eccent = 0,
      eqofctr = 0, truelong_deg = 0, trueanom_deg = 0, radvect_au = 0, applong_deg = 0,
      moe_deg = 0, ocorr_deg = 0, rtasc_deg = 0, decl_deg = 0, var_y = 0, eqoftime_min = 0,
      ha_rise_deg = 0, noon_lst = 0, rise_lst = 0, set_lst = 0, lightdur_min = 0,
      soltime_min = 0, hrangle_deg = 0, zangle_deg = 0, elev_deg = 0, refract_deg = 0,
      elevc_deg = 0, az_deg = 0,
      solarmin = replicate 1440 0, elev = replicate 1440 0, elevc = replicate 1440 0,
      azim = replicate 1440 0, sunlong = replicate 1440 0\<rparr>"

text \<open>
  Two states hold the same place, date and timezone: the variables \<^verbatim>\<open>load\<close> leaves to its
  callers.
\<close>

definition same_place :: "globals \<Rightarrow> globals \<Rightarrow> bool" where
  "same_place g g' \<longleftrightarrow>
     lat_deg g' = lat_deg g \<and> long_deg g' = long_deg g \<and> date_d g' = date_d g \<and>
     timezone_hr g' = timezone_hr g"

text \<open>
  The five results of the equations that \<^verbatim>\<open>load\<close> stores (true solar time, elevation,
  corrected elevation, azimuth, true longitude), and the entries of the five tables at
  one index, in the same order.
\<close>

definition sample :: "globals \<Rightarrow> dbl \<times> dbl \<times> dbl \<times> dbl \<times> dbl" where
  "sample g = (soltime_min g, elev_deg g, elevc_deg g, az_deg g, truelong_deg g)"

definition row :: "globals \<Rightarrow> nat \<Rightarrow> dbl \<times> dbl \<times> dbl \<times> dbl \<times> dbl" where
  "row g i = (solarmin g ! i, elev g ! i, elevc g ! i, azim g ! i, sunlong g ! i)"

text \<open>The five results as the tables hold them: each converted to \<^verbatim>\<open>float\<close>.\<close>

definition stored :: "dbl \<times> dbl \<times> dbl \<times> dbl \<times> dbl \<Rightarrow> dbl \<times> dbl \<times> dbl \<times> dbl \<times> dbl" where
  "stored s = (case s of (m, e, c, a, l) \<Rightarrow> (to_float m, to_float e, to_float c, to_float a, to_float l))"

text \<open>
  Degrees to radians on the reals, and the refraction correction as the specification
  words it: piecewise in the elevation \<open>e\<close> in degrees, in arc-seconds.
\<close>

definition deg_rad :: "real \<Rightarrow> real" where
  "deg_rad e = pi * e / 180"

definition spec_refraction :: "real \<Rightarrow> real" where
  "spec_refraction e =
     (if e > 85 then 0
      else if 5 < e \<and> e \<le> 85 then
        58.1 / tan (deg_rad e) - 0.07 / tan (deg_rad e) ^ 3 + 0.000086 / tan (deg_rad e) ^ 5
      else if - 0.575 < e \<and> e \<le> 5 then
        1735 + e * (- 518.2 + e * (103.4 + e * (- 12.79 + e * 0.711)))
      else - 20.772 / tan (deg_rad e))"

section \<open>Dates and times of the Qt library\<close>

text \<open>
  The program takes the date and the time of day from Qt's \<^verbatim>\<open>QDate\<close> and \<^verbatim>\<open>QTime\<close>. A
  \<^verbatim>\<open>QDate\<close> holds a Julian day number; the date built from an invalid year, month and day
  is the null date, whose number lies below every valid one. A \<^verbatim>\<open>QTime\<close> holds the
  milliseconds since midnight. The definitions follow Qt 5: the Gregorian calendar with no
  year 0, Monday as day 1 and Sunday as day 7 of the week.
\<close>

type_synonym qdate = int

definition nullJd :: qdate where
  "nullJd = - 9223372036854775808"

definition minJd :: qdate where
  "minJd = - 784350574879"

definition maxJd :: qdate where
  "maxJd = 784354017364"

definition isLeapYear :: "int \<Rightarrow> bool" where
  "isLeapYear y0 = (let y = (if y0 < 1 then y0 + 1 else y0) in (y mod 4 = 0 \<and> y mod 100 \<noteq> 0) \<or> y mod 400 = 0)"

definition monthDays :: "int \<Rightarrow> int" where
  "monthDays m = [0, 31, 28, 31, 30, 31, 30, 31, 31, 30, 31, 30, 31] ! nat m"

definition isValid_ymd :: "int \<Rightarrow> int \<Rightarrow> int \<Rightarrow> bool" where
  "isValid_ymd year month day \<longleftrightarrow>
     year \<noteq> 0 \<and> (day > 0 \<and> month > 0 \<and> month \<le> 12) \<and>
     (day \<le> monthDays month \<or> (day = 29 \<and> month = 2 \<and> isLeapYear year))"

definition julianDayFromDate :: "int \<Rightarrow> int \<Rightarrow> int \<Rightarrow> int" where
  "julianDayFromDate year0 month day =
    (let year = (if year0 < 0 then year0 + 1 else year0);
         a = (14 - month) div 12;
         y = year + 4800 - a;
         m = month + 12 * a - 3
     in day + (153 * m + 2) div 5 + 365 * y + y div 4 - y div 100 + y div 400 - 32045)"

definition QDate :: "int \<Rightarrow> int \<Rightarrow> int \<Rightarrow> qdate" where
  "QDate y m d = (if isValid_ymd y m d then julianDayFromDate y m d else nullJd)"

definition isValid_date :: "qdate \<Rightarrow> bool" where
  "isValid_date jd \<longleftrightarrow> minJd \<le> jd \<and> jd \<le> maxJd"

text \<open>The remainder of C's integer division, which truncates: it has the sign of the dividend.\<close>

definition rem_c :: "int \<Rightarrow> int \<Rightarrow> int" where
  "rem_c a b = (if 0 \<le> a then a mod b else - ((- a) mod b))"

definition dayOfWeek :: "qdate \<Rightarrow> int" where
  "dayOfWeek jd =
     (if \<not> isValid_date jd then 0
      else if jd \<ge> 0 then rem_c jd 7 + 1
      else rem_c (jd + 1) 7 + 7)"

text \<open>\<^verbatim>\<open>QTime::addSecs\<close> wraps around midnight; \<^verbatim>\<open>QTime::hour\<close> is the hour of the day.\<close>

definition addSecs :: "int \<Rightarrow> int \<Rightarrow> int" where
  "addSecs mds s = (mds + s * 1000) mod 86400000"

definition hour :: "int \<Rightarrow> int" where
  "hour mds = mds div 3600000"

text \<open>
  What the program reads from outside: the configuration file \<^verbatim>\<open>noaa_clock.cnf\<close> (\<open>None\<close>
  when it cannot be opened, else its bytes), the current date and the current time of
  day. \<open>stack_rloc\<close> and \<open>stack_dststr\<close> are what the two uninitialised buffers of
  \<^verbatim>\<open>setcoord\<close> hold when it starts.
\<close>

record env =
  cnf :: "string option"
  cur_year :: int
  cur_month :: int
  cur_day :: int
  cur_msecs :: int
  stack_rloc :: string
  stack_dststr :: string

text \<open>
  The current date is a valid date with a year that fits C's \<^verbatim>\<open>int\<close>, the current time a
  time of the day.
\<close>

definition env_ok :: "env \<Rightarrow> bool" where
  "env_ok e \<longleftrightarrow>
     isValid_ymd (cur_year e) (cur_month e) (cur_day e) \<and>
     - 2147483648 \<le> cur_year e \<and> cur_year e \<le> 2147483647 \<and>
     0 \<le> cur_msecs e \<and> cur_msecs e < 86400000"

section \<open>European daylight saving time\<close>

text \<open>
  The conversion of a \<^verbatim>\<open>double\<close> to \<^verbatim>\<open>int\<close> truncates; it is undefined (\<open>None\<close>) for a value
  that is not a finite number. The value converted is the exact product and the result an
  unbounded integer: the rounding of the double product and the 32-bit range of \<^verbatim>\<open>int\<close> are
  not modelled.
\<close>

definition double_to_int :: "dbl \<Rightarrow> int option" where
  "double_to_int a = (case a of Undef \<Rightarrow> None | Fin x \<Rightarrow> Some (trunc_r x))"

text \<open>
  \<^verbatim>\<open>while (dmar.dayOfWeek () != 7) {n--; dmar = QDate (d.year (), 3, n);}\<close> and the same loop
  for October, from the test of the condition with the day \<open>n\<close> and the date \<open>dt\<close>. A loop
  that does not end has no result (\<open>None\<close>).
\<close>

partial_function (option) sunday_loop :: "int \<Rightarrow> int \<Rightarrow> int \<Rightarrow> qdate \<Rightarrow> qdate option" where
  "sunday_loop y m n dt =
     (if dayOfWeek dt \<noteq> 7 then sunday_loop y m (n - 1) (QDate y m (n - 1)) else Some dt)"

text \<open>
  The four \<^verbatim>\<open>if\<close> statements of \<^verbatim>\<open>setdst_eu\<close> on the date \<open>d\<close>, the hour \<open>h\<close> and the two
  Sundays.
\<close>

definition dst_rule :: "qdate \<Rightarrow> int \<Rightarrow> qdate \<Rightarrow> qdate \<Rightarrow> int" where
  "dst_rule d h dmar doct =
    (let n = 0;
         n = (if d = dmar \<and> h > 3 then 1 else n);
         n = (if d > dmar then 1 else n);
         n = (if d = doct \<and> h > 3 then 0 else n);
         n = (if d > doct then 0 else n)
     in n)"

definition setdst_eu :: "env \<Rightarrow> globals \<Rightarrow> int option" where
  "setdst_eu e g =
    (let d = QDate (cur_year e) (cur_month e) (cur_day e) in
     case double_to_int (3600 * (timezone_hr g - my_timezone g)) of
       None \<Rightarrow> None
     | Some s \<Rightarrow>
        (let t = addSecs (cur_msecs e) s in
         case sunday_loop (cur_year e) 3 31 (QDate (cur_year e) 3 31) of
           None \<Rightarrow> None
         | Some dmar \<Rightarrow>
            (case sunday_loop (cur_year e) 10 31 (QDate (cur_year e) 10 31) of
               None \<Rightarrow> None
             | Some doct \<Rightarrow> Some (dst_rule d (hour t) dmar doct))))"

text \<open>
  The daylight saving rule in words: the offset is 1 strictly between the two Sundays, on
  the March Sunday when the hour is above 3, and on the October Sunday when it is not.
\<close>

definition spec_dst :: "qdate \<Rightarrow> int \<Rightarrow> qdate \<Rightarrow> qdate \<Rightarrow> int" where
  "spec_dst d h dmar doct =
     (if (dmar < d \<and> d < doct) \<or> (d = dmar \<and> h > 3) \<or> (d = doct \<and> \<not> h > 3) then 1 else 0)"

text \<open>
  The day of the month of the last Sunday of a month of 31 days, in closed form: as many
  days before the 31st as the 31st is after a Sunday.
\<close>

definition last_sunday :: "int \<Rightarrow> int \<Rightarrow> int" where
  "last_sunday y m = 31 - (julianDayFromDate y m 31 + 1) mod 7"

section \<open>Reading the configuration file\<close>

definition isspace :: "char \<Rightarrow> bool" where
  "isspace c \<longleftrightarrow> c \<in> set [CHR 0x20, CHR 0x09, CHR 0x0A, CHR 0x0B, CHR 0x0C, CHR 0x0D]"

definition isdigit :: "char \<Rightarrow> bool" where
  "isdigit c \<longleftrightarrow> c \<in> set ''0123456789''"

definition tolower :: "char \<Rightarrow> char" where
  "tolower c =
     (case map_of (zip ''ABCDEFGHIJKLMNOPQRSTUVWXYZ'' ''abcdefghijklmnopqrstuvwxyz'') c of
        None \<Rightarrow> c
      | Some l \<Rightarrow> l)"

text \<open>\<^verbatim>\<open>strcmpi (a, b) == 0\<close>: equal up to the case of the ASCII letters.\<close>

definition strcmpi_eq :: "string \<Rightarrow> string \<Rightarrow> bool" where
  "strcmpi_eq a b \<longleftrightarrow> map tolower a = map tolower b"

text \<open>
  \<^verbatim>\<open>fgets (line, n, f)\<close> on the unread bytes \<open>s\<close> of the file: the line read (\<open>None\<close> when
  nothing is left), the bytes still unread, and whether the read met the end of the file.
  It reads up to and including a newline, at most \<open>n - 1\<close> bytes.
\<close>

definition fgets :: "nat \<Rightarrow> string \<Rightarrow> string option \<times> string \<times> bool" where
  "fgets n s =
    (if s = [] then (None, [], True)
     else
       (let l = takeWhile (\<lambda>c. c \<noteq> CHR 0x0A) s in
        if n - 1 \<le> length l then (Some (take (n - 1) s), drop (n - 1) s, False)
        else if length l < length s then (Some (take (length l + 1) s), drop (length l + 1) s, False)
        else (Some s, [], True)))"

text \<open>
  The conversions of \<^verbatim>\<open>sscanf\<close>. \<open>%s\<close> skips white space and takes the characters up to
  the next white space; it fails at the end of the input. \<open>%lf\<close> skips white space and
  takes the longest decimal number: a sign, digits, a point, digits, with at least one
  digit. The exponents, hexadecimal numbers, infinities and NaNs that C also reads are
  not modelled: the conversion stops before them.
\<close>

definition scan_s :: "string \<Rightarrow> (string \<times> string) option" where
  "scan_s s =
    (let s1 = dropWhile isspace s in
     if s1 = [] then None
     else Some (takeWhile (\<lambda>c. \<not> isspace c) s1, dropWhile (\<lambda>c. \<not> isspace c) s1))"

definition digits_val :: "string \<Rightarrow> nat" where
  "digits_val ds = foldl (\<lambda>v c. 10 * v + (of_char c - 48)) 0 ds"

definition scan_lf :: "string \<Rightarrow> (real \<times> string) option" where
  "scan_lf s =
    (let s1 = dropWhile isspace s;
         neg = (s1 \<noteq> [] \<and> hd s1 = CHR ''-'');
         s2 = (if s1 \<noteq> [] \<and> (hd s1 = CHR ''-'' \<or> hd s1 = CHR ''+'') then tl s1 else s1);
         ip = takeWhile isdigit s2;
         s3 = dropWhile isdigit s2;
         point = (s3 \<noteq> [] \<and> hd s3 = CHR ''.'');
         fp = (if point then takeWhile isdigit (tl s3) else []);
         s4 = (if point then dropWhile isdigit (tl s3) else s3);
         v = real (digits_val ip) + real (digits_val fp) / 10 ^ length fp
     in if ip = [] \<and> fp = [] then None else Some (if neg then - v else v, s4))"

text \<open>
  The state of the loop of \<^verbatim>\<open>setcoord\<close> over the file: the globals (the callers pass the
  addresses of \<^verbatim>\<open>lat_deg\<close>, \<^verbatim>\<open>long_deg\<close> and \<^verbatim>\<open>timezone_hr\<close> for \<^verbatim>\<open>la\<close>, \<^verbatim>\<open>lo\<close> and \<^verbatim>\<open>tz\<close>) and
  the two buffers \<^verbatim>\<open>rloc\<close> and \<^verbatim>\<open>dststr\<close>, which keep what an earlier line left in them.
\<close>

record scan_state =
  glob :: globals
  rloc :: string
  dststr :: string

text \<open>
  \<^verbatim>\<open>sscanf (line, "%s %lf %lf %lf %s", rloc, la, lo, tz, dststr)\<close>: the conversions in turn,
  each storing its value; the first that fails ends the call and leaves the remaining
  targets as they were.
\<close>

definition sscanf_line :: "string \<Rightarrow> scan_state \<Rightarrow> scan_state" where
  "sscanf_line line st =
    (case scan_s line of
       None \<Rightarrow> st
     | Some (w, r1) \<Rightarrow>
        (let st = st\<lparr>rloc := w\<rparr> in
         case scan_lf r1 of
           None \<Rightarrow> st
         | Some (x, r2) \<Rightarrow>
            (let st = st\<lparr>glob := (glob st)\<lparr>lat_deg := Fin x\<rparr>\<rparr> in
             case scan_lf r2 of
               None \<Rightarrow> st
             | Some (y, r3) \<Rightarrow>
                (let st = st\<lparr>glob := (glob st)\<lparr>long_deg := Fin y\<rparr>\<rparr> in
                 case scan_lf r3 of
                   None \<Rightarrow> st
                 | Some (z, r4) \<Rightarrow>
                    (let st = st\<lparr>glob := (glob st)\<lparr>timezone_hr := Fin z\<rparr>\<rparr> in
                     case scan_s r4 of
                       None \<Rightarrow> st
                     | Some (t, r5) \<Rightarrow> st\<lparr>dststr := t\<rparr>)))))"

text \<open>\<^verbatim>\<open>*tz += setdst_eu ()\<close>.\<close>

definition add_dst :: "env \<Rightarrow> globals \<Rightarrow> globals option" where
  "add_dst e g =
    (case setdst_eu e g of
       None \<Rightarrow> None
     | Some n \<Rightarrow> Some (g\<lparr>timezone_hr := timezone_hr g + Fin (of_int n)\<rparr>))"

text \<open>
  The \<^verbatim>\<open>while (! feof (f))\<close> loop of \<^verbatim>\<open>setcoord\<close>, from the test of its condition: \<open>s\<close> is
  the unread rest of the file and \<open>at_eof\<close> its end-of-file indicator.
\<close>

function read_loop :: "env \<Rightarrow> string \<Rightarrow> string \<Rightarrow> bool \<Rightarrow> scan_state \<Rightarrow> scan_state option" where
  "read_loop e loc s at_eof st =
    (if at_eof then Some st
     else
       (case fgets 252 s of
          (None, s', eof') \<Rightarrow> read_loop e loc s' True st
        | (Some line, s', eof') \<Rightarrow>
           (if eof' then Some st
            else if hd line = CHR 0x0A then read_loop e loc s' eof' st
            else if CHR ''*'' \<in> set line then Some st
            else
              (let st = sscanf_line line st in
               if strcmpi_eq (rloc st) loc then
                 (if strcmpi_eq (dststr st) ''EU'' then
                    (case add_dst e (glob st) of
                       None \<Rightarrow> None
                     | Some g \<Rightarrow> Some (st\<lparr>glob := g\<rparr>))
                  else Some st)
               else read_loop e loc s' eof' st))))"
  by pat_completeness auto
termination
  by (relation "measure (\<lambda>(e, loc, s, at_eof, st). length s + (if at_eof then 0 else 1))")
    (auto simp add: fgets_def Let_def split: if_splits)

section \<open>Resolving a location name\<close>

text \<open>
  A branch of the built-in cascade that ends in \<^verbatim>\<open>*tz += setdst_eu (); return (true);\<close>,
  and one that returns without it.
\<close>

definition found_eu :: "env \<Rightarrow> globals \<Rightarrow> dbl \<Rightarrow> dbl \<Rightarrow> dbl \<Rightarrow> (bool \<times> globals) option" where
  "found_eu e g la lo tz =
    (case add_dst e (g\<lparr>lat_deg := la, long_deg := lo, timezone_hr := tz\<rparr>) of
       None \<Rightarrow> None
     | Some g' \<Rightarrow> Some (True, g'))"

definition found_fixed :: "globals \<Rightarrow> dbl \<Rightarrow> dbl \<Rightarrow> dbl \<Rightarrow> (bool \<times> globals) option" where
  "found_fixed g la lo tz = Some (True, g\<lparr>lat_deg := la, long_deg := lo, timezone_hr := tz\<rparr>)"

text \<open>
  The names of the cascade that are not ASCII, as the bytes of the source file (UTF-8).
\<close>

definition name_riihimaki :: string where
  "name_riihimaki = ''Riihim'' @ [CHR 0xC3, CHR 0xA4] @ ''ki''"

definition name_ylojarvi :: string where
  "name_ylojarvi = ''Yl'' @ [CHR 0xC3, CHR 0xB6] @ ''j'' @ [CHR 0xC3, CHR 0xA4] @ ''rvi''"

definition name_vargon :: string where
  "name_vargon = ''Varg'' @ [CHR 0xC3, CHR 0xB6] @ ''n''"

text \<open>The part of \<^verbatim>\<open>setcoord\<close> after \<^verbatim>\<open>// Fallback for a missing noaa_clock.cnf\<close>.\<close>

definition fallback :: "env \<Rightarrow> string \<Rightarrow> globals \<Rightarrow> (bool \<times> globals) option" where
  "fallback e loc g =
    (if strcmpi_eq loc ''Helsinki'' then found_eu e g 60.16 24.83 2
     else if strcmpi_eq loc name_riihimaki then found_eu e g 60.739 24.772 2
     else if strcmpi_eq loc ''Tampere'' then found_eu e g 61.498 23.761 2
     else if strcmpi_eq loc name_ylojarvi then found_eu e g 61.55 23.583 2
     else if strcmpi_eq loc ''Rovaniemi'' then found_eu e g 66.5 25.733 2
     else if strcmpi_eq loc ''Inari'' then found_eu e g 68.905 27.03 2
     else if strcmpi_eq loc ''Utsjoki'' then found_eu e g 69.9 27.017 2
     else if strcmpi_eq loc ''Tukholma'' \<or> strcmpi_eq loc ''Stockholm'' then found_eu e g 59.329 18.069 1
     else if strcmpi_eq loc name_vargon then found_eu e g 58.35 12.4 1
     else if strcmpi_eq loc ''Reykjavik'' then found_fixed g 64.135 (- 21.895) 0
     else if strcmpi_eq loc ''Longyearbyen'' then found_eu e g 78.22 15.65 1
     else if strcmpi_eq loc ''Tallinna'' \<or> strcmpi_eq loc ''Tallinn'' then found_eu e g 59.437 24.745 2
     else if strcmpi_eq loc ''Moskova'' \<or> strcmpi_eq loc ''Moscow'' then found_eu e g 55.75 37.617 2
     else if strcmpi_eq loc ''Lontoo'' \<or> strcmpi_eq loc ''London'' then found_eu e g 51.5 (- 0.126) 0
     else if strcmpi_eq loc ''Hampuri'' \<or> strcmpi_eq loc ''Hamburg'' then found_eu e g 53.553 9.992 1
     else if strcmpi_eq loc ''Rooma'' \<or> strcmpi_eq loc ''Roma'' then found_eu e g 41.895 12.482 1
     else if strcmpi_eq loc ''Tokio'' \<or> strcmpi_eq loc ''Tokyo'' then found_fixed g 35.683 139.767 9
     else if strcmpi_eq loc ''Teheran'' \<or> strcmpi_eq loc ''Tehran'' then found_fixed g 35.696 51.423 3.5
     else Some (False, g))"

text \<open>
  \<^verbatim>\<open>setcoord\<close>: the result is the returned flag and the globals after the call; \<open>None\<close> when
  the call has no defined result. With the file open, the loop runs and
  \<^verbatim>\<open>if (f) {fclose (f); return (true);}\<close> ends the call.
\<close>

definition setcoord :: "env \<Rightarrow> string \<Rightarrow> globals \<Rightarrow> (bool \<times> globals) option" where
  "setcoord e loc g =
    (case cnf e of
       Some text \<Rightarrow>
        (case read_loop e loc text False \<lparr>glob = g, rloc = stack_rloc e, dststr = stack_dststr e\<rparr> of
           None \<Rightarrow> None
         | Some st \<Rightarrow> Some (True, glob st))
     | None \<Rightarrow> fallback e loc g)"

text \<open>
  The built-in table as the specification describes it: names, latitude, longitude, base
  timezone, and whether the European daylight saving rule applies.
\<close>

definition builtin_table :: "(string list \<times> dbl \<times> dbl \<times> dbl \<times> bool) list" where
  "builtin_table =
    [([''Helsinki''], 60.16, 24.83, 2, True),
     ([name_riihimaki], 60.739, 24.772, 2, True),
     ([''Tampere''], 61.498, 23.761, 2, True),
     ([name_ylojarvi], 61.55, 23.583, 2, True),
     ([''Rovaniemi''], 66.5, 25.733, 2, True),
     ([''Inari''], 68.905, 27.03, 2, True),
     ([''Utsjoki''], 69.9, 27.017, 2, True),
     ([''Tukholma'', ''Stockholm''], 59.329, 18.069, 1, True),
     ([name_vargon], 58.35, 12.4, 1, True),
     ([''Reykjavik''], 64.135, - 21.895, 0, False),
     ([''Longyearbyen''], 78.22, 15.65, 1, True),
     ([''Tallinna'', ''Tallinn''], 59.437, 24.745, 2, True),
     ([''Moskova'', ''Moscow''], 55.75, 37.617, 2, True),
     ([''Lontoo'', ''London''], 51.5, - 0.126, 0, True),
     ([''Hampuri'', ''Hamburg''], 53.553, 9.992, 1, True),
     ([''Rooma'', ''Roma''], 41.895, 12.482, 1, True),
     ([''Tokio'', ''Tokyo''], 35.683, 139.767, 9, False),
     ([''Teheran'', ''Tehran''], 35.696, 51.423, 3.5, False)]"

text \<open>
  Resolution from the table alone: the first entry with a name equal to the given one up
  to case, its timezone advanced by the daylight saving offset where the entry is tagged.
\<close>

definition resolve_builtin :: "env \<Rightarrow> string \<Rightarrow> globals \<Rightarrow> (bool \<times> globals) option" where
  "resolve_builtin e loc g =
    (case find (\<lambda>(names, la, lo, tz, eu). \<exists>n \<in> set names. strcmpi_eq loc n) builtin_table of
       None \<Rightarrow> Some (False, g)
     | Some (names, la, lo, tz, eu) \<Rightarrow>
        (if eu then found_eu e g la lo tz else found_fixed g la lo tz))"

section \<open>Inputs of the examples\<close>

text \<open>
  \<^verbatim>\<open>date_d\<close> is the number of days from 1900-01-01 to the date, plus 2: 36526 is
  2000-01-01. Reykjavik, at its built-in coordinates, at 00:00.
\<close>

definition reykjavik_midnight :: globals where
  "reykjavik_midnight =
     init_globals\<lparr>lat_deg := 64.135, long_deg := - 21.895, timezone_hr := 0, date_d := 36526,
       wtime_day := 0\<rparr>"

text \<open>Helsinki, at its built-in coordinates and winter timezone, on the same day.\<close>

definition helsinki :: globals where
  "helsinki = init_globals\<lparr>lat_deg := 60.16, long_deg := 24.83, timezone_hr := 2, date_d := 36526\<rparr>"

text \<open>
  A place at latitude 60 close to the date line, twelve hours behind UTC, on the same day:
  00:00 there is the epoch J2000.0 (12:00 UTC of 1 January 2000).
\<close>

definition date_line :: globals where
  "date_line = init_globals\<lparr>lat_deg := 60, long_deg := - 179.17469, timezone_hr := - 12, date_d := 36526\<rparr>"

text \<open>
  A place on the equator, at 00:00 UTC of the same day, at the longitude where the
  equation of time of that moment is cancelled: true solar time is exactly zero there.
\<close>

definition greenwich_midnight :: globals where
  "greenwich_midnight = init_globals\<lparr>date_d := 36526\<rparr>"

definition solar_midnight :: globals where
  "solar_midnight =
     greenwich_midnight\<lparr>long_deg := - (eqoftime_min (noaa_eq greenwich_midnight) / 4)\<rparr>"

text \<open>
  27 March 2016, the last Sunday of March, at 02:30 with the observer in the location's
  timezone; and a configuration file that lists one place, which is not Helsinki.
\<close>

definition march_sunday :: env where
  "march_sunday =
     \<lparr>cnf = None, cur_year = 2016, cur_month = 3, cur_day = 27, cur_msecs = 9000000,
      stack_rloc = [], stack_dststr = []\<rparr>"

definition oslo_file :: env where
  "oslo_file = march_sunday\<lparr>cnf := Some (''Oslo 59.91 10.75 1'' @ [CHR 0x0A])\<rparr>"

section \<open>Arithmetic on \<open>dbl\<close>\<close>

lemma Fin_arith [simp]:
  "Fin x + Fin y = Fin (x + y)"
  "Fin x - Fin y = Fin (x - y)"
  "Fin x * Fin y = Fin (x * y)"
  "- Fin x = Fin (- x)"
  "Fin x / Fin y = (if y = 0 then Undef else Fin (x / y))"
  "(Fin x < Fin y) = (x < y)"
  "(Fin x \<le> Fin y) = (x \<le> y)"
  by (simp_all add: plus_dbl_def minus_dbl_def times_dbl_def uminus_dbl_def divide_dbl_def
      less_dbl_def less_eq_dbl_def)

lemma Undef_arith [simp]:
  "Undef + a = Undef" "a + Undef = Undef"
  "Undef - a = Undef" "a - Undef = Undef"
  "Undef * a = Undef" "a * Undef = Undef"
  "Undef / a = Undef" "a / Undef = Undef"
  "- Undef = Undef"
  "\<not> Undef < a" "\<not> a < Undef" "\<not> Undef \<le> a" "\<not> a \<le> Undef"
  by (simp_all add: plus_dbl_def minus_dbl_def times_dbl_def uminus_dbl_def divide_dbl_def
      less_dbl_def less_eq_dbl_def split: dbl.splits)

lemma zero_dbl_Fin [simp]: "(0 :: dbl) = Fin 0"
  by (simp add: zero_dbl_def)

lemma one_dbl_Fin [simp]: "(1 :: dbl) = Fin 1"
  by (simp add: one_dbl_def)

lemma numeral_dbl: "(numeral n :: dbl) = Fin (numeral n)"
proof (induction n)
  case One
  show ?case by simp
next
  case (Bit0 n)
  have "(numeral (num.Bit0 n) :: dbl) = numeral n + numeral n"
    by (rule numeral_Bit0)
  also have "\<dots> = Fin (numeral n + numeral n)"
    by (simp add: Bit0)
  also have "\<dots> = Fin (numeral (num.Bit0 n))"
    by (simp only: numeral_Bit0)
  finally show ?case .
next
  case (Bit1 n)
  have "(numeral (num.Bit1 n) :: dbl) = numeral n + numeral n + 1"
    by (rule numeral_Bit1)
  also have "\<dots> = Fin (numeral n + numeral n + 1)"
    by (simp add: Bit1)
  also have "\<dots> = Fin (numeral (num.Bit1 n))"
    by (simp only: numeral_Bit1)
  finally show ?case .
qed

declare numeral_dbl [simp]

lemma power_dbl [simp]: "(Fin x) ^ n = Fin (x ^ n)"
  by (induction n) simp_all

lemma fun_d_Fin [simp]:
  "sin_d (Fin x) = Fin (sin x)"
  "cos_d (Fin x) = Fin (cos x)"
  "tan_d (Fin x) = (if cos x = 0 then Undef else Fin (tan x))"
  "asin_d (Fin x) = (if - 1 \<le> x \<and> x \<le> 1 then Fin (arcsin x) else Undef)"
  "acos_d (Fin x) = (if - 1 \<le> x \<and> x \<le> 1 then Fin (arccos x) else Undef)"
  "atan2_d (Fin y) (Fin x) = Fin (atan2_r y x)"
  "pow_d (Fin x) n = Fin (x ^ n)"
  "fmod_d (Fin x) (Fin y) = (if y = 0 then Undef else Fin (fmod_r x y))"
  by (simp_all add: sin_d_def cos_d_def tan_d_def asin_d_def acos_d_def atan2_d_def pow_d_def
      fmod_d_def)

lemma fun_d_Undef [simp]:
  "sin_d Undef = Undef" "cos_d Undef = Undef" "tan_d Undef = Undef" "asin_d Undef = Undef"
  "acos_d Undef = Undef" "atan2_d Undef a = Undef" "atan2_d a Undef = Undef"
  "pow_d Undef n = Undef" "fmod_d Undef a = Undef" "fmod_d a Undef = Undef"
  by (simp_all add: sin_d_def cos_d_def tan_d_def asin_d_def acos_d_def atan2_d_def pow_d_def
      fmod_d_def split: dbl.splits)

lemma d2r_Fin [simp]: "d2r (Fin x) = Fin (pi * x / 180)"
  by (simp add: d2r_def dpi_def)

lemma r2d_Fin [simp]: "r2d (Fin x) = Fin (180 * x / pi)"
  by (simp add: r2d_def dpi_def)

lemma d2r_Undef [simp]: "d2r Undef = Undef"
  by (simp add: d2r_def)

lemma r2d_Undef [simp]: "r2d Undef = Undef"
  by (simp add: r2d_def)

section \<open>The assignments of \<open>noaa_eq\<close>\<close>

text \<open>An assignment to one variable leaves every other variable as it was.\<close>

lemma assign_frame_gen: "(\<And>h g'. f (upd h g') = f g') \<Longrightarrow> f (assign upd rhs g) = f g"
  by (simp add: assign_def)

lemmas assign_frame [simp] =
  assign_frame_gen [where f = lat_deg] assign_frame_gen [where f = long_deg]
  assign_frame_gen [where f = date_d] assign_frame_gen [where f = wtime_day]
  assign_frame_gen [where f = dst_hr] assign_frame_gen [where f = timezone_hr]
  assign_frame_gen [where f = my_timezone] assign_frame_gen [where f = jday]
  assign_frame_gen [where f = jcen] assign_frame_gen [where f = gmlong_deg]
  assign_frame_gen [where f = gmanom_deg] assign_frame_gen [where f = eccent]
  assign_frame_gen [where f = eqofctr] assign_frame_gen [where f = truelong_deg]
  assign_frame_gen [where f = trueanom_deg] assign_frame_gen [where f = radvect_au]
  assign_frame_gen [where f = applong_deg] assign_frame_gen [where f = moe_deg]
  assign_frame_gen [where f = ocorr_deg] assign_frame_gen [where f = rtasc_deg]
  assign_frame_gen [where f = decl_deg] assign_frame_gen [where f = var_y]
  assign_frame_gen [where f = eqoftime_min] assign_frame_gen [where f = ha_rise_deg]
  assign_frame_gen [where f = noon_lst] assign_frame_gen [where f = rise_lst]
  assign_frame_gen [where f = set_lst] assign_frame_gen [where f = lightdur_min]
  assign_frame_gen [where f = soltime_min] assign_frame_gen [where f = hrangle_deg]
  assign_frame_gen [where f = zangle_deg] assign_frame_gen [where f = elev_deg]
  assign_frame_gen [where f = refract_deg] assign_frame_gen [where f = elevc_deg]
  assign_frame_gen [where f = az_deg] assign_frame_gen [where f = solarmin]
  assign_frame_gen [where f = elev] assign_frame_gen [where f = elevc]
  assign_frame_gen [where f = azim] assign_frame_gen [where f = sunlong]

lemma assign_value:
  "jday (assign jday_update rhs g) = rhs g"
  "jcen (assign jcen_update rhs g) = rhs g"
  "gmlong_deg (assign gmlong_deg_update rhs g) = rhs g"
  "gmanom_deg (assign gmanom_deg_update rhs g) = rhs g"
  "eccent (assign eccent_update rhs g) = rhs g"
  "eqofctr (assign eqofctr_update rhs g) = rhs g"
  "truelong_deg (assign truelong_deg_update rhs g) = rhs g"
  "trueanom_deg (assign trueanom_deg_update rhs g) = rhs g"
  "radvect_au (assign radvect_au_update rhs g) = rhs g"
  "applong_deg (assign applong_deg_update rhs g) = rhs g"
  "moe_deg (assign moe_deg_update rhs g) = rhs g"
  "ocorr_deg (assign ocorr_deg_update rhs g) = rhs g"
  "rtasc_deg (assign rtasc_deg_update rhs g) = rhs g"
  "decl_deg (assign decl_deg_update rhs g) = rhs g"
  "var_y (assign var_y_update rhs g) = rhs g"
  "eqoftime_min (assign eqoftime_min_update rhs g) = rhs g"
  "ha_rise_deg (assign ha_rise_deg_update rhs g) = rhs g"
  "noon_lst (assign noon_lst_update rhs g) = rhs g"
  "rise_lst (assign rise_lst_update rhs g) = rhs g"
  "set_lst (assign set_lst_update rhs g) = rhs g"
  "lightdur_min (assign lightdur_min_update rhs g) = rhs g"
  "soltime_min (assign soltime_min_update rhs g) = rhs g"
  "hrangle_deg (assign hrangle_deg_update rhs g) = rhs g"
  "zangle_deg (assign zangle_deg_update rhs g) = rhs g"
  "elev_deg (assign elev_deg_update rhs g) = rhs g"
  "refract_deg (assign refract_deg_update rhs g) = rhs g"
  "elevc_deg (assign elevc_deg_update rhs g) = rhs g"
  "az_deg (assign az_deg_update rhs g) = rhs g"
  by (simp_all add: assign_def)

text \<open>
  Each variable \<^verbatim>\<open>noaa_eq\<close> assigns, after the call, in terms of the five inputs before
  the call and of the variables assigned earlier in the same call.
\<close>

lemma noaa_eq_jday:
  "jday (noaa_eq g) =
     date_d g + 2415018.5 + wtime_day g - timezone_hr g / 24"
  by (simp add: noaa_eq_def assign_value(1))

lemma noaa_eq_jcen:
  "jcen (noaa_eq g) =
     (jday (noaa_eq g) - 2451545) / 36525"
  by (simp add: noaa_eq_def assign_value(2))

lemma noaa_eq_gmlong_deg:
  "gmlong_deg (noaa_eq g) =
     fmod_d (280.46646 + jcen (noaa_eq g) * (36000.76983 + jcen (noaa_eq g) * 0.0003032)) 360"
  by (simp add: noaa_eq_def assign_value(3))

lemma noaa_eq_gmanom_deg:
  "gmanom_deg (noaa_eq g) =
     357.52911 + jcen (noaa_eq g) * (35999.05029 - 0.0001537 * jcen (noaa_eq g))"
  by (simp add: noaa_eq_def assign_value(4))

lemma noaa_eq_eccent:
  "eccent (noaa_eq g) =
     0.016708634 - jcen (noaa_eq g) * (0.000042037 + 0.0000001267 * jcen (noaa_eq g))"
  by (simp add: noaa_eq_def assign_value(5))

lemma noaa_eq_eqofctr:
  "eqofctr (noaa_eq g) =
     sin_d (d2r (gmanom_deg (noaa_eq g))) * (1.914602 - jcen (noaa_eq g) * (0.004817 + 0.000014 * jcen (noaa_eq g)))
     + sin_d (d2r (2 * gmanom_deg (noaa_eq g))) * (0.019993 - 0.000101 * jcen (noaa_eq g))
     + sin_d (d2r (3 * gmanom_deg (noaa_eq g))) * 0.000289"
  by (simp add: noaa_eq_def assign_value(6))

lemma noaa_eq_truelong_deg:
  "truelong_deg (noaa_eq g) =
     gmlong_deg (noaa_eq g) + eqofctr (noaa_eq g)"
  by (simp add: noaa_eq_def assign_value(7))

lemma noaa_eq_trueanom_deg:
  "trueanom_deg (noaa_eq g) =
     gmanom_deg (noaa_eq g) + eqofctr (noaa_eq g)"
  by (simp add: noaa_eq_def assign_value(8))

lemma noaa_eq_radvect_au:
  "radvect_au (noaa_eq g) =
     (1.000001018 * (1 - eccent (noaa_eq g) * eccent (noaa_eq g))) / (1 + eccent (noaa_eq g) * cos_d (d2r (trueanom_deg (noaa_eq g))))"
  by (simp add: noaa_eq_def assign_value(9))

lemma noaa_eq_applong_deg:
  "applong_deg (noaa_eq g) =
     truelong_deg (noaa_eq g) - 0.00569 - 0.00478 * sin_d (d2r (125.04 - 1934.136 * jcen (noaa_eq g)))"
  by (simp add: noaa_eq_def assign_value(10))

lemma noaa_eq_moe_deg:
  "moe_deg (noaa_eq g) =
     23 + (26 + ((21.448 - jcen (noaa_eq g) * (46.815 + jcen (noaa_eq g) * (0.00059 - jcen (noaa_eq g) * 0.001813)))) / 60) / 60"
  by (simp add: noaa_eq_def assign_value(11))

lemma noaa_eq_ocorr_deg:
  "ocorr_deg (noaa_eq g) =
     moe_deg (noaa_eq g) + 0.00256 * cos_d (d2r (125.04 - 1934.136 * jcen (noaa_eq g)))"
  by (simp add: noaa_eq_def assign_value(12))

lemma noaa_eq_rtasc_deg:
  "rtasc_deg (noaa_eq g) =
     r2d (atan2_d (cos_d (d2r (applong_deg (noaa_eq g)))) (cos_d (d2r (ocorr_deg (noaa_eq g))) * sin_d (d2r (applong_deg (noaa_eq g)))))"
  by (simp add: noaa_eq_def assign_value(13))

lemma noaa_eq_decl_deg:
  "decl_deg (noaa_eq g) =
     r2d (asin_d (sin_d (d2r (ocorr_deg (noaa_eq g))) * sin_d (d2r (applong_deg (noaa_eq g)))))"
  by (simp add: noaa_eq_def assign_value(14))

lemma noaa_eq_var_y:
  "var_y (noaa_eq g) =
     tan_d (d2r (ocorr_deg (noaa_eq g) / 2)) * tan_d (d2r (ocorr_deg (noaa_eq g) / 2))"
  by (simp add: noaa_eq_def assign_value(15))

lemma noaa_eq_eqoftime_min:
  "eqoftime_min (noaa_eq g) =
     4 * r2d (var_y (noaa_eq g) * sin_d (2 * d2r (gmlong_deg (noaa_eq g)))
     - 2 * eccent (noaa_eq g) * sin_d (d2r (gmanom_deg (noaa_eq g)))
     + 4 * eccent (noaa_eq g) * var_y (noaa_eq g) * sin_d (d2r (gmanom_deg (noaa_eq g))) * cos_d (2 * d2r (gmlong_deg (noaa_eq g)))
     - 0.5 * var_y (noaa_eq g) * var_y (noaa_eq g) * sin_d (4 * d2r (gmlong_deg (noaa_eq g)))
     - 1.25 * eccent (noaa_eq g) * eccent (noaa_eq g) * sin_d (2 * d2r (gmanom_deg (noaa_eq g))))"
  by (simp add: noaa_eq_def assign_value(16))

lemma noaa_eq_ha_rise_deg:
  "ha_rise_deg (noaa_eq g) =
     r2d (acos_d (cos_d (d2r 90.833) / (cos_d (d2r (lat_deg g)) * cos_d (d2r (decl_deg (noaa_eq g))))
     - tan_d (d2r (lat_deg g)) * tan_d (d2r (decl_deg (noaa_eq g)))))"
  by (simp add: noaa_eq_def assign_value(17))

lemma noaa_eq_noon_lst:
  "noon_lst (noaa_eq g) =
     (720 - 4 * long_deg g - eqoftime_min (noaa_eq g) + timezone_hr g * 60) / 1440"
  by (simp add: noaa_eq_def assign_value(18))

lemma noaa_eq_rise_lst:
  "rise_lst (noaa_eq g) =
     noon_lst (noaa_eq g) - ha_rise_deg (noaa_eq g) * 4 / 1440"
  by (simp add: noaa_eq_def assign_value(19))

lemma noaa_eq_set_lst:
  "set_lst (noaa_eq g) =
     noon_lst (noaa_eq g) + ha_rise_deg (noaa_eq g) * 4 / 1440"
  by (simp add: noaa_eq_def assign_value(20))

lemma noaa_eq_lightdur_min:
  "lightdur_min (noaa_eq g) =
     8 * ha_rise_deg (noaa_eq g)"
  by (simp add: noaa_eq_def assign_value(21))

lemma noaa_eq_soltime_min:
  "soltime_min (noaa_eq g) =
     fmod_d (wtime_day g * 1440 + eqoftime_min (noaa_eq g) + 4 * long_deg g - 60 * timezone_hr g) 1440"
  by (simp add: noaa_eq_def assign_value(22))

lemma noaa_eq_hrangle_deg:
  "hrangle_deg (noaa_eq g) =
     (if soltime_min (noaa_eq g) / 4 < 0 then soltime_min (noaa_eq g) / 4 + 180 else soltime_min (noaa_eq g) / 4 - 180)"
  by (simp add: noaa_eq_def assign_value(23))

lemma noaa_eq_zangle_deg:
  "zangle_deg (noaa_eq g) =
     r2d (acos_d (sin_d (d2r (lat_deg g)) * sin_d (d2r (decl_deg (noaa_eq g)))
     + cos_d (d2r (lat_deg g)) * cos_d (d2r (decl_deg (noaa_eq g))) * cos_d (d2r (hrangle_deg (noaa_eq g)))))"
  by (simp add: noaa_eq_def assign_value(24))

lemma noaa_eq_elev_deg:
  "elev_deg (noaa_eq g) =
     90 - zangle_deg (noaa_eq g)"
  by (simp add: noaa_eq_def assign_value(25))

lemma noaa_eq_refract_deg:
  "refract_deg (noaa_eq g) =
     (if elev_deg (noaa_eq g) > 85 then 0
     else if elev_deg (noaa_eq g) > 5 then
     58.1 / tan_d (d2r (elev_deg (noaa_eq g))) - 0.07 / pow_d (tan_d (d2r (elev_deg (noaa_eq g)))) 3
     + 0.000086 / pow_d (tan_d (d2r (elev_deg (noaa_eq g)))) 5
     else if elev_deg (noaa_eq g) > - 0.575 then
     1735 + elev_deg (noaa_eq g) * (- 518.2 + elev_deg (noaa_eq g) * (103.4 + elev_deg (noaa_eq g) * (- 12.79 + elev_deg (noaa_eq g) * 0.711)))
     else - 20.772 / tan_d (d2r (elev_deg (noaa_eq g)))) / 3600"
  by (simp add: noaa_eq_def assign_value(26))

lemma noaa_eq_elevc_deg:
  "elevc_deg (noaa_eq g) =
     elev_deg (noaa_eq g) + refract_deg (noaa_eq g)"
  by (simp add: noaa_eq_def assign_value(27))

lemma noaa_eq_az_deg:
  "az_deg (noaa_eq g) =
     (if hrangle_deg (noaa_eq g) > 0 then
     fmod_d (r2d (acos_d (((sin_d (d2r (lat_deg g)) * cos_d (d2r (zangle_deg (noaa_eq g)))) - sin_d (d2r (decl_deg (noaa_eq g))))
     / (cos_d (d2r (lat_deg g)) * sin_d (d2r (zangle_deg (noaa_eq g)))))) + 180) 360
     else
     fmod_d (540 - r2d (acos_d (((sin_d (d2r (lat_deg g)) * cos_d (d2r (zangle_deg (noaa_eq g)))) - sin_d (d2r (decl_deg (noaa_eq g))))
     / (cos_d (d2r (lat_deg g)) * sin_d (d2r (zangle_deg (noaa_eq g))))))) 360)"
  by (simp add: noaa_eq_def assign_value(28))

lemma noaa_eq_unchanged:
  "lat_deg (noaa_eq g) = lat_deg g" "long_deg (noaa_eq g) = long_deg g"
  "timezone_hr (noaa_eq g) = timezone_hr g" "date_d (noaa_eq g) = date_d g"
  "wtime_day (noaa_eq g) = wtime_day g" "dst_hr (noaa_eq g) = dst_hr g"
  "my_timezone (noaa_eq g) = my_timezone g" "solarmin (noaa_eq g) = solarmin g"
  "elev (noaa_eq g) = elev g" "elevc (noaa_eq g) = elevc g" "azim (noaa_eq g) = azim g"
  "sunlong (noaa_eq g) = sunlong g"
  by (simp_all add: noaa_eq_def)

lemma noaa_eq_reads_inputs:
  assumes "same_inputs g g'"
  shows "derived (noaa_eq g') = derived (noaa_eq g)"
proof -
  from assms have i:
    "lat_deg g' = lat_deg g" "long_deg g' = long_deg g" "date_d g' = date_d g"
    "wtime_day g' = wtime_day g" "timezone_hr g' = timezone_hr g"
    by (simp_all add: same_inputs_def)
  have e1: "jday (noaa_eq g') = jday (noaa_eq g)"
    by (simp only: noaa_eq_jday i)
  have e2: "jcen (noaa_eq g') = jcen (noaa_eq g)"
    by (simp only: noaa_eq_jcen i e1)
  have e3: "gmlong_deg (noaa_eq g') = gmlong_deg (noaa_eq g)"
    by (simp only: noaa_eq_gmlong_deg i e1 e2)
  have e4: "gmanom_deg (noaa_eq g') = gmanom_deg (noaa_eq g)"
    by (simp only: noaa_eq_gmanom_deg i e1 e2 e3)
  have e5: "eccent (noaa_eq g') = eccent (noaa_eq g)"
    by (simp only: noaa_eq_eccent i e1 e2 e3 e4)
  have e6: "eqofctr (noaa_eq g') = eqofctr (noaa_eq g)"
    by (simp only: noaa_eq_eqofctr i e1 e2 e3 e4 e5)
  have e7: "truelong_deg (noaa_eq g') = truelong_deg (noaa_eq g)"
    by (simp only: noaa_eq_truelong_deg i e1 e2 e3 e4 e5 e6)
  have e8: "trueanom_deg (noaa_eq g') = trueanom_deg (noaa_eq g)"
    by (simp only: noaa_eq_trueanom_deg i e1 e2 e3 e4 e5 e6 e7)
  have e9: "radvect_au (noaa_eq g') = radvect_au (noaa_eq g)"
    by (simp only: noaa_eq_radvect_au i e1 e2 e3 e4 e5 e6 e7 e8)
  have e10: "applong_deg (noaa_eq g') = applong_deg (noaa_eq g)"
    by (simp only: noaa_eq_applong_deg i e1 e2 e3 e4 e5 e6 e7 e8 e9)
  have e11: "moe_deg (noaa_eq g') = moe_deg (noaa_eq g)"
    by (simp only: noaa_eq_moe_deg i e1 e2 e3 e4 e5 e6 e7 e8 e9 e10)
  have e12: "ocorr_deg (noaa_eq g') = ocorr_deg (noaa_eq g)"
    by (simp only: noaa_eq_ocorr_deg i e1 e2 e3 e4 e5 e6 e7 e8 e9 e10 e11)
  have e13: "rtasc_deg (noaa_eq g') = rtasc_deg (noaa_eq g)"
    by (simp only: noaa_eq_rtasc_deg i e1 e2 e3 e4 e5 e6 e7 e8 e9 e10 e11 e12)
  have e14: "decl_deg (noaa_eq g') = decl_deg (noaa_eq g)"
    by (simp only: noaa_eq_decl_deg i e1 e2 e3 e4 e5 e6 e7 e8 e9 e10 e11 e12 e13)
  have e15: "var_y (noaa_eq g') = var_y (noaa_eq g)"
    by (simp only: noaa_eq_var_y i e1 e2 e3 e4 e5 e6 e7 e8 e9 e10 e11 e12 e13 e14)
  have e16: "eqoftime_min (noaa_eq g') = eqoftime_min (noaa_eq g)"
    by (simp only: noaa_eq_eqoftime_min i e1 e2 e3 e4 e5 e6 e7 e8 e9 e10 e11 e12 e13 e14 e15)
  have e17: "ha_rise_deg (noaa_eq g') = ha_rise_deg (noaa_eq g)"
    by (simp only: noaa_eq_ha_rise_deg i e1 e2 e3 e4 e5 e6 e7 e8 e9 e10 e11 e12 e13 e14 e15 e16)
  have e18: "noon_lst (noaa_eq g') = noon_lst (noaa_eq g)"
    by (simp only: noaa_eq_noon_lst i e1 e2 e3 e4 e5 e6 e7 e8 e9 e10 e11 e12 e13 e14 e15 e16 e17)
  have e19: "rise_lst (noaa_eq g') = rise_lst (noaa_eq g)"
    by (simp only: noaa_eq_rise_lst i e1 e2 e3 e4 e5 e6 e7 e8 e9 e10 e11 e12 e13 e14 e15 e16 e17 e18)
  have e20: "set_lst (noaa_eq g') = set_lst (noaa_eq g)"
    by (simp only: noaa_eq_set_lst i e1 e2 e3 e4 e5 e6 e7 e8 e9 e10 e11 e12 e13 e14 e15 e16 e17 e18 e19)
  have e21: "lightdur_min (noaa_eq g') = lightdur_min (noaa_eq g)"
    by (simp only: noaa_eq_lightdur_min i e1 e2 e3 e4 e5 e6 e7 e8 e9 e10 e11 e12 e13 e14 e15 e16 e17 e18 e19 e20)
  have e22: "soltime_min (noaa_eq g') = soltime_min (noaa_eq g)"
    by (simp only: noaa_eq_soltime_min i e1 e2 e3 e4 e5 e6 e7 e8 e9 e10 e11 e12 e13 e14 e15 e16 e17 e18 e19 e20 e21)
  have e23: "hrangle_deg (noaa_eq g') = hrangle_deg (noaa_eq g)"
    by (simp only: noaa_eq_hrangle_deg i e1 e2 e3 e4 e5 e6 e7 e8 e9 e10 e11 e12 e13 e14 e15 e16 e17 e18 e19 e20 e21 e22)
  have e24: "zangle_deg (noaa_eq g') = zangle_deg (noaa_eq g)"
    by (simp only: noaa_eq_zangle_deg i e1 e2 e3 e4 e5 e6 e7 e8 e9 e10 e11 e12 e13 e14 e15 e16 e17 e18 e19 e20 e21 e22 e23)
  have e25: "elev_deg (noaa_eq g') = elev_deg (noaa_eq g)"
    by (simp only: noaa_eq_elev_deg i e1 e2 e3 e4 e5 e6 e7 e8 e9 e10 e11 e12 e13 e14 e15 e16 e17 e18 e19 e20 e21 e22 e23 e24)
  have e26: "refract_deg (noaa_eq g') = refract_deg (noaa_eq g)"
    by (simp only: noaa_eq_refract_deg i e1 e2 e3 e4 e5 e6 e7 e8 e9 e10 e11 e12 e13 e14 e15 e16 e17 e18 e19 e20 e21 e22 e23 e24 e25)
  have e27: "elevc_deg (noaa_eq g') = elevc_deg (noaa_eq g)"
    by (simp only: noaa_eq_elevc_deg i e1 e2 e3 e4 e5 e6 e7 e8 e9 e10 e11 e12 e13 e14 e15 e16 e17 e18 e19 e20 e21 e22 e23 e24 e25 e26)
  have e28: "az_deg (noaa_eq g') = az_deg (noaa_eq g)"
    by (simp only: noaa_eq_az_deg i e1 e2 e3 e4 e5 e6 e7 e8 e9 e10 e11 e12 e13 e14 e15 e16 e17 e18 e19 e20 e21 e22 e23 e24 e25 e26 e27)
  show ?thesis
    by (simp only: derived_def e1 e2 e3 e4 e5 e6 e7 e8 e9 e10 e11 e12 e13 e14 e15 e16 e17 e18 e19 e20 e21 e22 e23 e24 e25 e26 e27 e28)
qed

section \<open>The table built by \<open>load\<close>\<close>

section \<open>The conversion from double to float\<close>

lemma pow2_pos [simp]: "0 < pow2 e"
  by (simp add: pow2_def)

lemma pow2_nonneg [simp]: "0 \<le> pow2 e"
  by (simp add: pow2_def)

lemma pow2_add: "pow2 (a + b) = pow2 a * pow2 b"
proof -
  have "pow2 e = 2 powi e" for e
    by (simp add: pow2_def power_int_def field_simps)
  then show ?thesis
    by (simp add: power_int_add)
qed

lemma pow2_mono: "a \<le> b \<Longrightarrow> pow2 a \<le> pow2 b"
proof -
  have "pow2 e = 2 powi e" for e
    by (simp add: pow2_def power_int_def field_simps)
  then show "a \<le> b \<Longrightarrow> pow2 a \<le> pow2 b"
    by (simp add: power_int_increasing)
qed

lemma float_exp_from_lower:
  "float_exp_from n a = - 126 \<or> pow2 (float_exp_from n a) \<le> a"
  by (induction n) auto

lemma float_exp_from_eq:
  assumes "pow2 e \<le> a" and "a < pow2 (e + 1)" and "- 125 \<le> e" and "e \<le> int n - 126"
  shows "float_exp_from n a = e"
  using assms
proof (induction n)
  case 0
  then show ?case by simp
next
  case (Suc n)
  show ?case
  proof (cases "e = int n - 125")
    case True
    with Suc.prems show ?thesis by simp
  next
    case False
    with Suc.prems have le: "e \<le> int n - 126" by simp
    then have "e + 1 \<le> int n - 125" by simp
    from pow2_mono [OF this] Suc.prems have "\<not> pow2 (int n - 125) \<le> a"
      by simp
    with Suc.IH [OF Suc.prems(1-3) le] show ?thesis
      by simp
  qed
qed

lemma float_exp_eq:
  assumes "pow2 e \<le> \<bar>x\<bar>" and "\<bar>x\<bar> < pow2 (e + 1)" and "- 125 \<le> e" and "e \<le> 127"
  shows "float_exp x = e"
  unfolding float_exp_def using assms by (intro float_exp_from_eq) simp_all

lemma float_exp_lower: "float_exp x = - 126 \<or> pow2 (float_exp x) \<le> \<bar>x\<bar>"
  unfolding float_exp_def by (rule float_exp_from_lower)

lemma round_even_le: "r \<le> of_int n \<Longrightarrow> round_even r \<le> n"
  unfolding round_even_def by (auto simp add: floor_le_iff; linarith)

lemma round_even_ge: "of_int n \<le> r \<Longrightarrow> n \<le> round_even r"
  unfolding round_even_def by (auto simp add: le_floor_iff; linarith)

lemma to_float_r_0: "to_float_r 0 = 0"
  by (simp add: to_float_r_def round_even_def)


lemma pow2_less_cancel: "pow2 a < pow2 b \<Longrightarrow> a < b"
  using pow2_mono [of b a] by (cases "a < b") simp_all

lemma float_exp_le:
  assumes "\<bar>x\<bar> < pow2 (k + 24)" and "- 149 \<le> k"
  shows "float_exp x \<le> k + 23"
proof -
  from float_exp_lower [of x] show ?thesis
  proof
    assume "float_exp x = - 126"
    with assms(2) show ?thesis
      by simp
  next
    assume "pow2 (float_exp x) \<le> \<bar>x\<bar>"
    with assms(1) have "pow2 (float_exp x) < pow2 (k + 24)"
      by simp
    from pow2_less_cancel [OF this] show ?thesis
      by simp
  qed
qed

lemma pow2_int: "0 \<le> e \<Longrightarrow> pow2 e = of_int (2 ^ nat e)"
  by (simp add: pow2_def)

lemma to_float_r_bounds:
  assumes x: "\<bar>x\<bar> \<le> c" and c: "c = of_int n * pow2 k" and n: "0 < n" "n < 2 ^ 24" and k: "- 149 \<le> k"
  shows "\<bar>to_float_r x\<bar> \<le> c"
proof -
  define e where "e = float_exp x"
  define u where "u = pow2 (e - 23)"
  have u: "0 < u"
    by (simp add: u_def)
  have "c < of_int (2 ^ 24) * pow2 k"
    unfolding c using n(2) by (intro mult_strict_right_mono) simp_all
  also have "\<dots> = pow2 (k + 24)"
  proof -
    have "pow2 24 = of_int (2 ^ 24)"
      by (simp add: pow2_def)
    then show ?thesis
      by (simp add: pow2_add [of k 24])
  qed
  finally have "\<bar>x\<bar> < pow2 (k + 24)"
    using x by simp
  from float_exp_le [OF this k] have e: "0 \<le> k + 23 - e"
    by (simp add: e_def)
  define N where "N = n * 2 ^ nat (k + 23 - e)"
  have "pow2 k = pow2 (k + 23 - e) * pow2 (e - 23)"
    by (simp add: pow2_add [symmetric])
  then have cN: "c = of_int N * u"
    by (simp add: c N_def u_def pow2_int [OF e])
  from x have "x \<le> of_int N * u" "- (of_int N * u) \<le> x"
    by (simp_all add: cN)
  with u have "x / u \<le> of_int N" "of_int (- N) \<le> x / u"
    by (simp_all add: field_simps)
  then have "round_even (x / u) \<le> N" "- N \<le> round_even (x / u)"
    by (simp_all add: round_even_le round_even_ge)
  then have "\<bar>of_int (round_even (x / u)) :: real\<bar> \<le> of_int N"
    by linarith
  then have "\<bar>of_int (round_even (x / u)) * u\<bar> \<le> of_int N * u"
    using u by (simp add: abs_mult)
  then show ?thesis
    by (simp add: to_float_r_def cN e_def [symmetric] u_def [symmetric])
qed

lemma to_float_r_nonneg: "0 \<le> x \<Longrightarrow> 0 \<le> to_float_r x"
proof -
  assume "0 \<le> x"
  then have "of_int 0 \<le> x / pow2 (float_exp x - 23)"
    by simp
  from round_even_ge [OF this] show ?thesis
    by (simp add: to_float_r_def)
qed

lemma to_float_r_le_360: "\<bar>x\<bar> \<le> 360 \<Longrightarrow> \<bar>to_float_r x\<bar> \<le> 360"
  by (rule to_float_r_bounds [where n = 45 and k = 3]) (simp_all add: pow2_def)

lemma to_float_r_le_90: "\<bar>x\<bar> \<le> 90 \<Longrightarrow> \<bar>to_float_r x\<bar> \<le> 90"
  by (rule to_float_r_bounds [where n = 45 and k = 1]) (simp_all add: pow2_def)

lemma to_float_r_up_360:
  assumes "360 - 1 / 65536 \<le> x" and "x < 360"
  shows "to_float_r x = 360"
proof -
  have e: "float_exp x = 8"
    using assms by (intro float_exp_eq) (simp_all add: pow2_def)
  define r where "r = x * 32768"
  have r: "11796480 - 1 / 2 \<le> r" "r < 11796480"
    using assms by (simp_all add: r_def)
  then have f: "\<lfloor>r\<rfloor> = 11796479"
    by (simp add: floor_eq_iff)
  have "round_even r = 11796480"
    using r by (simp add: round_even_def f)
  then show ?thesis
    by (simp add: to_float_r_def e pow2_def r_def)
qed

lemma same_inputs_sample:
  assumes "same_inputs g g'"
  shows "sample (noaa_eq g') = sample (noaa_eq g)"
  using noaa_eq_reads_inputs [OF assms] by (simp add: derived_def sample_def)

lemma load_body_place: "same_place g (load_body i g)"
  by (simp add: load_body_def Let_def same_place_def noaa_eq_unchanged)

lemma load_body_tables_ok: "tables_ok g \<Longrightarrow> tables_ok (load_body i g)"
  by (simp add: load_body_def Let_def tables_ok_def noaa_eq_unchanged)

lemma same_place_inputs:
  "same_place g g' \<Longrightarrow> same_inputs (g\<lparr>wtime_day := w\<rparr>) (g'\<lparr>wtime_day := w\<rparr>)"
  by (simp add: same_place_def same_inputs_def)

lemma same_place_trans: "same_place g g' \<Longrightarrow> same_place g' g'' \<Longrightarrow> same_place g g''"
  by (simp add: same_place_def)

lemma load_body_row:
  assumes "tables_ok g" and "j < 1440"
  shows "row (load_body i g) j =
    (if j = i then stored (sample (noaa_eq (g\<lparr>wtime_day := Fin (real i / 1440)\<rparr>))) else row g j)"
  using assms
  by (simp add: load_body_def Let_def tables_ok_def noaa_eq_unchanged nth_list_update
      row_def sample_def stored_def)

lemma load_loop_inv:
  "tables_ok g \<Longrightarrow>
     tables_ok (load_loop k g) \<and> same_place g (load_loop k g) \<and>
     (\<forall>j<1440. row (load_loop k g) j =
        (if k \<le> j then stored (sample (noaa_eq (g\<lparr>wtime_day := Fin (real j / 1440)\<rparr>))) else row g j))"
proof (induction k g rule: load_loop.induct)
  case (1 i g)
  show ?case
  proof (cases "i < 1440")
    case False
    with "1.prems" show ?thesis
      by (simp add: same_place_def)
  next
    case True
    let ?b = "load_body i g"
    have ok: "tables_ok ?b"
      using "1.prems" by (rule load_body_tables_ok)
    have place: "same_place g ?b"
      by (rule load_body_place)
    note IH = "1.IH" [OF True ok]
    have unfold: "load_loop i g = load_loop (i + 1) ?b"
      using True by simp
    have rows: "row (load_loop i g) j =
        (if i \<le> j then stored (sample (noaa_eq (g\<lparr>wtime_day := Fin (real j / 1440)\<rparr>))) else row g j)"
      if j: "j < 1440" for j
    proof -
      have same: "sample (noaa_eq (?b\<lparr>wtime_day := Fin (real j / 1440)\<rparr>)) =
          sample (noaa_eq (g\<lparr>wtime_day := Fin (real j / 1440)\<rparr>))"
        by (rule same_inputs_sample [OF same_place_inputs [OF place]])
      from IH j have step: "row (load_loop (i + 1) ?b) j =
          (if i + 1 \<le> j then stored (sample (noaa_eq (?b\<lparr>wtime_day := Fin (real j / 1440)\<rparr>))) else row ?b j)"
        by blast
      note body = load_body_row [OF "1.prems" j, of i]
      consider (before) "j < i" | (here) "j = i" | (after) "i + 1 \<le> j"
        by linarith
      then show ?thesis
      proof cases
        case before
        then show ?thesis
          using step body unfold by (simp del: load_loop.simps)
      next
        case here
        then show ?thesis
          using step body unfold by (simp del: load_loop.simps)
      next
        case after
        then show ?thesis
          using step same unfold by (simp del: load_loop.simps)
      qed
    qed
    from IH place have "same_place g (load_loop (i + 1) ?b)"
      by (blast intro: same_place_trans)
    with IH rows unfold show ?thesis
      by (simp del: load_loop.simps)
  qed
qed

lemma load_tables_ok: "tables_ok g \<Longrightarrow> tables_ok (load g)"
  using load_loop_inv [of g 0] by (simp add: load_def del: load_loop.simps)

lemma load_rows:
  assumes "tables_ok g" and "i < 1440"
  shows "row (load g) i = stored (sample (noaa_eq (g\<lparr>wtime_day := Fin (real i / 1440)\<rparr>)))"
  using load_loop_inv [OF assms(1), of 0] assms(2) by (simp add: load_def del: load_loop.simps)

text \<open>
  Claim C8. Building the tables leaves each of them with exactly 1440 entries, and for
  every index \<open>i\<close> from 0 to 1439 the five entries at \<open>i\<close> (true solar time, elevation,
  corrected elevation, azimuth, true longitude) are the results of one run of the solar
  equations for the same place, date and timezone with \<open>wtime_day = i / 1440\<close>, stored as
  the \<^verbatim>\<open>float\<close> values of the tables.
\<close>

theorem load_table:
  assumes "tables_ok g"
  shows "tables_ok (load g) \<and>
    (\<forall>i<1440. row (load g) i = stored (sample (noaa_eq (g\<lparr>wtime_day := Fin (real i / 1440)\<rparr>))))"
  using load_tables_ok [OF assms] load_rows [OF assms] by simp

theorem load_table_witness:
  "tables_ok init_globals \<and> tables_ok (load init_globals) \<and>
   length (azim (load init_globals)) = 1440 \<and>
   row (load init_globals) 720 = stored (sample (noaa_eq (init_globals\<lparr>wtime_day := Fin (720 / 1440)\<rparr>)))"
proof -
  have ok: "tables_ok init_globals"
    by (simp add: tables_ok_def init_globals_def)
  have "(720 :: nat) < 1440"
    by simp
  with load_table [OF ok] ok show ?thesis
    by (auto simp add: tables_ok_def)
qed

section \<open>What \<open>noaa_eq\<close> reads and writes\<close>

text \<open>
  Claim C10. A call of \<^verbatim>\<open>noaa_eq\<close> leaves \<^verbatim>\<open>lat_deg\<close>, \<^verbatim>\<open>long_deg\<close>, \<^verbatim>\<open>timezone_hr\<close>,
  \<^verbatim>\<open>date_d\<close> and \<^verbatim>\<open>wtime_day\<close> as they were, and with them every other variable that is not
  one of its derived results (\<^verbatim>\<open>dst_hr\<close>, \<^verbatim>\<open>my_timezone\<close> and the five tables); and its
  derived results depend on nothing but those five inputs: two states that agree on them
  give the same results, whatever else they hold.
\<close>

theorem noaa_eq_reads_and_writes:
  "lat_deg (noaa_eq g) = lat_deg g \<and> long_deg (noaa_eq g) = long_deg g \<and>
   timezone_hr (noaa_eq g) = timezone_hr g \<and> date_d (noaa_eq g) = date_d g \<and>
   wtime_day (noaa_eq g) = wtime_day g \<and> dst_hr (noaa_eq g) = dst_hr g \<and>
   my_timezone (noaa_eq g) = my_timezone g \<and> solarmin (noaa_eq g) = solarmin g \<and>
   elev (noaa_eq g) = elev g \<and> elevc (noaa_eq g) = elevc g \<and> azim (noaa_eq g) = azim g \<and>
   sunlong (noaa_eq g) = sunlong g \<and>
   (same_inputs g g' \<longrightarrow> derived (noaa_eq g') = derived (noaa_eq g))"
  by (simp add: noaa_eq_unchanged noaa_eq_reads_inputs)

theorem noaa_eq_reads_and_writes_witness:
  "same_inputs (init_globals\<lparr>lat_deg := 60.16, long_deg := 24.83, timezone_hr := 2\<rparr>)
     (init_globals\<lparr>lat_deg := 60.16, long_deg := 24.83, timezone_hr := 2, jday := 7,
        soltime_min := Undef, az_deg := 400\<rparr>) \<and>
   derived (noaa_eq (init_globals\<lparr>lat_deg := 60.16, long_deg := 24.83, timezone_hr := 2, jday := 7,
        soltime_min := Undef, az_deg := 400\<rparr>)) =
   derived (noaa_eq (init_globals\<lparr>lat_deg := 60.16, long_deg := 24.83, timezone_hr := 2\<rparr>)) \<and>
   lat_deg (noaa_eq (init_globals\<lparr>lat_deg := 60.16, long_deg := 24.83, timezone_hr := 2\<rparr>)) = 60.16"
  using noaa_eq_reads_and_writes
    [of "init_globals\<lparr>lat_deg := 60.16, long_deg := 24.83, timezone_hr := 2\<rparr>"
        "init_globals\<lparr>lat_deg := 60.16, long_deg := 24.83, timezone_hr := 2, jday := 7,
           soltime_min := Undef, az_deg := 400\<rparr>"]
  by (simp add: same_inputs_def)

section \<open>Remainders, angles and bounds\<close>

lemma trunc_r_nonneg: "0 \<le> z \<Longrightarrow> of_int (trunc_r z) \<le> z \<and> z < of_int (trunc_r z) + 1"
  by (simp add: trunc_r_def; linarith)

lemma trunc_r_neg: "z < 0 \<Longrightarrow> z \<le> of_int (trunc_r z) \<and> of_int (trunc_r z) < z + 1"
  by (simp add: trunc_r_def; linarith)

lemma fmod_r_nonneg:
  assumes "0 < y" and "0 \<le> x"
  shows "0 \<le> fmod_r x y \<and> fmod_r x y < y"
proof -
  let ?n = "real_of_int (trunc_r (x / y))"
  from assms have "0 \<le> x / y"
    by simp
  then have "?n \<le> x / y" and "x / y < ?n + 1"
    using trunc_r_nonneg by blast+
  with \<open>0 < y\<close> have "?n * y \<le> x" and "x < (?n + 1) * y"
    by (simp_all add: pos_le_divide_eq pos_divide_less_eq)
  then show ?thesis
    by (simp add: fmod_r_def algebra_simps)
qed

lemma fmod_r_neg:
  assumes "0 < y" and "x < 0"
  shows "- y < fmod_r x y \<and> fmod_r x y \<le> 0"
proof -
  let ?n = "real_of_int (trunc_r (x / y))"
  from assms have "x / y < 0"
    by (simp add: divide_neg_pos)
  then have "x / y \<le> ?n" and "?n - 1 < x / y"
    using trunc_r_neg [of "x / y"] by simp_all
  with \<open>0 < y\<close> have "x \<le> ?n * y" and "(?n - 1) * y < x"
    by (simp_all only: pos_divide_le_eq pos_less_divide_eq)
  then show ?thesis
    by (simp add: fmod_r_def algebra_simps)
qed

lemma fmod_r_small: "0 < y \<Longrightarrow> - y < x \<Longrightarrow> x < y \<Longrightarrow> fmod_r x y = x"
proof -
  assume y: "0 < y" and lo: "- y < x" and hi: "x < y"
  have "trunc_r (x / y) = 0"
  proof (cases "0 \<le> x")
    case True
    with y hi have "0 \<le> x / y" "x / y < 1"
      by simp_all
    then show ?thesis
      by (simp add: trunc_r_def floor_eq_iff)
  next
    case False
    with y lo have "x / y < 0" "- 1 < x / y"
      by (simp_all add: divide_neg_pos pos_less_divide_eq)
    then show ?thesis
      by (simp add: trunc_r_def ceiling_eq_iff)
  qed
  then show ?thesis
    by (simp add: fmod_r_def)
qed

lemma fmod_d_FinE:
  assumes "fmod_d a (Fin y) = Fin m" and "y \<noteq> 0"
  obtains x where "a = Fin x" and "m = fmod_r x y"
  using assms by (cases a) auto

lemma soltime_range:
  assumes "soltime_min (noaa_eq g) = Fin m"
  shows "- 1440 < m \<and> m < 1440"
proof -
  from assms obtain x where m: "m = fmod_r x 1440"
    by (auto simp add: noaa_eq_soltime_min elim!: fmod_d_FinE)
  show ?thesis
    using fmod_r_nonneg [of 1440 x] fmod_r_neg [of 1440 x] m by (cases "0 \<le> x") auto
qed


lemma hrangle_fold:
  assumes "soltime_min (noaa_eq g) = Fin m"
  shows "hrangle_deg (noaa_eq g) = Fin (if m / 4 < 0 then m / 4 + 180 else m / 4 - 180)"
  by (simp add: noaa_eq_hrangle_deg assms)

lemma hrangle_range:
  assumes "hrangle_deg (noaa_eq g) = Fin h"
  shows "- 180 \<le> h \<and> h < 180"
proof (cases "soltime_min (noaa_eq g)")
  case Undef
  with assms show ?thesis
    by (simp add: noaa_eq_hrangle_deg)
next
  case (Fin m)
  from soltime_range [OF Fin] hrangle_fold [OF Fin] assms show ?thesis
    by (auto split: if_splits)
qed

lemma acos_d_range:
  assumes "acos_d a = Fin w"
  shows "0 \<le> w \<and> w \<le> pi"
  using assms by (cases a) (auto split: if_splits simp add: arccos_lbound arccos_ubound)

lemma r2d_acos_d_range:
  assumes "r2d (acos_d a) = Fin x"
  shows "0 \<le> x \<and> x \<le> 180"
proof (cases "acos_d a")
  case Undef
  with assms show ?thesis by simp
next
  case (Fin w)
  with assms have x: "x = 180 * w / pi"
    by simp
  from acos_d_range [OF Fin] have "0 \<le> 180 * w / pi" "180 * w / pi \<le> 180"
    by (simp_all add: field_simps)
  then show ?thesis
    unfolding x by simp
qed

lemma elev_range:
  assumes "elev_deg (noaa_eq g) = Fin e"
  shows "- 90 \<le> e \<and> e \<le> 90"
proof -
  from assms obtain z where z: "zangle_deg (noaa_eq g) = Fin z" and e: "e = 90 - z"
    by (cases "zangle_deg (noaa_eq g)") (auto simp add: noaa_eq_elev_deg)
  from z have "0 \<le> z \<and> z \<le> 180"
    unfolding noaa_eq_zangle_deg by (rule r2d_acos_d_range)
  with e show ?thesis
    by simp
qed

lemma az_range:
  assumes "az_deg (noaa_eq g) = Fin a"
  shows "0 \<le> a \<and> a < 360"
proof -
  let ?q = "((sin_d (d2r (lat_deg g)) * cos_d (d2r (zangle_deg (noaa_eq g)))) - sin_d (d2r (decl_deg (noaa_eq g))))
     / (cos_d (d2r (lat_deg g)) * sin_d (d2r (zangle_deg (noaa_eq g))))"
  from assms obtain x where x: "r2d (acos_d ?q) = Fin x"
    by (cases "r2d (acos_d ?q)") (auto simp add: noaa_eq_az_deg split: if_splits)
  from r2d_acos_d_range [OF x] have r: "0 \<le> x" "x \<le> 180"
    by simp_all
  from assms x have "a = fmod_r (x + 180) 360 \<or> a = fmod_r (540 - x) 360"
    by (auto simp add: noaa_eq_az_deg split: if_splits)
  then show ?thesis
    using fmod_r_nonneg [of 360 "x + 180"] fmod_r_nonneg [of 360 "540 - x"] r by auto
qed

lemma deg_rad_quadrant:
  assumes "- 90 < e" and "e < 90"
  shows "- (pi / 2) < deg_rad e" and "deg_rad e < pi / 2"
proof -
  from assms have "pi * (- 90) < pi * e" "pi * e < pi * 90"
    by (simp_all only: mult_less_cancel_left_pos [OF pi_gt_zero])
  then show "- (pi / 2) < deg_rad e" and "deg_rad e < pi / 2"
    by (simp_all add: deg_rad_def)
qed

lemma cos_deg_rad_pos: "- 90 < e \<Longrightarrow> e < 90 \<Longrightarrow> 0 < cos (deg_rad e)"
  by (rule cos_gt_zero_pi) (rule deg_rad_quadrant; assumption)+

lemma tan_deg_rad_pos:
  assumes "0 < e" and "e < 90"
  shows "0 < tan (deg_rad e)"
proof (rule tan_gt_zero)
  from assms show "0 < deg_rad e"
    by (simp add: deg_rad_def)
  from assms show "deg_rad e < pi / 2"
    by (intro deg_rad_quadrant) simp_all
qed

lemma tan_deg_rad_neg:
  assumes "- 90 < e" and "e < 0"
  shows "tan (deg_rad e) < 0"
proof (rule tan_less_zero)
  from assms have "- (pi / 2) < deg_rad e"
    by (intro deg_rad_quadrant) simp_all
  then show "- pi / 2 < deg_rad e"
    by simp
  have "pi * e < 0"
    using assms by (simp add: mult_pos_neg)
  then show "deg_rad e < 0"
    by (simp add: deg_rad_def)
qed

lemma pi_ge_3: "3 \<le> pi"
proof -
  have "sin (pi / 6) \<le> pi / 6"
    by (rule sin_x_le_x) simp
  then show ?thesis
    by (simp add: sin_30)
qed

lemma cos_ge_parabola: "1 - x\<^sup>2 / 2 \<le> cos (x :: real)"
proof -
  have "\<bar>sin (x / 2)\<bar> \<le> \<bar>x / 2\<bar>"
    by (rule abs_sin_x_le_abs_x)
  then have "(sin (x / 2))\<^sup>2 \<le> (x / 2)\<^sup>2"
    by (simp only: abs_le_square_iff)
  moreover have "cos x = 1 - 2 * (sin (x / 2))\<^sup>2"
    using cos_double_sin [of "x / 2"] by simp
  ultimately show ?thesis
    by (simp add: power2_eq_square)
qed

lemma tan_small:
  fixes x :: real
  assumes "0 \<le> x" and "x \<le> 0.262"
  shows "0 < cos x" and "0 \<le> tan x" and "tan x \<le> 0.28"
proof -
  have "x\<^sup>2 \<le> 0.262\<^sup>2"
    using assms by (intro power_mono) simp_all
  with cos_ge_parabola [of x] have c: "0.96 \<le> cos x"
    by (simp add: power2_eq_square)
  then show "0 < cos x"
    by simp
  have "x \<le> pi"
    using assms pi_ge_3 by simp
  with assms have s0: "0 \<le> sin x"
    by (simp add: sin_ge_zero)
  have s1: "sin x \<le> 0.262"
    using sin_x_le_x [OF assms(1)] assms(2) by simp
  show "0 \<le> tan x"
    using s0 c by (simp add: tan_def)
  have "sin x \<le> 0.28 * cos x"
    using s1 c by simp
  then show "tan x \<le> 0.28"
    using c by (simp add: tan_def pos_divide_le_eq)
qed

lemma abs_mult_le:
  fixes a b :: real
  assumes "\<bar>a\<bar> \<le> A" and "\<bar>b\<bar> \<le> B"
  shows "\<bar>a * b\<bar> \<le> A * B"
  unfolding abs_mult using assms by (intro mult_mono) simp_all

lemma eqoftime_sum_bound:
  fixes v k :: real
  assumes v: "0 \<le> v" "v \<le> 0.08" and k: "\<bar>k\<bar> \<le> 0.0168"
    and s: "\<bar>s1\<bar> \<le> 1" "\<bar>s2\<bar> \<le> 1" "\<bar>c1\<bar> \<le> 1" "\<bar>s3\<bar> \<le> 1" "\<bar>s4\<bar> \<le> 1"
  shows "\<bar>v * s1 - 2 * k * s2 + 4 * k * v * s2 * c1 - 0.5 * v * v * s3 - 1.25 * k * k * s4\<bar> \<le> 0.1226"
proof -
  define T1 T2 T3 T4 T5
    where "T1 = v * s1" and "T2 = k * s2" and "T3 = (k * v) * (s2 * c1)"
      and "T4 = (v * v) * s3" and "T5 = (k * k) * s4"
  from v have av: "\<bar>v\<bar> \<le> 0.08"
    by simp
  have t1: "\<bar>T1\<bar> \<le> 2 / 25"
    unfolding T1_def using abs_mult_le [OF av s(1)] by simp
  have t2: "\<bar>T2\<bar> \<le> 21 / 1250"
    unfolding T2_def using abs_mult_le [OF k s(2)] by simp
  have t3: "\<bar>T3\<bar> \<le> 21 / 15625"
    unfolding T3_def using abs_mult_le [OF abs_mult_le [OF k av] abs_mult_le [OF s(2) s(3)]] by simp
  have t4: "\<bar>T4\<bar> \<le> 4 / 625"
    unfolding T4_def using abs_mult_le [OF abs_mult_le [OF av av] s(4)] by simp
  have t5: "\<bar>T5\<bar> \<le> 441 / 1562500"
    unfolding T5_def using abs_mult_le [OF abs_mult_le [OF k k] s(5)] by simp
  have "\<bar>T1 - 2 * T2 + 4 * T3 - T4 / 2 - 5 * T5 / 4\<bar> \<le> 613 / 5000"
    using t1 t2 t3 t4 t5 by linarith
  moreover have "v * s1 - 2 * k * s2 + 4 * k * v * s2 * c1 - 0.5 * v * v * s3 - 1.25 * k * k * s4 =
      T1 - 2 * T2 + 4 * T3 - T4 / 2 - 5 * T5 / 4"
    unfolding T1_def T2_def T3_def T4_def T5_def by (simp add: algebra_simps)
  ultimately show ?thesis
    by simp
qed

lemma ocorr_bounded:
  assumes jc: "jcen (noaa_eq g) = Fin c" and c: "\<bar>c\<bar> \<le> 1"
  shows "\<exists>oc. ocorr_deg (noaa_eq g) = Fin oc \<and> 23.39 \<le> oc \<and> oc \<le> 23.51"
proof -
  define q where "q = c * (46.815 + c * (0.00059 - c * 0.001813))"
  define mo where "mo = 23 + (26 + (21.448 - q) / 60) / 60"
  have moe: "moe_deg (noaa_eq g) = Fin mo"
    by (simp add: noaa_eq_moe_deg jc mo_def q_def)
  have "\<bar>0.00059 - c * 0.001813\<bar> \<le> 0.01"
    using c unfolding abs_le_iff by simp
  from abs_mult_le [OF c this] have "\<bar>46.815 + c * (0.00059 - c * 0.001813)\<bar> \<le> 47"
    unfolding abs_le_iff by simp
  from abs_mult_le [OF c this] have "\<bar>q\<bar> \<le> 47"
    by (simp add: q_def)
  then have "- 47 \<le> q" "q \<le> 47"
    by simp_all
  then have mob: "23.4 \<le> mo" "mo \<le> 23.5"
    unfolding mo_def by (simp_all add: field_simps)
  define k where "k = cos (pi * (125.04 - 1934.136 * c) / 180)"
  define oc where "oc = mo + 0.00256 * k"
  have ocorr: "ocorr_deg (noaa_eq g) = Fin oc"
    by (simp add: noaa_eq_ocorr_deg jc moe oc_def k_def)
  have "- 1 \<le> k" "k \<le> 1"
    by (simp_all add: k_def)
  with mob have "23.39 \<le> oc" "oc \<le> 23.51"
    unfolding oc_def by (simp_all add: field_simps)
  with ocorr show ?thesis
    by blast
qed

lemma eqoftime_bounded:
  assumes jc: "jcen (noaa_eq g) = Fin c" and c: "\<bar>c\<bar> \<le> 1"
  shows "\<exists>e. eqoftime_min (noaa_eq g) = Fin e \<and> \<bar>e\<bar> \<le> 30"
proof -
  define p where "p = c * (0.000042037 + 0.0000001267 * c)"
  define ec where "ec = 0.016708634 - p"
  have ecc: "eccent (noaa_eq g) = Fin ec"
    by (simp add: noaa_eq_eccent jc ec_def p_def)
  have "\<bar>0.000042037 + 0.0000001267 * c\<bar> \<le> 0.00005"
    using c unfolding abs_le_iff by simp
  from abs_mult_le [OF c this] have "\<bar>p\<bar> \<le> 0.00005"
    by (simp add: p_def)
  then have ecb: "\<bar>ec\<bar> \<le> 0.0168"
    unfolding ec_def abs_le_iff by simp
  from ocorr_bounded [OF jc c] obtain oc
    where ocorr: "ocorr_deg (noaa_eq g) = Fin oc" and ocb: "23.39 \<le> oc" "oc \<le> 23.51"
    by blast
  define x where "x = pi * (oc / 2) / 180"
  have "pi * oc \<le> 4 * 23.51"
    using ocb pi_less_4 by (intro mult_mono) simp_all
  then have xhi: "x \<le> 0.262"
    by (simp add: x_def)
  have xlo: "0 \<le> x"
    using ocb by (simp add: x_def)
  note t = tan_small [OF xlo xhi]
  define v where "v = tan x * tan x"
  have vy: "var_y (noaa_eq g) = Fin v"
    using t(1) by (simp add: noaa_eq_var_y ocorr x_def v_def)
  have vb: "0 \<le> v" "v \<le> 0.08"
  proof -
    show "0 \<le> v"
      by (simp add: v_def)
    have "tan x * tan x \<le> 0.28 * 0.28"
      using t by (intro mult_mono) simp_all
    then show "v \<le> 0.08"
      by (simp add: v_def)
  qed
  obtain L where gl: "gmlong_deg (noaa_eq g) = Fin L"
    by (simp add: noaa_eq_gmlong_deg jc)
  obtain M where gm: "gmanom_deg (noaa_eq g) = Fin M"
    by (simp add: noaa_eq_gmanom_deg jc)
  define E where
    "E = v * sin (2 * (pi * L / 180)) - 2 * ec * sin (pi * M / 180)
       + 4 * ec * v * sin (pi * M / 180) * cos (2 * (pi * L / 180))
       - 0.5 * v * v * sin (4 * (pi * L / 180)) - 1.25 * ec * ec * sin (2 * (pi * M / 180))"
  have eq: "eqoftime_min (noaa_eq g) = Fin (4 * (180 * E / pi))"
    by (simp add: noaa_eq_eqoftime_min vy ecc gl gm E_def)
  have Eb: "\<bar>E\<bar> \<le> 0.1226"
    unfolding E_def by (rule eqoftime_sum_bound [OF vb ecb]) simp_all
  have "\<bar>4 * (180 * E / pi)\<bar> = 720 * \<bar>E\<bar> / pi"
    by (simp add: abs_mult)
  also have "\<dots> \<le> 720 * 0.1226 / 3"
    using Eb pi_ge_3 by (intro frac_le mult_left_mono) simp_all
  also have "\<dots> \<le> 30"
    by simp
  finally show ?thesis
    using eq by blast
qed


lemma eqoftime_reads:
  assumes "date_d g' = date_d g" and "wtime_day g' = wtime_day g" and "timezone_hr g' = timezone_hr g"
  shows "eqoftime_min (noaa_eq g') = eqoftime_min (noaa_eq g)"
proof -
  have e1: "jday (noaa_eq g') = jday (noaa_eq g)"
    by (simp only: noaa_eq_jday assms)
  have e2: "jcen (noaa_eq g') = jcen (noaa_eq g)"
    by (simp only: noaa_eq_jcen e1)
  have e3: "gmlong_deg (noaa_eq g') = gmlong_deg (noaa_eq g)"
    by (simp only: noaa_eq_gmlong_deg e2)
  have e4: "gmanom_deg (noaa_eq g') = gmanom_deg (noaa_eq g)"
    by (simp only: noaa_eq_gmanom_deg e2)
  have e5: "eccent (noaa_eq g') = eccent (noaa_eq g)"
    by (simp only: noaa_eq_eccent e2)
  have e6: "moe_deg (noaa_eq g') = moe_deg (noaa_eq g)"
    by (simp only: noaa_eq_moe_deg e2)
  have e7: "ocorr_deg (noaa_eq g') = ocorr_deg (noaa_eq g)"
    by (simp only: noaa_eq_ocorr_deg e2 e6)
  have e8: "var_y (noaa_eq g') = var_y (noaa_eq g)"
    by (simp only: noaa_eq_var_y e7)
  show ?thesis
    by (simp only: noaa_eq_eqoftime_min e3 e4 e5 e8)
qed

lemma spherical_identity:
  fixes A B p c h :: real
  assumes "A\<^sup>2 + B\<^sup>2 = 1" and "p\<^sup>2 + c\<^sup>2 = 1"
  shows "B\<^sup>2 * (1 - (A * p + B * c * h)\<^sup>2) = (A * (A * p + B * c * h) - p)\<^sup>2 + B\<^sup>2 * c\<^sup>2 * (1 - h\<^sup>2)"
  using assms by algebra

lemma sin_deg_rad_lt_1:
  assumes "- 90 < e" and "e < 90"
  shows "\<bar>sin (deg_rad e)\<bar> < 1"
proof -
  have "0 < (cos (deg_rad e))\<^sup>2"
    using cos_deg_rad_pos [OF assms] by simp
  then have "(sin (deg_rad e))\<^sup>2 < 1"
    unfolding sin_squared_eq by linarith
  then show ?thesis
    by (simp only: abs_square_less_1)
qed

lemma cos_lt_1_if_sin_nz:
  fixes x :: real
  assumes "sin x \<noteq> 0"
  shows "(cos x)\<^sup>2 < 1"
proof -
  have "0 < (sin x)\<^sup>2"
    using assms by simp
  then show ?thesis
    unfolding cos_squared_eq by linarith
qed


lemma rad_deg_cancel: "pi * (180 * x / pi) / 180 = x"
  by simp

lemma position_defined:
  assumes la: "lat_deg g = Fin la" and B0: "cos (deg_rad la) \<noteq> 0"
    and jc: "jcen (noaa_eq g) = Fin c" and c: "\<bar>c\<bar> \<le> 1"
    and H: "hrangle_deg (noaa_eq g) = Fin H" and H0: "sin (deg_rad H) \<noteq> 0"
  shows "\<exists>a e. az_deg (noaa_eq g) = Fin a \<and> elev_deg (noaa_eq g) = Fin e \<and> - 90 < e \<and> e < 90"
proof -
  from ocorr_bounded [OF jc c] obtain oc
    where ocorr: "ocorr_deg (noaa_eq g) = Fin oc" and ocb: "23.39 \<le> oc" "oc \<le> 23.51"
    by blast
  obtain ap where applong: "applong_deg (noaa_eq g) = Fin ap"
    by (simp add: noaa_eq_applong_deg noaa_eq_truelong_deg noaa_eq_gmlong_deg noaa_eq_eqofctr
        noaa_eq_gmanom_deg jc)
  define p where "p = sin (deg_rad oc) * sin (deg_rad ap)"
  have "\<bar>sin (deg_rad oc)\<bar> * \<bar>sin (deg_rad ap)\<bar> \<le> \<bar>sin (deg_rad oc)\<bar> * 1"
    by (intro mult_left_mono) simp_all
  moreover have "\<bar>sin (deg_rad oc)\<bar> < 1"
    using ocb by (intro sin_deg_rad_lt_1) simp_all
  ultimately have p1: "\<bar>p\<bar> < 1"
    by (simp add: p_def abs_mult)
  then have p2: "- 1 \<le> p" "p \<le> 1"
    by simp_all
  have decl: "d2r (decl_deg (noaa_eq g)) = Fin (arcsin p)"
    using p2 by (simp add: noaa_eq_decl_deg ocorr applong p_def deg_rad_def)
  have sa: "sin (arcsin p) = p"
    using p2 by simp
  define cd where "cd = cos (arcsin p)"
  have "(sin (arcsin p))\<^sup>2 + (cos (arcsin p))\<^sup>2 = 1"
    by (rule sin_cos_squared_add)
  then have pc: "p\<^sup>2 + cd\<^sup>2 = 1"
    using p2 by (simp add: cd_def)
  have "p\<^sup>2 < 1"
    using p1 by (simp only: abs_square_less_1)
  with pc have cd0: "0 < cd\<^sup>2"
    by linarith
  define A B h where "A = sin (deg_rad la)" and "B = cos (deg_rad la)" and "h = cos (deg_rad H)"
  have AB: "A\<^sup>2 + B\<^sup>2 = 1"
    by (simp add: A_def B_def)
  have B2: "0 < B\<^sup>2"
    using B0 by (simp add: B_def)
  have h2: "0 < 1 - h\<^sup>2"
    using cos_lt_1_if_sin_nz [OF H0] by (simp add: h_def)
  define cz where "cz = A * p + B * cd * h"
  note id = spherical_identity [OF AB pc, of h, folded cz_def]
  have pos: "0 < B\<^sup>2 * cd\<^sup>2 * (1 - h\<^sup>2)"
    using B2 cd0 h2 by simp
  have "0 \<le> (A * cz - p)\<^sup>2"
    by simp
  with id pos have "0 < B\<^sup>2 * (1 - cz\<^sup>2)"
    by linarith
  with B2 have cz2: "0 < 1 - cz\<^sup>2"
    by (simp add: zero_less_mult_iff)
  then have "cz\<^sup>2 < 1"
    by simp
  then have "\<bar>cz\<bar> < 1"
    by (simp only: abs_square_less_1)
  then have cz1: "- 1 < cz" "cz < 1"
    by simp_all
  have zangle: "zangle_deg (noaa_eq g) = Fin (180 * arccos cz / pi)"
    using cz1 by (simp add: noaa_eq_zangle_deg decl la H sa cz_def A_def B_def h_def cd_def deg_rad_def)
  from arccos_lt_bounded [OF cz1] have z: "0 < arccos cz" "arccos cz < pi"
    by simp_all
  define e where "e = 90 - 180 * arccos cz / pi"
  have elev: "elev_deg (noaa_eq g) = Fin e"
    by (simp add: noaa_eq_elev_deg zangle e_def)
  have eb: "- 90 < e" "e < 90"
    using z by (simp_all add: e_def field_simps)
  define sz where "sz = sin (arccos cz)"
  have sz2: "sz\<^sup>2 = 1 - cz\<^sup>2"
    using cz1 cz2 by (simp add: sz_def sin_arccos)
  have sz0: "sz \<noteq> 0"
    using sz2 cz2 by auto
  define q where "q = (A * cz - p) / (B * sz)"
  have "(A * cz - p)\<^sup>2 \<le> (B * sz)\<^sup>2"
    using id pos by (simp add: power_mult_distrib sz2)
  then have "\<bar>A * cz - p\<bar> \<le> \<bar>B * sz\<bar>"
    by (simp only: abs_le_square_iff)
  moreover have "B * sz \<noteq> 0"
    using B0 sz0 by (simp add: B_def)
  ultimately have "\<bar>q\<bar> \<le> 1"
    by (simp add: q_def)
  then have q1: "- 1 \<le> q" "q \<le> 1"
    by simp_all
  have arg: "((sin_d (d2r (lat_deg g)) * cos_d (d2r (zangle_deg (noaa_eq g)))) - sin_d (d2r (decl_deg (noaa_eq g))))
      / (cos_d (d2r (lat_deg g)) * sin_d (d2r (zangle_deg (noaa_eq g)))) = Fin q"
    using cz1 p2 \<open>B * sz \<noteq> 0\<close>
    by (simp add: zangle decl la sa q_def A_def B_def sz_def deg_rad_def)
  have "\<exists>a. az_deg (noaa_eq g) = Fin a"
    using q1 unfolding noaa_eq_az_deg arg by simp
  with elev eb show ?thesis
    by blast
qed
section \<open>True solar time and hour angle\<close>

lemma sin_deg_rad_neg:
  assumes "- 180 < H" and "H < 0"
  shows "sin (deg_rad H) < 0"
proof -
  from assms have "- H < 180"
    by simp
  then have "pi * (- H) < pi * 180"
    by (simp only: mult_less_cancel_left_pos [OF pi_gt_zero])
  then have "- deg_rad H < pi"
    by (simp add: deg_rad_def)
  moreover have "0 < pi * (- H)"
    using assms by (intro mult_pos_pos) simp_all
  then have "0 < - deg_rad H"
    by (simp add: deg_rad_def)
  ultimately have "0 < sin (- deg_rad H)"
    by (intro sin_gt_zero)
  then show ?thesis
    by simp
qed

lemma reykjavik_inputs:
  "lat_deg reykjavik_midnight = Fin 64.135" "long_deg reykjavik_midnight = Fin (- 21.895)"
  "timezone_hr reykjavik_midnight = Fin 0" "date_d reykjavik_midnight = Fin 36526"
  "wtime_day reykjavik_midnight = Fin 0"
  by (simp_all add: reykjavik_midnight_def init_globals_def)

lemma reykjavik_jcen: "jcen (noaa_eq reykjavik_midnight) = Fin (- 1 / 73050)"
  by (simp add: noaa_eq_jcen noaa_eq_jday reykjavik_inputs)

lemma reykjavik_soltime:
  "\<exists>e. soltime_min (noaa_eq reykjavik_midnight) = Fin (e - 87.58) \<and> \<bar>e\<bar> \<le> 30"
proof -
  have "\<bar>- 1 / 73050 :: real\<bar> \<le> 1"
    by simp
  from eqoftime_bounded [OF reykjavik_jcen this] obtain e
    where eq: "eqoftime_min (noaa_eq reykjavik_midnight) = Fin e" and e: "\<bar>e\<bar> \<le> 30"
    by blast
  have "soltime_min (noaa_eq reykjavik_midnight) = Fin (fmod_r (e - 87.58) 1440)"
    by (simp add: noaa_eq_soltime_min eq reykjavik_inputs)
  moreover have "fmod_r (e - 87.58) 1440 = e - 87.58"
    using e by (intro fmod_r_small) simp_all
  ultimately show ?thesis
    using e by auto
qed

text \<open>
  Claim C2, as stated, fails: at Reykjavik at 00:00 on 2000-01-01 the true solar time
  computed by \<^verbatim>\<open>noaa_eq\<close> is a negative number of minutes, outside \<open>[0, 1440)\<close>.
\<close>

theorem soltime_negative_counterexample: "soltime_min (noaa_eq reykjavik_midnight) < 0"
proof -
  from reykjavik_soltime obtain e
    where "soltime_min (noaa_eq reykjavik_midnight) = Fin (e - 87.58)" and "\<bar>e\<bar> \<le> 30"
    by blast
  then show ?thesis
    by simp
qed

text \<open>
  Claim C2, amended. The true solar time in minutes is C's \<^verbatim>\<open>fmod\<close> of
  \<open>wtime_day * 1440 + eqoftime_min + 4 * long_deg - 60 * timezone_hr\<close> by 1440, which has the
  sign of that sum: whenever it is a number it lies strictly between \<open>- 1440\<close> and \<open>1440\<close>,
  is not negative when the sum is not negative, and is not positive when the sum is
  negative.
\<close>

theorem soltime_min_range:
  assumes "soltime_min (noaa_eq g) = Fin m"
  shows "\<exists>x. wtime_day g * 1440 + eqoftime_min (noaa_eq g) + 4 * long_deg g - 60 * timezone_hr g = Fin x \<and>
    m = fmod_r x 1440 \<and> - 1440 < m \<and> m < 1440 \<and> (0 \<le> x \<longrightarrow> 0 \<le> m) \<and> (x < 0 \<longrightarrow> m \<le> 0)"
proof -
  from assms obtain x
    where x: "wtime_day g * 1440 + eqoftime_min (noaa_eq g) + 4 * long_deg g - 60 * timezone_hr g = Fin x"
      and m: "m = fmod_r x 1440"
    unfolding noaa_eq_soltime_min by (auto elim!: fmod_d_FinE)
  show ?thesis
    using fmod_r_nonneg [of 1440 x] fmod_r_neg [of 1440 x] x m by (cases "0 \<le> x") auto
qed

theorem soltime_min_range_witness:
  "- 1440 < soltime_min (noaa_eq reykjavik_midnight) \<and> soltime_min (noaa_eq reykjavik_midnight) < 1440"
proof -
  from reykjavik_soltime obtain e
    where m: "soltime_min (noaa_eq reykjavik_midnight) = Fin (e - 87.58)"
    by blast
  from soltime_min_range [OF m] show ?thesis
    unfolding m by auto
qed

lemma greenwich_inputs:
  "lat_deg greenwich_midnight = Fin 0" "long_deg greenwich_midnight = Fin 0"
  "timezone_hr greenwich_midnight = Fin 0" "date_d greenwich_midnight = Fin 36526"
  "wtime_day greenwich_midnight = Fin 0"
  by (simp_all add: greenwich_midnight_def init_globals_def)

lemma solar_midnight_soltime: "soltime_min (noaa_eq solar_midnight) = Fin 0"
proof -
  have jc: "jcen (noaa_eq greenwich_midnight) = Fin (- 1 / 73050)"
    by (simp add: noaa_eq_jcen noaa_eq_jday greenwich_inputs)
  have "\<bar>- 1 / 73050 :: real\<bar> \<le> 1"
    by simp
  from eqoftime_bounded [OF jc this] obtain e
    where eq: "eqoftime_min (noaa_eq greenwich_midnight) = Fin e"
    by blast
  have inputs: "long_deg solar_midnight = Fin (- (e / 4))" "wtime_day solar_midnight = Fin 0"
    "timezone_hr solar_midnight = Fin 0" "date_d solar_midnight = Fin 36526"
    by (simp_all add: solar_midnight_def eq greenwich_inputs)
  have "eqoftime_min (noaa_eq solar_midnight) = eqoftime_min (noaa_eq greenwich_midnight)"
    by (rule eqoftime_reads) (simp_all add: inputs greenwich_inputs)
  then have "soltime_min (noaa_eq solar_midnight) = Fin (fmod_r 0 1440)"
    by (simp add: noaa_eq_soltime_min eq inputs)
  then show ?thesis
    by (simp add: fmod_r_small)
qed

text \<open>
  Claim C6, as stated, fails at the lower end of the interval: where the true solar time
  is exactly zero, the hour angle is \<open>- 180\<close>, which is not in \<open>(- 180, 180]\<close>.
\<close>

theorem hrangle_lower_end_counterexample:
  "soltime_min (noaa_eq solar_midnight) = Fin 0 \<and> hrangle_deg (noaa_eq solar_midnight) = Fin (- 180) \<and>
   \<not> Fin (- 180) < hrangle_deg (noaa_eq solar_midnight)"
  by (simp add: solar_midnight_soltime noaa_eq_hrangle_deg)

text \<open>
  Claim C6, amended. With \<open>m\<close> the true solar time in minutes, the hour angle in degrees is
  \<open>m / 4 + 180\<close> when \<open>m / 4\<close> is negative and \<open>m / 4 - 180\<close> otherwise, and it lies in
  the closed interval \<open>[- 180, 180]\<close>: the lower end, which the claim leaves out, is the
  hour angle at a true solar time of zero, and the upper end stays as the claim has it
  (the sum of \<open>180\<close> and a negative \<open>m / 4\<close> is below \<open>180\<close> in exact arithmetic, and a double
  can round it to \<open>180\<close>).
\<close>

theorem hrangle_fold_range:
  assumes "soltime_min (noaa_eq g) = Fin m"
  shows "hrangle_deg (noaa_eq g) = Fin (if m / 4 < 0 then m / 4 + 180 else m / 4 - 180) \<and>
    - 180 \<le> (if m / 4 < 0 then m / 4 + 180 else m / 4 - 180) \<and>
    (if m / 4 < 0 then m / 4 + 180 else m / 4 - 180) \<le> 180"
  using hrangle_fold [OF assms] hrangle_range [of g] by simp

theorem hrangle_fold_range_witness:
  "soltime_min (noaa_eq solar_midnight) = Fin 0 \<and>
   hrangle_deg (noaa_eq solar_midnight) = Fin (- 180) \<and> - 180 \<le> (- 180 :: real) \<and> (- 180 :: real) \<le> 180"
  using hrangle_fold_range [OF solar_midnight_soltime] solar_midnight_soltime by simp


section \<open>Azimuth, elevation and refraction\<close>

lemma helsinki_inputs:
  "lat_deg (helsinki\<lparr>wtime_day := w\<rparr>) = Fin 60.16" "long_deg (helsinki\<lparr>wtime_day := w\<rparr>) = Fin 24.83"
  "timezone_hr (helsinki\<lparr>wtime_day := w\<rparr>) = Fin 2" "date_d (helsinki\<lparr>wtime_day := w\<rparr>) = Fin 36526"
  "wtime_day (helsinki\<lparr>wtime_day := w\<rparr>) = w"
  by (simp_all add: helsinki_def init_globals_def)

lemma helsinki_morning_position:
  "\<exists>a e. az_deg (noaa_eq (helsinki\<lparr>wtime_day := Fin (5 / 12)\<rparr>)) = Fin a \<and>
     elev_deg (noaa_eq (helsinki\<lparr>wtime_day := Fin (5 / 12)\<rparr>)) = Fin e \<and> - 90 < e \<and> e < 90"
proof -
  let ?g = "helsinki\<lparr>wtime_day := Fin (5 / 12)\<rparr>"
  have jc: "jcen (noaa_eq ?g) = Fin (- 1 / 219150)"
    by (simp add: noaa_eq_jcen noaa_eq_jday helsinki_inputs)
  have c: "\<bar>- 1 / 219150 :: real\<bar> \<le> 1"
    by simp
  from eqoftime_bounded [OF jc c] obtain q
    where eq: "eqoftime_min (noaa_eq ?g) = Fin q" and q: "\<bar>q\<bar> \<le> 30"
    by blast
  have "soltime_min (noaa_eq ?g) = Fin (fmod_r (579.32 + q) 1440)"
    by (simp add: noaa_eq_soltime_min eq helsinki_inputs)
  moreover have "fmod_r (579.32 + q) 1440 = 579.32 + q"
    using q by (intro fmod_r_small) simp_all
  ultimately have sol: "soltime_min (noaa_eq ?g) = Fin (579.32 + q)"
    by simp
  define H where "H = (579.32 + q) / 4 - 180"
  have H: "hrangle_deg (noaa_eq ?g) = Fin H"
    using q by (simp add: noaa_eq_hrangle_deg sol H_def)
  have "- 180 < H" "H < 0"
    using q by (simp_all add: H_def)
  then have H0: "sin (deg_rad H) \<noteq> 0"
    using sin_deg_rad_neg [of H] by simp
  have "0 < cos (deg_rad 60.16)"
    by (rule cos_deg_rad_pos) simp_all
  then have B0: "cos (deg_rad 60.16) \<noteq> 0"
    by simp
  show ?thesis
    by (rule position_defined [OF helsinki_inputs(1) B0 jc c H H0])
qed

section \<open>Sine and cosine between polynomials\<close>

text \<open>
  The value that the float store rounds to 360 is an azimuth within \<open>1 / 65536\<close> of 360,
  and showing that one is computed takes the equation of time to five decimal places. The
  Maclaurin polynomials of sine and cosine with their remainders give the bounds.
\<close>

lemma lessThan_8: "{..<8::nat} = {0, 1, 2, 3, 4, 5, 6, 7}"
  by auto

lemma lessThan_14: "{..<14::nat} = {0, 1, 2, 3, 4, 5, 6, 7, 8, 9, 10, 11, 12, 13}"
  by auto arith

lemma sin_sum_14:
  fixes x :: real
  shows "(\<Sum>m<14. sin_coeff m * x ^ m) = x - x ^ 3 / 6 + x ^ 5 / 120 - x ^ 7 / 5040 + x ^ 9 / 362880 - x ^ 11 / 39916800
      + x ^ 13 / 6227020800"
  by (simp add: lessThan_14 sin_coeff_def fact_numeral)

lemma sin_sum_8:
  fixes x :: real
  shows "(\<Sum>m<8. sin_coeff m * x ^ m) = x - x ^ 3 / 6 + x ^ 5 / 120 - x ^ 7 / 5040"
  by (simp add: lessThan_8 sin_coeff_def fact_numeral)

lemma cos_sum_8:
  fixes x :: real
  shows "(\<Sum>m<8. cos_coeff m * x ^ m) = 1 - x\<^sup>2 / 2 + x ^ 4 / 24 - x ^ 6 / 720"
  by (simp add: lessThan_8 cos_coeff_def fact_numeral)

lemma sin_poly_14:
  fixes x :: real
  shows "\<bar>sin x - (x - x ^ 3 / 6 + x ^ 5 / 120 - x ^ 7 / 5040 + x ^ 9 / 362880 - x ^ 11 / 39916800
      + x ^ 13 / 6227020800)\<bar> \<le> \<bar>x\<bar> ^ 14 / 87178291200"
  using Maclaurin_sin_bound [of x 14] unfolding sin_sum_14 by (simp add: fact_numeral)

lemma sin_poly_8:
  fixes x :: real
  shows "\<bar>sin x - (x - x ^ 3 / 6 + x ^ 5 / 120 - x ^ 7 / 5040)\<bar> \<le> \<bar>x\<bar> ^ 8 / 40320"
  using Maclaurin_sin_bound [of x 8] unfolding sin_sum_8 by (simp add: fact_numeral)

lemma cos_poly_8:
  fixes x :: real
  shows "\<bar>cos x - (1 - x\<^sup>2 / 2 + x ^ 4 / 24 - x ^ 6 / 720)\<bar> \<le> \<bar>x\<bar> ^ 8 / 40320"
proof -
  define S where "S = (\<Sum>m<8. cos_coeff m * x ^ m)"
  from Maclaurin_cos_expansion [of x 8] obtain t
    where e: "cos x = S + cos (t + 1 / 2 * real 8 * pi) / fact 8 * x ^ 8"
    unfolding S_def by blast
  have "\<bar>cos x - S\<bar> = \<bar>cos (t + 1 / 2 * real 8 * pi)\<bar> * (\<bar>x\<bar> ^ 8 / 40320)"
    by (simp add: e fact_numeral abs_mult power_abs)
  also have "\<dots> \<le> 1 * (\<bar>x\<bar> ^ 8 / 40320)"
    by (intro mult_right_mono) simp_all
  finally show ?thesis
    unfolding S_def cos_sum_8 by simp
qed

lemma sin_lower_14:
  fixes x y :: real
  assumes "0 \<le> y" and "y \<le> x" and "x \<le> 3 / 2"
  shows "y - y ^ 3 / 6 + y ^ 5 / 120 - y ^ 7 / 5040 + y ^ 9 / 362880 - y ^ 11 / 39916800
      + y ^ 13 / 6227020800 - y ^ 14 / 87178291200 \<le> sin x"
proof -
  have "sin y \<le> sin x"
    using assms pi_ge_3 by (intro sin_monotone_2pi_le) simp_all
  moreover have "\<bar>y\<bar> = y"
    using assms(1) by simp
  ultimately show ?thesis
    using sin_poly_14 [of y] by linarith
qed

lemma sin_upper_14:
  fixes x y :: real
  assumes "0 \<le> x" and "x \<le> y" and "y \<le> 3 / 2"
  shows "sin x \<le> y - y ^ 3 / 6 + y ^ 5 / 120 - y ^ 7 / 5040 + y ^ 9 / 362880 - y ^ 11 / 39916800
      + y ^ 13 / 6227020800 + y ^ 14 / 87178291200"
proof -
  have "sin x \<le> sin y"
    using assms pi_ge_3 by (intro sin_monotone_2pi_le) simp_all
  moreover have "\<bar>y\<bar> = y"
    using assms(1,2) by simp
  ultimately show ?thesis
    using sin_poly_14 [of y] by linarith
qed

lemma sin_between:
  fixes x y z :: real
  assumes "0 \<le> y" and "y \<le> x" and "x \<le> z" and "z \<le> 3 / 2"
  shows "y - y ^ 3 / 6 + y ^ 5 / 120 - y ^ 7 / 5040 - y ^ 8 / 40320 \<le> sin x"
    and "sin x \<le> z - z ^ 3 / 6 + z ^ 5 / 120 - z ^ 7 / 5040 + z ^ 8 / 40320"
proof -
  have "sin y \<le> sin x" "sin x \<le> sin z"
    using assms pi_ge_3 by (intro sin_monotone_2pi_le; simp)+
  moreover have "\<bar>y\<bar> = y" "\<bar>z\<bar> = z"
    using assms by simp_all
  ultimately show "y - y ^ 3 / 6 + y ^ 5 / 120 - y ^ 7 / 5040 - y ^ 8 / 40320 \<le> sin x"
    and "sin x \<le> z - z ^ 3 / 6 + z ^ 5 / 120 - z ^ 7 / 5040 + z ^ 8 / 40320"
    using sin_poly_8 [of y] sin_poly_8 [of z] by linarith+
qed

lemma cos_between:
  fixes x y z :: real
  assumes "0 \<le> y" and "y \<le> x" and "x \<le> z" and "z \<le> 3"
  shows "1 - z\<^sup>2 / 2 + z ^ 4 / 24 - z ^ 6 / 720 - z ^ 8 / 40320 \<le> cos x"
    and "cos x \<le> 1 - y\<^sup>2 / 2 + y ^ 4 / 24 - y ^ 6 / 720 + y ^ 8 / 40320"
proof -
  have "cos z \<le> cos x" "cos x \<le> cos y"
    using assms pi_ge_3 by (intro cos_monotone_0_pi_le; simp)+
  moreover have "\<bar>y\<bar> = y" "\<bar>z\<bar> = z"
    using assms by simp_all
  ultimately show "1 - z\<^sup>2 / 2 + z ^ 4 / 24 - z ^ 6 / 720 - z ^ 8 / 40320 \<le> cos x"
    and "cos x \<le> 1 - y\<^sup>2 / 2 + y ^ 4 / 24 - y ^ 6 / 720 + y ^ 8 / 40320"
    using cos_poly_8 [of y] cos_poly_8 [of z] by linarith+
qed

lemma pi_bounds: "3.14159265 < pi" "pi < 3.14159266"
proof -
  have "sin (0.523598775 :: real) \<le> 0.523598775 - 0.523598775 ^ 3 / 6 + 0.523598775 ^ 5 / 120
      - 0.523598775 ^ 7 / 5040 + 0.523598775 ^ 9 / 362880 - 0.523598775 ^ 11 / 39916800
      + 0.523598775 ^ 13 / 6227020800 + 0.523598775 ^ 14 / 87178291200"
    by (rule sin_upper_14) simp_all
  also have "\<dots> < 1 / 2"
    by (simp add: power_divide)
  finally have "sin (3.14159265 / 6) < sin (pi / 6)"
    by (simp add: sin_30)
  then show "3.14159265 < pi"
    using pi_ge_3 by (subst (asm) sin_mono_less_eq) simp_all
  have "(1 / 2 :: real) < 0.523598776 - 0.523598776 ^ 3 / 6 + 0.523598776 ^ 5 / 120
      - 0.523598776 ^ 7 / 5040 + 0.523598776 ^ 9 / 362880 - 0.523598776 ^ 11 / 39916800
      + 0.523598776 ^ 13 / 6227020800 - 0.523598776 ^ 14 / 87178291200"
    by (simp add: power_divide)
  also have "\<dots> \<le> sin (3.14159266 / 6)"
    by (rule sin_lower_14) simp_all
  finally have "sin (pi / 6) < sin (3.14159266 / 6)"
    by (simp add: sin_30)
  then show "pi < 3.14159266"
    using pi_ge_3 by (subst (asm) sin_mono_less_eq) simp_all
qed

text \<open>The sines and cosines that the equations take at the epoch J2000.0, where \<open>jcen = 0\<close>.\<close>

lemma sin_35_04:
  shows "0.5741476537 \<le> sin (pi * 35.04 / 180)"
    and "sin (pi * 35.04 / 180) \<le> 0.5741486261"
proof -
  have a: "0.6115633692 \<le> pi * 35.04 / 180" "pi * 35.04 / 180 \<le> 0.6115633712"
    using pi_bounds by simp_all
  have "(0.5741476537 :: real) \<le> 0.6115633692 - 0.6115633692 ^ 3 / 6 + 0.6115633692 ^ 5 / 120 - 0.6115633692 ^ 7 / 5040 - 0.6115633692 ^ 8 / 40320"
    by (simp add: power_divide)
  also have "\<dots> \<le> sin (pi * 35.04 / 180)"
    by (rule sin_between(1) [OF _ a]) simp_all
  finally show "0.5741476537 \<le> sin (pi * 35.04 / 180)" .
  have "sin (pi * 35.04 / 180) \<le> 0.6115633712 - 0.6115633712 ^ 3 / 6 + 0.6115633712 ^ 5 / 120 - 0.6115633712 ^ 7 / 5040 + 0.6115633712 ^ 8 / 40320"
    by (rule sin_between(2) [OF _ a]) simp_all
  also have "\<dots> \<le> 0.5741486261"
    by (simp add: power_divide)
  finally show "sin (pi * 35.04 / 180) \<le> 0.5741486261" .
qed

lemma sin_cos_20_93292:
  shows "0.3572746905 \<le> sin (pi * 20.93292 / 180)"
    and "sin (pi * 20.93292 / 180) \<le> 0.3572747076"
    and "0.9339993358 \<le> cos (pi * 20.93292 / 180)"
    and "cos (pi * 20.93292 / 180) \<le> 0.9339993521"
proof -
  have a: "0.3653483756 \<le> pi * 20.93292 / 180" "pi * 20.93292 / 180 \<le> 0.3653483769"
    using pi_bounds by simp_all
  have "(0.3572746905 :: real) \<le> 0.3653483756 - 0.3653483756 ^ 3 / 6 + 0.3653483756 ^ 5 / 120 - 0.3653483756 ^ 7 / 5040 - 0.3653483756 ^ 8 / 40320"
    by (simp add: power_divide)
  also have "\<dots> \<le> sin (pi * 20.93292 / 180)"
    by (rule sin_between(1) [OF _ a]) simp_all
  finally show "0.3572746905 \<le> sin (pi * 20.93292 / 180)" .
  have "sin (pi * 20.93292 / 180) \<le> 0.3653483769 - 0.3653483769 ^ 3 / 6 + 0.3653483769 ^ 5 / 120 - 0.3653483769 ^ 7 / 5040 + 0.3653483769 ^ 8 / 40320"
    by (rule sin_between(2) [OF _ a]) simp_all
  also have "\<dots> \<le> 0.3572747076"
    by (simp add: power_divide)
  finally show "sin (pi * 20.93292 / 180) \<le> 0.3572747076" .
  have "(0.9339993358 :: real) \<le> 1 - 0.3653483769\<^sup>2 / 2 + 0.3653483769 ^ 4 / 24 - 0.3653483769 ^ 6 / 720 - 0.3653483769 ^ 8 / 40320"
    by (simp add: power_divide)
  also have "\<dots> \<le> cos (pi * 20.93292 / 180)"
    by (rule cos_between(1) [OF _ a]) simp_all
  finally show "0.9339993358 \<le> cos (pi * 20.93292 / 180)" .
  have "cos (pi * 20.93292 / 180) \<le> 1 - 0.3653483756\<^sup>2 / 2 + 0.3653483756 ^ 4 / 24 - 0.3653483756 ^ 6 / 720 + 0.3653483756 ^ 8 / 40320"
    by (rule cos_between(2) [OF _ a]) simp_all
  also have "\<dots> \<le> 0.9339993521"
    by (simp add: power_divide)
  finally show "cos (pi * 20.93292 / 180) \<le> 0.9339993521" .
qed

lemma sin_2_47089:
  shows "0.0431117999 \<le> sin (pi * 2.47089 / 180)"
    and "sin (pi * 2.47089 / 180) \<le> 0.0431118002"
proof -
  have a: "0.0431251659 \<le> pi * 2.47089 / 180" "pi * 2.47089 / 180 \<le> 0.0431251661"
    using pi_bounds by simp_all
  have "(0.0431117999 :: real) \<le> 0.0431251659 - 0.0431251659 ^ 3 / 6 + 0.0431251659 ^ 5 / 120 - 0.0431251659 ^ 7 / 5040 - 0.0431251659 ^ 8 / 40320"
    by (simp add: power_divide)
  also have "\<dots> \<le> sin (pi * 2.47089 / 180)"
    by (rule sin_between(1) [OF _ a]) simp_all
  finally show "0.0431117999 \<le> sin (pi * 2.47089 / 180)" .
  have "sin (pi * 2.47089 / 180) \<le> 0.0431251661 - 0.0431251661 ^ 3 / 6 + 0.0431251661 ^ 5 / 120 - 0.0431251661 ^ 7 / 5040 + 0.0431251661 ^ 8 / 40320"
    by (rule sin_between(2) [OF _ a]) simp_all
  also have "\<dots> \<le> 0.0431118002"
    by (simp add: power_divide)
  finally show "sin (pi * 2.47089 / 180) \<le> 0.0431118002" .
qed

lemma sin_41_86584:
  shows "0.6673864959 \<le> sin (pi * 41.86584 / 180)"
    and "sin (pi * 41.86584 / 180) \<le> 0.6673905288"
proof -
  have a: "0.7306967512 \<le> pi * 41.86584 / 180" "pi * 41.86584 / 180 \<le> 0.7306967537"
    using pi_bounds by simp_all
  have "(0.6673864959 :: real) \<le> 0.7306967512 - 0.7306967512 ^ 3 / 6 + 0.7306967512 ^ 5 / 120 - 0.7306967512 ^ 7 / 5040 - 0.7306967512 ^ 8 / 40320"
    by (simp add: power_divide)
  also have "\<dots> \<le> sin (pi * 41.86584 / 180)"
    by (rule sin_between(1) [OF _ a]) simp_all
  finally show "0.6673864959 \<le> sin (pi * 41.86584 / 180)" .
  have "sin (pi * 41.86584 / 180) \<le> 0.7306967537 - 0.7306967537 ^ 3 / 6 + 0.7306967537 ^ 5 / 120 - 0.7306967537 ^ 7 / 5040 + 0.7306967537 ^ 8 / 40320"
    by (rule sin_between(2) [OF _ a]) simp_all
  also have "\<dots> \<le> 0.6673905288"
    by (simp add: power_divide)
  finally show "sin (pi * 41.86584 / 180) \<le> 0.6673905288" .
qed

lemma sin_4_94178:
  shows "0.0861434338 \<le> sin (pi * 4.94178 / 180)"
    and "sin (pi * 4.94178 / 180) \<le> 0.0861434342"
proof -
  have a: "0.0862503318 \<le> pi * 4.94178 / 180" "pi * 4.94178 / 180 \<le> 0.0862503321"
    using pi_bounds by simp_all
  have "(0.0861434338 :: real) \<le> 0.0862503318 - 0.0862503318 ^ 3 / 6 + 0.0862503318 ^ 5 / 120 - 0.0862503318 ^ 7 / 5040 - 0.0862503318 ^ 8 / 40320"
    by (simp add: power_divide)
  also have "\<dots> \<le> sin (pi * 4.94178 / 180)"
    by (rule sin_between(1) [OF _ a]) simp_all
  finally show "0.0861434338 \<le> sin (pi * 4.94178 / 180)" .
  have "sin (pi * 4.94178 / 180) \<le> 0.0862503321 - 0.0862503321 ^ 3 / 6 + 0.0862503321 ^ 5 / 120 - 0.0862503321 ^ 7 / 5040 + 0.0862503321 ^ 8 / 40320"
    by (rule sin_between(2) [OF _ a]) simp_all
  also have "\<dots> \<le> 0.0861434342"
    by (simp add: power_divide)
  finally show "sin (pi * 4.94178 / 180) \<le> 0.0861434342" .
qed

section \<open>The equation of time at the epoch J2000.0\<close>

text \<open>
  At \<open>jcen = 0\<close> the mean longitude, the mean anomaly and the eccentricity are the constants
  of their equations, the obliquity correction takes one cosine, and the equation of time
  is a sum of products of \<open>var_y\<close> and of five sines and cosines of known angles.
\<close>

lemma trig_shifts:
  fixes y :: real
  shows "cos (y + pi / 2) = - sin y"
    and "sin (y + pi + 2 * pi) = - sin y"
    and "cos (y + pi + 2 * pi) = - cos y"
    and "sin (- y + 2 * pi) = - sin y"
    and "sin (y + 2 * pi + 2 * pi + 2 * pi) = sin y"
    and "sin (- y + 2 * pi + 2 * pi) = - sin y"
    and "cos (pi - y) = - cos y"
    and "sin (pi - y) = sin y"
  by (simp_all add: cos_add sin_add cos_diff sin_diff)

lemma ocorr_j2000:
  assumes jc: "jcen (noaa_eq g) = Fin 0"
  shows "\<exists>oc. ocorr_deg (noaa_eq g) = Fin oc \<and> 23.4378212906 \<le> oc \<and> oc \<le> 23.4378212932"
proof -
  define k where "k = sin (pi * 35.04 / 180)"
  have "cos (pi * 125.04 / 180) = cos (pi * 35.04 / 180 + pi / 2)"
    by (rule arg_cong [where f = cos]) simp
  also have "\<dots> = - k"
    unfolding k_def by (rule trig_shifts)
  finally have c: "cos (pi * 125.04 / 180) = - k" .
  define oc where "oc = 23 + (26 + 21.448 / 60) / 60 - 0.00256 * k"
  have "ocorr_deg (noaa_eq g) = Fin oc"
    by (simp add: noaa_eq_ocorr_deg noaa_eq_moe_deg jc c [simplified] oc_def)
  moreover have "23.4378212906 \<le> oc" "oc \<le> 23.4378212932"
    using sin_35_04 unfolding oc_def k_def by simp_all
  ultimately show ?thesis
    by blast
qed

lemma var_y_j2000:
  assumes jc: "jcen (noaa_eq g) = Fin 0"
  shows "\<exists>v. var_y (noaa_eq g) = Fin v \<and> 0.0430289785 \<le> v \<and> v \<le> 0.0430289791"
proof -
  from ocorr_j2000 [OF jc] obtain oc
    where ocorr: "ocorr_deg (noaa_eq g) = Fin oc" and ocb: "23.4378212906 \<le> oc" "oc \<le> 23.4378212932"
    by blast
  define x where "x = pi * (oc / 2) / 180"
  have "3.14159265 * 23.4378212906 \<le> pi * oc" "pi * oc \<le> 3.14159266 * 23.4378212932"
    using pi_bounds ocb by (intro mult_mono; simp)+
  then have a: "0.2045335752 \<le> x" "x \<le> 0.204533576"
    by (simp_all add: x_def)
  have "(0.2031104793 :: real) \<le> 0.2045335752 - 0.2045335752 ^ 3 / 6 + 0.2045335752 ^ 5 / 120
      - 0.2045335752 ^ 7 / 5040 - 0.2045335752 ^ 8 / 40320"
    by (simp add: power_divide)
  also have "\<dots> \<le> sin x"
    by (rule sin_between(1) [OF _ a]) simp_all
  finally have sl: "0.2031104793 \<le> sin x" .
  have "sin x \<le> 0.204533576 - 0.204533576 ^ 3 / 6 + 0.204533576 ^ 5 / 120
      - 0.204533576 ^ 7 / 5040 + 0.204533576 ^ 8 / 40320"
    by (rule sin_between(2) [OF _ a]) simp_all
  also have "\<dots> \<le> 0.2031104804"
    by (simp add: power_divide)
  finally have sh: "sin x \<le> 0.2031104804" .
  have "(0.9791558264 :: real) \<le> 1 - 0.204533576\<^sup>2 / 2 + 0.204533576 ^ 4 / 24
      - 0.204533576 ^ 6 / 720 - 0.204533576 ^ 8 / 40320"
    by (simp add: power_divide)
  also have "\<dots> \<le> cos x"
    by (rule cos_between(1) [OF _ a]) simp_all
  finally have cl: "0.9791558264 \<le> cos x" .
  have "cos x \<le> 1 - 0.2045335752\<^sup>2 / 2 + 0.2045335752 ^ 4 / 24
      - 0.2045335752 ^ 6 / 720 + 0.2045335752 ^ 8 / 40320"
    by (rule cos_between(2) [OF _ a]) simp_all
  also have "\<dots> \<le> 0.9791558268"
    by (simp add: power_divide)
  finally have ch: "cos x \<le> 0.9791558268" .
  have c0: "0 < cos x"
    using cl by simp
  have "0.2074342752 * cos x \<le> 0.2074342752 * 0.9791558268"
    using ch by (intro mult_left_mono) simp_all
  also have "\<dots> \<le> sin x"
    using sl by simp
  finally have tl: "0.2074342752 \<le> tan x"
    using c0 by (simp add: tan_def pos_le_divide_eq)
  have "sin x \<le> 0.2074342765 * 0.9791558264"
    using sh by simp
  also have "\<dots> \<le> 0.2074342765 * cos x"
    using cl by (intro mult_left_mono) simp_all
  finally have th: "tan x \<le> 0.2074342765"
    using c0 by (simp add: tan_def pos_divide_le_eq)
  define v where "v = tan x * tan x"
  have "var_y (noaa_eq g) = Fin v"
    using c0 by (simp add: noaa_eq_var_y ocorr x_def v_def)
  moreover have "0.2074342752 * 0.2074342752 \<le> v" "v \<le> 0.2074342765 * 0.2074342765"
    unfolding v_def using tl th by (intro mult_mono; simp)+
  then have "0.0430289785 \<le> v" "v \<le> 0.0430289791"
    by simp_all
  ultimately show ?thesis
    by blast
qed


lemma eqoftime_j2000:
  assumes jc: "jcen (noaa_eq g) = Fin 0"
  shows "\<exists>e. eqoftime_min (noaa_eq g) = Fin e \<and> - 3.30125934 \<le> e \<and> e \<le> - 3.3012582"
proof -
  from var_y_j2000 [OF jc] obtain v
    where vy: "var_y (noaa_eq g) = Fin v" and vb: "0.0430289785 \<le> v" "v \<le> 0.0430289791"
    by blast
  define ec :: real where "ec = 0.016708634"
  define L :: real where "L = 280.46646"
  define M :: real where "M = 357.52911"
  have ecc: "eccent (noaa_eq g) = Fin ec"
    by (simp add: noaa_eq_eccent jc ec_def)
  have gl: "gmlong_deg (noaa_eq g) = Fin L"
    by (simp add: noaa_eq_gmlong_deg jc L_def fmod_r_small)
  have gm: "gmanom_deg (noaa_eq g) = Fin M"
    by (simp add: noaa_eq_gmanom_deg jc M_def)
  define E where
    "E = v * sin (2 * (pi * L / 180)) - 2 * ec * sin (pi * M / 180)
       + 4 * ec * v * sin (pi * M / 180) * cos (2 * (pi * L / 180))
       - 0.5 * v * v * sin (4 * (pi * L / 180)) - 1.25 * ec * ec * sin (2 * (pi * M / 180))"
  have eq: "eqoftime_min (noaa_eq g) = Fin (4 * (180 * E / pi))"
    by (simp add: noaa_eq_eqoftime_min vy ecc gl gm E_def)
  define s1 c1 s2 s3 s4
    where "s1 = sin (pi * 20.93292 / 180)" and "c1 = cos (pi * 20.93292 / 180)"
      and "s2 = sin (pi * 2.47089 / 180)" and "s3 = sin (pi * 41.86584 / 180)"
      and "s4 = sin (pi * 4.94178 / 180)"
  have "sin (2 * (pi * L / 180)) = sin (pi * 20.93292 / 180 + pi + 2 * pi)"
    unfolding L_def by (rule arg_cong [where f = sin]) simp
  then have r1: "sin (2 * (pi * L / 180)) = - s1"
    unfolding s1_def by (simp only: trig_shifts)
  have "cos (2 * (pi * L / 180)) = cos (pi * 20.93292 / 180 + pi + 2 * pi)"
    unfolding L_def by (rule arg_cong [where f = cos]) simp
  then have r2: "cos (2 * (pi * L / 180)) = - c1"
    unfolding c1_def by (simp only: trig_shifts)
  have "sin (pi * M / 180) = sin (- (pi * 2.47089 / 180) + 2 * pi)"
    unfolding M_def by (rule arg_cong [where f = sin]) simp
  then have r3: "sin (pi * M / 180) = - s2"
    unfolding s2_def by (simp only: trig_shifts)
  have "sin (4 * (pi * L / 180)) = sin (pi * 41.86584 / 180 + 2 * pi + 2 * pi + 2 * pi)"
    unfolding L_def by (rule arg_cong [where f = sin]) simp
  then have r4: "sin (4 * (pi * L / 180)) = s3"
    unfolding s3_def by (simp only: trig_shifts)
  have "sin (2 * (pi * M / 180)) = sin (- (pi * 4.94178 / 180) + 2 * pi + 2 * pi)"
    unfolding M_def by (rule arg_cong [where f = sin]) simp
  then have r5: "sin (2 * (pi * M / 180)) = - s4"
    unfolding s4_def by (simp only: trig_shifts)
  note b1 = sin_cos_20_93292 [folded s1_def c1_def]
  note b2 = sin_2_47089 [folded s2_def]
  note b3 = sin_41_86584 [folded s3_def]
  note b4 = sin_4_94178 [folded s4_def]
  define T1 T2 T3 where "T1 = v * s1" and "T2 = v * s2 * c1" and "T3 = v * v * s3"
  have E: "E = - T1 + 2 * ec * s2 + 4 * ec * T2 - 0.5 * T3 + 1.25 * ec * ec * s4"
    unfolding E_def r1 r2 r3 r4 r5 T1_def T2_def T3_def by simp
  have t1: "0.0430289785 * 0.3572746905 \<le> T1" "T1 \<le> 0.0430289791 * 0.3572747076"
    unfolding T1_def using vb b1 by (intro mult_mono; simp)+
  have t2: "0.0430289785 * 0.0431117999 * 0.9339993358 \<le> T2"
      "T2 \<le> 0.0430289791 * 0.0431118002 * 0.9339993521"
    unfolding T2_def using vb b1 b2 by (intro mult_mono mult_nonneg_nonneg; simp)+
  have t3: "0.0430289785 * 0.0430289785 * 0.6673864959 \<le> T3"
      "T3 \<le> 0.0430289791 * 0.0430289791 * 0.6673905288"
    unfolding T3_def using vb b3 by (intro mult_mono mult_nonneg_nonneg; simp)+
  have Eb: "- 0.0144044612 \<le> E" "E \<le> - 0.0144044563"
    unfolding E ec_def using t1 t2 t3 b2 b4 by simp_all
  have "- 3.30125934 * pi \<le> 720 * E" "720 * E \<le> - 3.3012582 * pi"
    using Eb pi_bounds by simp_all
  then have "- 3.30125934 \<le> 4 * (180 * E / pi)" "4 * (180 * E / pi) \<le> - 3.3012582"
    by (simp_all add: field_simps)
  with eq show ?thesis
    by blast
qed


section \<open>The azimuth shortly before the sun is due north\<close>

text \<open>
  With \<open>q\<close> the quotient under the arc cosine of the azimuth, \<open>d\<close> the declination, \<open>H\<close> the
  hour angle and \<open>z\<close> the zenith angle, \<open>1 - q\<^sup>2\<close> is the square of \<open>cos d * sin H / sin z\<close>.
  At latitude 60 the sine of the zenith angle is at least \<open>1 / 2\<close>, so an hour angle within
  \<open>0.0000075\<close> degrees below 180 puts \<open>q\<close> so close to \<open>- 1\<close> that the azimuth is within
  \<open>1 / 65536\<close> below 360.
\<close>

lemma sin_ge_99:
  fixes t :: real
  assumes "0 \<le> t" and "t \<le> 0.1"
  shows "0.99 * t \<le> sin t"
proof -
  have "{..<3::nat} = {0, 1, 2}"
    by auto
  then have "(\<Sum>m<3. sin_coeff m * t ^ m) = t"
    by (simp add: sin_coeff_def)
  with Maclaurin_sin_bound [of t 3] have "\<bar>sin t - t\<bar> \<le> \<bar>t\<bar> ^ 3 / 6"
    by (simp add: fact_numeral)
  moreover have "\<bar>t\<bar> = t"
    using assms(1) by simp
  ultimately have "t - t ^ 3 / 6 \<le> sin t"
    by linarith
  moreover have "t * t \<le> 0.1 * 0.1"
    using assms by (intro mult_mono) simp_all
  then have "t * t * t \<le> 0.1 * 0.1 * t"
    using assms(1) by (intro mult_right_mono)
  then have "t ^ 3 / 6 \<le> 0.01 * t"
    using assms(1) by (simp add: power3_eq_cube)
  ultimately show ?thesis
    by simp
qed

lemma azimuth_before_north:
  assumes la: "lat_deg g = Fin 60"
    and jc: "jcen (noaa_eq g) = Fin c" and c: "\<bar>c\<bar> \<le> 1"
    and H: "hrangle_deg (noaa_eq g) = Fin H" and Hb: "180 - 0.0000075 \<le> H" "H < 180"
  shows "\<exists>a. az_deg (noaa_eq g) = Fin a \<and> 360 - 1 / 65536 \<le> a \<and> a < 360"
proof -
  from ocorr_bounded [OF jc c] obtain oc
    where ocorr: "ocorr_deg (noaa_eq g) = Fin oc" and ocb: "23.39 \<le> oc" "oc \<le> 23.51"
    by blast
  obtain ap where applong: "applong_deg (noaa_eq g) = Fin ap"
    by (simp add: noaa_eq_applong_deg noaa_eq_truelong_deg noaa_eq_gmlong_deg noaa_eq_eqofctr
        noaa_eq_gmanom_deg jc)
  define p where "p = sin (deg_rad oc) * sin (deg_rad ap)"
  have so: "\<bar>sin (deg_rad oc)\<bar> \<le> 0.411"
  proof -
    have x0: "0 \<le> deg_rad oc"
      using ocb by (simp add: deg_rad_def)
    have "pi * oc \<le> 3.14159266 * 23.51"
      using pi_bounds ocb by (intro mult_mono) simp_all
    then have x1: "deg_rad oc \<le> 0.411"
      by (simp add: deg_rad_def)
    then have "deg_rad oc \<le> pi"
      using pi_ge_3 by simp
    with x0 have "0 \<le> sin (deg_rad oc)"
      by (rule sin_ge_zero)
    with sin_x_le_x [OF x0] x1 show ?thesis
      by simp
  qed
  have "\<bar>sin (deg_rad oc)\<bar> * \<bar>sin (deg_rad ap)\<bar> \<le> 0.411 * 1"
    using so by (intro mult_mono) simp_all
  then have pb: "\<bar>p\<bar> \<le> 0.411"
    by (simp add: p_def abs_mult)
  then have p2: "- 1 \<le> p" "p \<le> 1"
    by simp_all
  have decl: "d2r (decl_deg (noaa_eq g)) = Fin (arcsin p)"
    using p2 by (simp add: noaa_eq_decl_deg ocorr applong p_def deg_rad_def)
  have sa: "sin (arcsin p) = p"
    using p2 by simp
  define cd where "cd = cos (arcsin p)"
  have cd0: "0 \<le> cd"
    using arcsin_bounded [OF p2] by (simp add: cd_def cos_ge_zero)
  have "(sin (arcsin p))\<^sup>2 + (cos (arcsin p))\<^sup>2 = 1"
    by (rule sin_cos_squared_add)
  then have pc: "p\<^sup>2 + cd\<^sup>2 = 1"
    using p2 by (simp add: cd_def)
  have "p\<^sup>2 \<le> 0.411\<^sup>2"
    using pb by (simp add: abs_le_square_iff [symmetric])
  then have "p\<^sup>2 \<le> 19 / 100" "0 \<le> p\<^sup>2"
    by (simp_all add: power2_eq_square)
  with pc have "81 / 100 \<le> cd\<^sup>2" "cd\<^sup>2 \<le> 1"
    by linarith+
  then have cd2: "0.9\<^sup>2 \<le> cd\<^sup>2" "cd\<^sup>2 \<le> 1\<^sup>2"
    by (simp_all add: power2_eq_square)
  have cdb: "0.9 \<le> cd" "cd \<le> 1"
    by (rule power2_le_imp_le [OF cd2(1) cd0]) (rule power2_le_imp_le [OF cd2(2)], simp)
  define A B where "A = sin (deg_rad 60)" and "B = cos (deg_rad 60)"
  have dr: "deg_rad 60 = pi / 3"
    by (simp add: deg_rad_def)
  have B: "B = 1 / 2" and As: "A = sqrt 3 / 2"
    unfolding A_def B_def dr by (rule cos_60) (rule sin_60)
  have AB: "A\<^sup>2 + B\<^sup>2 = 1"
    by (simp add: A_def B_def)
  then have A2: "A\<^sup>2 = 3 / 4"
    by (simp add: B power2_eq_square)
  have A0: "0 \<le> A"
    by (simp add: As)
  have Asq: "0.866\<^sup>2 \<le> A\<^sup>2" "A\<^sup>2 \<le> 0.867\<^sup>2"
    unfolding A2 by (simp_all add: power2_eq_square)
  have Ab: "0.866 \<le> A" "A \<le> 0.867"
    by (rule power2_le_imp_le [OF Asq(1) A0]) (rule power2_le_imp_le [OF Asq(2)], simp)
  define y where "y = deg_rad (180 - H)"
  have yb: "0 < y" "y \<le> 0.00000014"
  proof -
    show "0 < y"
      using Hb by (simp add: y_def deg_rad_def)
    have "pi * (180 - H) \<le> 3.14159266 * 0.0000075"
      using pi_bounds Hb by (intro mult_mono) simp_all
    then show "y \<le> 0.00000014"
      by (simp add: y_def deg_rad_def)
  qed
  have "deg_rad H = pi - y"
    by (simp add: y_def deg_rad_def field_simps)
  then have hs: "cos (deg_rad H) = - cos y" "sin (deg_rad H) = sin y"
    by (simp_all only: trig_shifts)
  define h where "h = cos (deg_rad H)"
  have "y\<^sup>2 \<le> 0.00000014\<^sup>2"
    using yb by (intro power_mono) simp_all
  with cos_ge_parabola [of y] have "0.99 \<le> cos y"
    by (simp add: power2_eq_square)
  then have hb: "- 1 \<le> h" "h \<le> - 0.99"
    by (simp_all add: h_def hs)
  have sy: "0 < sin y" "sin y \<le> y"
    using yb pi_ge_3 by (simp_all add: sin_gt_zero sin_x_le_x)
  have h2: "1 - h\<^sup>2 = (sin y)\<^sup>2"
    unfolding h_def hs using sin_cos_squared_add [of y] by (simp add: power2_eq_square)
  define cz where "cz = A * p + B * cd * h"
  have "\<bar>cz\<bar> \<le> \<bar>A * p\<bar> + \<bar>B * cd * h\<bar>"
    unfolding cz_def by (rule abs_triangle_ineq)
  moreover have "\<bar>A * p\<bar> \<le> 0.867 * 0.411"
    unfolding abs_mult using Ab pb by (intro mult_mono) simp_all
  moreover have "\<bar>cd * h\<bar> \<le> 1 * 1"
    unfolding abs_mult using cdb hb by (intro mult_mono) simp_all
  then have "\<bar>B * cd * h\<bar> \<le> 0.5"
    by (simp add: B abs_mult)
  ultimately have czb: "\<bar>cz\<bar> \<le> 0.86"
    by simp
  then have cz1: "- 1 < cz" "cz < 1"
    by simp_all
  have "cz\<^sup>2 \<le> 0.86\<^sup>2"
    using czb by (simp add: abs_le_square_iff [symmetric])
  then have cz2: "0.25 \<le> 1 - cz\<^sup>2"
    by (simp add: power2_eq_square)
  have zangle: "zangle_deg (noaa_eq g) = Fin (180 * arccos cz / pi)"
    using cz1
    by (simp add: noaa_eq_zangle_deg decl la H sa cz_def A_def B_def h_def cd_def deg_rad_def)
  define sz where "sz = sin (arccos cz)"
  have sz2: "sz\<^sup>2 = 1 - cz\<^sup>2"
    using cz1 cz2 by (simp add: sz_def sin_arccos)
  have sz0: "0 \<le> sz"
    using arccos_bounded [of cz] cz1 by (simp add: sz_def sin_ge_zero)
  have "0.5\<^sup>2 \<le> sz\<^sup>2"
    unfolding sz2 using cz2 by (simp add: power2_eq_square)
  then have szb: "0.5 \<le> sz"
    using sz0 by (rule power2_le_imp_le)
  define N where "N = A * cz - p"
  define D where "D = B * sz"
  define q where "q = N / D"
  have D0: "0.25 \<le> D"
    using szb by (simp add: D_def B)
  have "N - B * (A * cd * h - B * p) = p * (A\<^sup>2 + B\<^sup>2 - 1)"
    by (simp add: N_def cz_def algebra_simps power2_eq_square)
  then have "N = B * (A * cd * h - B * p)"
    unfolding AB by simp
  moreover have "A * cd * h - B * p < 0"
  proof -
    have "0.866 * 0.9 * 0.99 \<le> A * cd * (- h)"
      using Ab cdb hb by (intro mult_mono mult_nonneg_nonneg) simp_all
    moreover have "- (B * p) \<le> 0.5 * 0.411"
      using pb by (simp add: B)
    ultimately show ?thesis
      by simp
  qed
  ultimately have N0: "N < 0"
    by (simp add: B)
  then have q0: "q < 0"
    using D0 by (simp add: q_def divide_neg_pos)
  note id = spherical_identity [OF AB pc, of h, folded cz_def, folded N_def]
  have "D\<^sup>2 = B\<^sup>2 * (1 - cz\<^sup>2)"
    by (simp add: D_def power_mult_distrib sz2)
  also have "\<dots> = N\<^sup>2 + B\<^sup>2 * cd\<^sup>2 * (sin y)\<^sup>2"
    unfolding id h2 ..
  finally have DN: "D\<^sup>2 - N\<^sup>2 = B\<^sup>2 * cd\<^sup>2 * (sin y)\<^sup>2"
    by simp
  have D2: "D\<^sup>2 \<noteq> 0"
    using D0 by simp
  have "1 - q\<^sup>2 = (D\<^sup>2 - N\<^sup>2) / D\<^sup>2"
    using D2 by (simp add: q_def power_divide diff_divide_distrib)
  also have "\<dots> = (B\<^sup>2 * cd\<^sup>2 * (sin y)\<^sup>2) / (B\<^sup>2 * sz\<^sup>2)"
    unfolding DN by (simp add: D_def power_mult_distrib)
  also have "\<dots> = (cd * sin y / sz)\<^sup>2"
    by (simp add: B power_mult_distrib power_divide)
  finally have q2: "1 - q\<^sup>2 = (cd * sin y / sz)\<^sup>2" .
  define r where "r = cd * sin y / sz"
  have r0: "0 < r"
    using cdb sy szb by (simp add: r_def)
  have "cd * sin y \<le> 1 * y"
    using cdb sy by (intro mult_mono) simp_all
  then have "r \<le> y / sz"
    using szb by (simp add: r_def divide_right_mono)
  also have "\<dots> \<le> y / 0.5"
    using szb yb by (intro divide_left_mono) simp_all
  finally have rb: "r \<le> 2 * y"
    by simp
  define t where "t = pi / (180 * 65536)"
  have tb: "0 \<le> t" "t \<le> 0.1"
    using pi_less_4 by (simp_all add: t_def)
  have "2 * y \<le> 0.99 * t"
  proof -
    have "180 - H \<le> 0.0000075"
      using Hb by simp
    then have "2 * (180 - H) * 65536 \<le> 0.99"
      by simp
    then have "pi * (2 * (180 - H) * 65536) \<le> pi * 0.99"
      by (intro mult_left_mono) simp_all
    then show ?thesis
      by (simp add: y_def t_def deg_rad_def field_simps)
  qed
  with rb sin_ge_99 [OF tb] have rt: "r \<le> sin t"
    by simp
  have q2r: "1 - q\<^sup>2 = r\<^sup>2"
    unfolding r_def by (rule q2)
  have "r\<^sup>2 \<le> (sin t)\<^sup>2"
    using r0 rt by (intro power_mono) simp_all
  then have "(cos t)\<^sup>2 \<le> q\<^sup>2"
    using q2r sin_cos_squared_add [of t] by linarith
  moreover have ct: "0 \<le> cos t"
    using tb pi_ge_3 by (intro cos_ge_zero) simp_all
  ultimately have "cos t \<le> \<bar>q\<bar>"
    by (simp add: abs_le_square_iff [symmetric])
  then have qt: "q \<le> - cos t"
    using q0 by simp
  have "0 < r\<^sup>2"
    using r0 by simp
  then have "q\<^sup>2 < 1"
    using q2r by linarith
  then have "\<bar>q\<bar> < 1"
    by (simp only: abs_square_less_1)
  then have q1: "- 1 < q" "q < 1"
    by simp_all
  have "arccos (cos (pi - t)) \<le> arccos q"
    using q1 qt by (subst arccos_le_mono) (simp_all add: trig_shifts)
  moreover have "arccos (cos (pi - t)) = pi - t"
    using tb pi_ge_3 by (intro arccos_cos) simp_all
  ultimately have al: "pi - t \<le> arccos q"
    by simp
  from arccos_lt_bounded [OF q1] have au: "arccos q < pi"
    by simp
  define X where "X = 180 * arccos q / pi"
  have e: "180 * (pi - t) / pi = 180 - 1 / 65536"
    by (simp add: t_def field_simps)
  have "180 * (pi - t) / pi \<le> X"
    unfolding X_def using al by (intro divide_right_mono mult_left_mono) simp_all
  then have Xl: "180 - 1 / 65536 \<le> X"
    unfolding e .
  have Xu: "X < 180"
    using au by (simp add: X_def field_simps)
  have Bnz: "B \<noteq> 0" and sznz: "sz \<noteq> 0"
    using szb by (simp_all add: B)
  have arg: "((sin_d (d2r (lat_deg g)) * cos_d (d2r (zangle_deg (noaa_eq g)))) - sin_d (d2r (decl_deg (noaa_eq g))))
      / (cos_d (d2r (lat_deg g)) * sin_d (d2r (zangle_deg (noaa_eq g)))) = Fin q"
    using cz1 p2 Bnz sznz
    by (simp add: zangle decl la sa q_def N_def D_def A_def B_def sz_def deg_rad_def)
  have "0 < H"
    using Hb by simp
  then have "az_deg (noaa_eq g) = Fin (fmod_r (X + 180) 360)"
    using q1 unfolding noaa_eq_az_deg arg by (simp add: H X_def)
  moreover have "fmod_r (X + 180) 360 = X + 180"
    using Xl Xu by (intro fmod_r_small) simp_all
  ultimately show ?thesis
    using Xl Xu by simp
qed

text \<open>
  The place of the example. At 00:00 there \<open>jcen\<close> is 0, the true solar time is about
  \<open>0.00002\<close> minutes before midnight, and the hour angle less than \<open>0.000005\<close> degrees
  below 180.
\<close>

lemma date_line_inputs:
  "lat_deg (date_line\<lparr>wtime_day := w\<rparr>) = Fin 60"
  "long_deg (date_line\<lparr>wtime_day := w\<rparr>) = Fin (- 179.17469)"
  "timezone_hr (date_line\<lparr>wtime_day := w\<rparr>) = Fin (- 12)"
  "date_d (date_line\<lparr>wtime_day := w\<rparr>) = Fin 36526"
  "wtime_day (date_line\<lparr>wtime_day := w\<rparr>) = w"
  by (simp_all add: date_line_def init_globals_def)

lemma date_line_jcen: "jcen (noaa_eq (date_line\<lparr>wtime_day := Fin 0\<rparr>)) = Fin 0"
  by (simp add: noaa_eq_jcen noaa_eq_jday date_line_inputs)

lemma date_line_hrangle:
  "\<exists>H. hrangle_deg (noaa_eq (date_line\<lparr>wtime_day := Fin 0\<rparr>)) = Fin H \<and> 180 - 0.0000075 \<le> H \<and> H < 180"
proof -
  let ?g = "date_line\<lparr>wtime_day := Fin 0\<rparr>"
  from eqoftime_j2000 [OF date_line_jcen] obtain e
    where eq: "eqoftime_min (noaa_eq ?g) = Fin e" and eb: "- 3.30125934 \<le> e" "e \<le> - 3.3012582"
    by blast
  define S where "S = 3.30124 + e"
  have Sb: "- 0.00001934 \<le> S" "S \<le> - 0.0000182"
    using eb by (simp_all add: S_def)
  have "soltime_min (noaa_eq ?g) = Fin (fmod_r S 1440)"
    by (simp add: noaa_eq_soltime_min eq date_line_inputs S_def)
  moreover have "fmod_r S 1440 = S"
    using Sb by (intro fmod_r_small) simp_all
  ultimately have sol: "soltime_min (noaa_eq ?g) = Fin S"
    by simp
  have "hrangle_deg (noaa_eq ?g) = Fin (S / 4 + 180)"
    using Sb by (simp add: noaa_eq_hrangle_deg sol)
  moreover have "180 - 0.0000075 \<le> S / 4 + 180" "S / 4 + 180 < 180"
    using Sb by simp_all
  ultimately show ?thesis
    by blast
qed

lemma tables_ok_date_line: "tables_ok date_line"
  by (simp add: tables_ok_def date_line_def init_globals_def)

lemma load_azim_elev:
  assumes "tables_ok g" and "i < 1440"
  shows "azim (load g) ! i = to_float (az_deg (noaa_eq (g\<lparr>wtime_day := Fin (real i / 1440)\<rparr>)))"
    and "elev (load g) ! i = to_float (elev_deg (noaa_eq (g\<lparr>wtime_day := Fin (real i / 1440)\<rparr>)))"
  using load_rows [OF assms] by (simp_all add: row_def sample_def stored_def)

lemma to_float_azimuth:
  assumes "0 \<le> a" and "a < 360" and "to_float (Fin a) \<noteq> Undef"
  shows "0 \<le> to_float (Fin a) \<and> to_float (Fin a) \<le> 360"
  using assms to_float_r_nonneg [of a] to_float_r_le_360 [of a]
  by (simp add: to_float_def split: if_splits)

lemma to_float_elevation:
  assumes "- 90 \<le> e" and "e \<le> 90" and "to_float (Fin e) \<noteq> Undef"
  shows "- 90 \<le> to_float (Fin e) \<and> to_float (Fin e) \<le> 90"
proof -
  from assms(1,2) have "\<bar>e\<bar> \<le> 90"
    by simp
  from to_float_r_le_90 [OF this] have "- 90 \<le> to_float_r e" "to_float_r e \<le> 90"
    by simp_all
  with assms(3) show ?thesis
    by (simp add: to_float_def split: if_splits)
qed

lemma to_float_Undef [simp]: "to_float Undef = Undef"
  by (simp add: to_float_def)

text \<open>
  The bounds of the stored azimuth do not depend on the quotient under the arc cosine: they
  hold for every value of it, and so also where rounding gives the program a quotient that
  exact arithmetic lacks (at the poles, where the exact cosine of the latitude is 0).
\<close>

lemma azimuth_any_quotient:
  assumes "to_float (fmod_d (r2d (acos_d q) + 180) 360) = Fin a \<or>
    to_float (fmod_d (540 - r2d (acos_d q)) 360) = Fin a"
  shows "0 \<le> a \<and> a \<le> 360"
proof (cases "r2d (acos_d q)")
  case Undef
  with assms show ?thesis
    by simp
next
  case (Fin x)
  from r2d_acos_d_range [OF Fin] have x: "0 \<le> x" "x \<le> 180"
    by simp_all
  define u v where "u = fmod_r (x + 180) 360" and "v = fmod_r (540 - x) 360"
  have u: "0 \<le> u" "u < 360" and v: "0 \<le> v" "v < 360"
    using fmod_r_nonneg [of 360 "x + 180"] fmod_r_nonneg [of 360 "540 - x"] x
    by (simp_all add: u_def v_def)
  from assms have "to_float (Fin u) = Fin a \<or> to_float (Fin v) = Fin a"
    by (simp add: Fin u_def v_def)
  then show ?thesis
    using to_float_azimuth [OF u] to_float_azimuth [OF v] by auto
qed

text \<open>
  Claim C5, as stated, fails at the upper end of the azimuth. At latitude 60, longitude
  \<open>- 179.17469\<close>, timezone \<open>- 12\<close> on 1 January 2000, the azimuth computed for index 0 lies
  within \<open>1 / 65536\<close> below 360, and the nearest \<^verbatim>\<open>float\<close>, which is what the table holds, is
  360 itself.
\<close>

theorem load_azimuth_360_counterexample:
  "tables_ok date_line \<and> azim (load date_line) ! 0 = Fin 360 \<and> \<not> azim (load date_line) ! 0 < 360"
proof -
  let ?g = "date_line\<lparr>wtime_day := Fin 0\<rparr>"
  from date_line_hrangle obtain H
    where H: "hrangle_deg (noaa_eq ?g) = Fin H" and Hb: "180 - 0.0000075 \<le> H" "H < 180"
    by blast
  have c: "\<bar>0 :: real\<bar> \<le> 1"
    by simp
  from azimuth_before_north [OF date_line_inputs(1) date_line_jcen c H Hb] obtain a
    where a: "az_deg (noaa_eq ?g) = Fin a" and ab: "360 - 1 / 65536 \<le> a" "a < 360"
    by blast
  have "azim (load date_line) ! 0 = to_float (az_deg (noaa_eq ?g))"
    using load_azim_elev(1) [OF tables_ok_date_line, of 0] by simp
  also have "\<dots> = Fin 360"
    using to_float_r_up_360 [OF ab] by (simp add: a to_float_def pow2_def)
  finally show ?thesis
    using tables_ok_date_line by simp
qed

text \<open>
  Claim C5, amended. In the tables built by \<^verbatim>\<open>load\<close>, at every index from 0 to 1439, a
  stored azimuth that is a number (no domain failure made it undefined) is at least 0 and
  at most 360, and a stored elevation that is a number is between \<open>- 90\<close> and \<open>90\<close>. The
  computed azimuth is below 360; the table holds it as a \<^verbatim>\<open>float\<close>, and the nearest
  \<^verbatim>\<open>float\<close> of an azimuth just below 360 is 360.
\<close>

theorem load_ranges:
  assumes "tables_ok g" and "i < 1440"
  shows "(azim (load g) ! i \<noteq> Undef \<longrightarrow> 0 \<le> azim (load g) ! i \<and> azim (load g) ! i \<le> 360) \<and>
    (elev (load g) ! i \<noteq> Undef \<longrightarrow> - 90 \<le> elev (load g) ! i \<and> elev (load g) ! i \<le> 90)"
proof -
  let ?r = "noaa_eq (g\<lparr>wtime_day := Fin (real i / 1440)\<rparr>)"
  have az: "0 \<le> to_float (az_deg ?r) \<and> to_float (az_deg ?r) \<le> 360" if "to_float (az_deg ?r) \<noteq> Undef"
  proof (cases "az_deg ?r")
    case (Fin a)
    from az_range [OF Fin] have "0 \<le> a" "a < 360"
      by simp_all
    with that show ?thesis
      unfolding Fin by (intro to_float_azimuth)
  next
    case Undef
    with that show ?thesis
      by simp
  qed
  have el: "- 90 \<le> to_float (elev_deg ?r) \<and> to_float (elev_deg ?r) \<le> 90" if "to_float (elev_deg ?r) \<noteq> Undef"
  proof (cases "elev_deg ?r")
    case (Fin e)
    from elev_range [OF Fin] have "- 90 \<le> e" "e \<le> 90"
      by simp_all
    with that show ?thesis
      unfolding Fin by (intro to_float_elevation)
  next
    case Undef
    with that show ?thesis
      by simp
  qed
  from az el show ?thesis
    unfolding load_azim_elev [OF assms] by blast
qed

lemma tables_ok_helsinki: "tables_ok helsinki"
  by (simp add: tables_ok_def helsinki_def init_globals_def)

lemma to_float_defined:
  assumes "\<bar>x\<bar> \<le> 360"
  shows "to_float (Fin x) \<noteq> Undef"
proof -
  have "\<bar>to_float_r x\<bar> < pow2 128"
    using to_float_r_le_360 [OF assms] by (simp add: pow2_def)
  then show ?thesis
    by (simp add: to_float_def)
qed

theorem load_ranges_witness:
  "tables_ok helsinki \<and> (600 :: nat) < 1440 \<and>
   azim (load helsinki) ! 600 \<noteq> Undef \<and> elev (load helsinki) ! 600 \<noteq> Undef \<and>
   0 \<le> azim (load helsinki) ! 600 \<and> azim (load helsinki) ! 600 \<le> 360 \<and>
   - 90 \<le> elev (load helsinki) ! 600 \<and> elev (load helsinki) ! 600 \<le> 90"
proof -
  have i: "(600 :: nat) < 1440"
    by simp
  note at = load_azim_elev [OF tables_ok_helsinki i, simplified]
  from helsinki_morning_position obtain a e
    where a: "az_deg (noaa_eq (helsinki\<lparr>wtime_day := Fin (5 / 12)\<rparr>)) = Fin a"
      and e: "elev_deg (noaa_eq (helsinki\<lparr>wtime_day := Fin (5 / 12)\<rparr>)) = Fin e" "- 90 < e" "e < 90"
    by blast
  from az_range [OF a] have "\<bar>a\<bar> \<le> 360"
    by simp
  then have "azim (load helsinki) ! 600 \<noteq> Undef"
    unfolding at a by (rule to_float_defined)
  moreover from e have "\<bar>e\<bar> \<le> 360"
    by simp
  then have "elev (load helsinki) ! 600 \<noteq> Undef"
    unfolding at e by (rule to_float_defined)
  ultimately show ?thesis
    using load_ranges [OF tables_ok_helsinki i] tables_ok_helsinki by simp
qed

text \<open>
  Claim C7. For a computed elevation \<open>e\<close> the refraction correction is the piecewise value
  of the specification (0 above 85 degrees; the three-term tangent formula for
  \<open>5 < e \<le> 85\<close>; the quartic polynomial for \<open>- 0.575 < e \<le> 5\<close>; \<open>- 20.772 / tan e\<close> at and
  below \<open>- 0.575\<close>) divided by 3600, and the corrected elevation is the elevation plus
  that correction. At \<open>e = - 90\<close> exactly the tangent has a pole and neither the formula nor
  the model gives a number; every other computed elevation is covered.
\<close>

theorem refraction_piecewise:
  assumes e: "elev_deg (noaa_eq g) = Fin e" and lo: "- 90 < e"
  shows "refract_deg (noaa_eq g) = Fin (spec_refraction e / 3600) \<and>
    elevc_deg (noaa_eq g) = Fin (e + spec_refraction e / 3600)"
proof -
  have hi: "e \<le> 90"
    using elev_range [OF e] by simp
  have r: "refract_deg (noaa_eq g) = Fin (spec_refraction e / 3600)"
  proof -
    consider (zenith) "85 < e" | (high) "5 < e" "e \<le> 85" | (horizon) "- 0.575 < e" "e \<le> 5"
      | (below) "e \<le> - 0.575"
      by linarith
    then show ?thesis
    proof cases
      case zenith
      then show ?thesis
        by (simp add: noaa_eq_refract_deg e spec_refraction_def)
    next
      case high
      then have "0 < cos (deg_rad e)" "0 < tan (deg_rad e)"
        by (simp_all add: cos_deg_rad_pos tan_deg_rad_pos)
      with high show ?thesis
        by (simp add: noaa_eq_refract_deg e spec_refraction_def deg_rad_def)
    next
      case horizon
      then show ?thesis
        by (simp add: noaa_eq_refract_deg e spec_refraction_def)
    next
      case below
      with lo have "0 < cos (deg_rad e)" "tan (deg_rad e) < 0"
        by (simp_all add: cos_deg_rad_pos tan_deg_rad_neg)
      with below show ?thesis
        by (simp add: noaa_eq_refract_deg e spec_refraction_def deg_rad_def)
    qed
  qed
  then show ?thesis
    by (simp add: noaa_eq_elevc_deg e)
qed

theorem refraction_piecewise_witness:
  "\<exists>e. elev_deg (noaa_eq (helsinki\<lparr>wtime_day := Fin (5 / 12)\<rparr>)) = Fin e \<and> - 90 < e \<and>
     refract_deg (noaa_eq (helsinki\<lparr>wtime_day := Fin (5 / 12)\<rparr>)) = Fin (spec_refraction e / 3600) \<and>
     elevc_deg (noaa_eq (helsinki\<lparr>wtime_day := Fin (5 / 12)\<rparr>)) = Fin (e + spec_refraction e / 3600)"
proof -
  from helsinki_morning_position obtain e
    where e: "elev_deg (noaa_eq (helsinki\<lparr>wtime_day := Fin (5 / 12)\<rparr>)) = Fin e" and lo: "- 90 < e"
    by blast
  from refraction_piecewise [OF e lo] e lo show ?thesis
    by blast
qed
section \<open>The last Sundays of March and October\<close>

lemma jd_march: "julianDayFromDate y 3 n =
    (let Y = (if y < 0 then y + 1 else y) + 4800 in n + 365 * Y + Y div 4 - Y div 100 + Y div 400 - 32045)"
  by (simp add: julianDayFromDate_def Let_def)

lemma jd_october: "julianDayFromDate y 10 n =
    (let Y = (if y < 0 then y + 1 else y) + 4800 in n + 214 + 365 * Y + Y div 4 - Y div 100 + Y div 400 - 32045)"
  by (simp add: julianDayFromDate_def Let_def)

lemma jd_july: "julianDayFromDate y 7 n =
    (let Y = (if y < 0 then y + 1 else y) + 4800 in n + 122 + 365 * Y + Y div 4 - Y div 100 + Y div 400 - 32045)"
  by (simp add: julianDayFromDate_def Let_def)

lemma leap_terms_range:
  fixes Y :: int
  assumes "- 2147478847 \<le> Y" and "Y \<le> 2147488447"
  shows "- 784350542778 \<le> 365 * Y + Y div 4 - Y div 100 + Y div 400"
    and "365 * Y + Y div 4 - Y div 100 + Y div 400 \<le> 784354049104"
proof -
  have "Y = 4 * (Y div 4) + Y mod 4" "0 \<le> Y mod 4" "Y mod 4 < 4"
    "Y = 100 * (Y div 100) + Y mod 100" "0 \<le> Y mod 100" "Y mod 100 < 100"
    "Y = 400 * (Y div 400) + Y mod 400" "0 \<le> Y mod 400" "Y mod 400 < 400"
    by simp_all
  with assms show "- 784350542778 \<le> 365 * Y + Y div 4 - Y div 100 + Y div 400"
    and "365 * Y + Y div 4 - Y div 100 + Y div 400 \<le> 784354049104"
    by linarith+
qed


lemma isValid_ymd_31:
  assumes "y \<noteq> 0" and "1 \<le> n" and "n \<le> 31" and "m = 1 \<or> m = 3 \<or> m = 7 \<or> m = 10"
  shows "isValid_ymd y m n"
  using assms by (auto simp add: isValid_ymd_def monthDays_def)

lemma QDate_march:
  assumes "y \<noteq> 0" and "- 2147483648 \<le> y" and "y \<le> 2147483647" and "1 \<le> n" and "n \<le> 31"
  shows "QDate y 3 n = julianDayFromDate y 3 31 - (31 - n)" and "isValid_date (QDate y 3 n)"
proof -
  have v: "isValid_ymd y 3 n"
    using assms by (intro isValid_ymd_31) simp_all
  then show "QDate y 3 n = julianDayFromDate y 3 31 - (31 - n)"
    by (simp add: QDate_def jd_march Let_def)
  define Y where "Y = (if y < 0 then y + 1 else y) + 4800"
  define F where "F = 365 * Y + Y div 4 - Y div 100 + Y div 400"
  have "- 2147478847 \<le> Y" "Y \<le> 2147488447"
    using assms by (simp_all add: Y_def)
  from leap_terms_range [OF this] have "- 784350542778 \<le> F" "F \<le> 784354049104"
    by (simp_all add: F_def)
  moreover have "QDate y 3 n = n + F - 32045"
    using v by (simp add: QDate_def jd_march Let_def F_def Y_def)
  ultimately show "isValid_date (QDate y 3 n)"
    using assms(4,5) by (simp add: isValid_date_def minJd_def maxJd_def)
qed

lemma QDate_october:
  assumes "y \<noteq> 0" and "- 2147483648 \<le> y" and "y \<le> 2147483647" and "1 \<le> n" and "n \<le> 31"
  shows "QDate y 10 n = julianDayFromDate y 10 31 - (31 - n)" and "isValid_date (QDate y 10 n)"
proof -
  have v: "isValid_ymd y 10 n"
    using assms by (intro isValid_ymd_31) simp_all
  then show "QDate y 10 n = julianDayFromDate y 10 31 - (31 - n)"
    by (simp add: QDate_def jd_october Let_def)
  define Y where "Y = (if y < 0 then y + 1 else y) + 4800"
  define F where "F = 365 * Y + Y div 4 - Y div 100 + Y div 400"
  have "- 2147478847 \<le> Y" "Y \<le> 2147488447"
    using assms by (simp_all add: Y_def)
  from leap_terms_range [OF this] have "- 784350542778 \<le> F" "F \<le> 784354049104"
    by (simp_all add: F_def)
  moreover have "QDate y 10 n = n + 214 + F - 32045"
    using v by (simp add: QDate_def jd_october Let_def F_def Y_def)
  ultimately show "isValid_date (QDate y 10 n)"
    using assms(4,5) by (simp add: isValid_date_def minJd_def maxJd_def)
qed

lemma dayOfWeek_sunday:
  assumes "isValid_date jd"
  shows "dayOfWeek jd = 7 \<longleftrightarrow> (jd + 1) mod 7 = 0"
proof (cases "0 \<le> jd")
  case True
  with assms show ?thesis
    by (simp add: dayOfWeek_def rem_c_def) presburger
next
  case False
  with assms show ?thesis
    by (simp add: dayOfWeek_def rem_c_def) presburger
qed


lemma sunday_loop_counts:
  assumes dates: "\<And>n. 1 \<le> n \<Longrightarrow> n \<le> 31 \<Longrightarrow> QDate y m n = J - (31 - n) \<and> isValid_date (QDate y m n)"
    and k: "k = (J + 1) mod 7" and j: "0 \<le> j" "j \<le> k" and d: "k - j = int d"
  shows "sunday_loop y m (31 - j) (QDate y m (31 - j)) = Some (QDate y m (31 - k))"
  using j d
proof (induction d arbitrary: j)
  case 0
  then have jk: "j = k"
    by simp
  have "0 \<le> k" "k < 7"
    by (simp_all add: k)
  then have "1 \<le> 31 - k" "31 - k \<le> 31"
    by simp_all
  from dates [OF this] have q: "QDate y m (31 - k) = J - k" and v: "isValid_date (QDate y m (31 - k))"
    by auto
  have "(J - k + 1) mod 7 = 0"
    unfolding k by presburger
  with q v have "dayOfWeek (QDate y m (31 - k)) = 7"
    by (simp add: dayOfWeek_sunday)
  then show ?case
    unfolding jk by (subst sunday_loop.simps) simp
next
  case (Suc d)
  have "k < 7"
    by (simp add: k)
  with Suc.prems have range: "1 \<le> 31 - j" "31 - j \<le> 31"
    by simp_all
  from dates [OF range] have q: "QDate y m (31 - j) = J - j" and v: "isValid_date (QDate y m (31 - j))"
    by auto
  from Suc.prems \<open>k < 7\<close> have "0 < k - j" "k - j < 7"
    by simp_all
  then have "(J - j + 1) mod 7 \<noteq> 0"
    unfolding k by presburger
  with q v have "dayOfWeek (QDate y m (31 - j)) \<noteq> 7"
    by (simp add: dayOfWeek_sunday)
  moreover have "sunday_loop y m (31 - (j + 1)) (QDate y m (31 - (j + 1))) = Some (QDate y m (31 - k))"
    using Suc.prems by (intro Suc.IH) simp_all
  ultimately show ?case
    by (subst sunday_loop.simps) (simp add: algebra_simps)
qed

lemma sunday_loop_result:
  assumes y: "y \<noteq> 0" "- 2147483648 \<le> y" "y \<le> 2147483647" and m: "m = 3 \<or> m = 10"
  shows "sunday_loop y m 31 (QDate y m 31) = Some (QDate y m (last_sunday y m))"
proof -
  define k where "k = (julianDayFromDate y m 31 + 1) mod 7"
  have dates: "QDate y m n = julianDayFromDate y m 31 - (31 - n) \<and> isValid_date (QDate y m n)"
    if "1 \<le> n" "n \<le> 31" for n
    using m QDate_march [OF y that] QDate_october [OF y that] by auto
  have "0 \<le> k"
    by (simp add: k_def)
  then obtain d where d: "k - 0 = int d"
    using nonneg_int_cases by auto
  from sunday_loop_counts [OF dates k_def _ \<open>0 \<le> k\<close> d] show ?thesis
    by (simp add: last_sunday_def k_def)
qed

lemma last_sunday_range: "25 \<le> last_sunday y m" "last_sunday y m \<le> 31"
  unfolding last_sunday_def by presburger+


lemma env_ok_year:
  assumes "env_ok e"
  shows "cur_year e \<noteq> 0" "- 2147483648 \<le> cur_year e" "cur_year e \<le> 2147483647"
  using assms by (simp_all add: env_ok_def isValid_ymd_def)

lemma march_before_october:
  assumes "n \<le> 31" and "25 \<le> n'"
  shows "julianDayFromDate y 3 n < julianDayFromDate y 10 n'"
  using assms by (simp add: jd_march jd_october Let_def)

lemma setdst_eu_closed:
  assumes ok: "env_ok e" and s: "double_to_int (3600 * (timezone_hr g - my_timezone g)) = Some s"
  shows "setdst_eu e g =
    Some (dst_rule (QDate (cur_year e) (cur_month e) (cur_day e)) (hour (addSecs (cur_msecs e) s))
      (QDate (cur_year e) 3 (last_sunday (cur_year e) 3))
      (QDate (cur_year e) 10 (last_sunday (cur_year e) 10)))"
  unfolding setdst_eu_def s
  using sunday_loop_result [OF env_ok_year [OF ok], of 3] sunday_loop_result [OF env_ok_year [OF ok], of 10]
  by simp

lemma last_sundays:
  assumes y: "y \<noteq> 0" "- 2147483648 \<le> y" "y \<le> 2147483647"
  shows "QDate y 3 (last_sunday y 3) = julianDayFromDate y 3 (last_sunday y 3)"
    and "QDate y 10 (last_sunday y 10) = julianDayFromDate y 10 (last_sunday y 10)"
    and "dayOfWeek (QDate y 3 (last_sunday y 3)) = 7"
    and "dayOfWeek (QDate y 10 (last_sunday y 10)) = 7"
proof -
  have r3: "1 \<le> last_sunday y 3" "last_sunday y 3 \<le> 31"
    and r10: "1 \<le> last_sunday y 10" "last_sunday y 10 \<le> 31"
    using last_sunday_range [of y 3] last_sunday_range [of y 10] by simp_all
  show "QDate y 3 (last_sunday y 3) = julianDayFromDate y 3 (last_sunday y 3)"
    using isValid_ymd_31 [OF y(1) r3, of 3] by (simp add: QDate_def)
  show "QDate y 10 (last_sunday y 10) = julianDayFromDate y 10 (last_sunday y 10)"
    using isValid_ymd_31 [OF y(1) r10, of 10] by (simp add: QDate_def)
  have "(julianDayFromDate y 3 31 - (31 - last_sunday y 3) + 1) mod 7 = 0"
    unfolding last_sunday_def by presburger
  then show "dayOfWeek (QDate y 3 (last_sunday y 3)) = 7"
    using QDate_march [OF y r3] by (simp add: dayOfWeek_sunday)
  have "(julianDayFromDate y 10 31 - (31 - last_sunday y 10) + 1) mod 7 = 0"
    unfolding last_sunday_def by presburger
  then show "dayOfWeek (QDate y 10 (last_sunday y 10)) = 7"
    using QDate_october [OF y r10] by (simp add: dayOfWeek_sunday)
qed

lemma dst_rule_spec:
  assumes "dmar < doct"
  shows "dst_rule d h dmar doct = spec_dst d h dmar doct"
  using assms by (auto simp add: dst_rule_def spec_dst_def Let_def)

text \<open>
  Claim C3, amended. With the current date valid and the timezone difference a number,
  \<^verbatim>\<open>setdst_eu\<close> returns, for the last Sunday of March \<open>dmar\<close> and the last Sunday of October
  \<open>doct\<close> of the current year (each a Sunday among the last seven days of its month), the
  offset 1 exactly when the date is strictly between the two, or is \<open>dmar\<close> with the
  adjusted local hour above 3, or is \<open>doct\<close> with the hour not above 3; and 0 otherwise:
  before \<open>dmar\<close>, on \<open>dmar\<close> up to hour 3, on \<open>doct\<close> from hour 4, and on any later date.
\<close>

theorem setdst_eu_rule:
  assumes ok: "env_ok e" and s: "double_to_int (3600 * (timezone_hr g - my_timezone g)) = Some s"
  shows "dayOfWeek (QDate (cur_year e) 3 (last_sunday (cur_year e) 3)) = 7 \<and>
    dayOfWeek (QDate (cur_year e) 10 (last_sunday (cur_year e) 10)) = 7 \<and>
    25 \<le> last_sunday (cur_year e) 3 \<and> last_sunday (cur_year e) 3 \<le> 31 \<and>
    25 \<le> last_sunday (cur_year e) 10 \<and> last_sunday (cur_year e) 10 \<le> 31 \<and>
    setdst_eu e g =
      Some (spec_dst (QDate (cur_year e) (cur_month e) (cur_day e)) (hour (addSecs (cur_msecs e) s))
        (QDate (cur_year e) 3 (last_sunday (cur_year e) 3))
        (QDate (cur_year e) 10 (last_sunday (cur_year e) 10)))"
proof -
  note y = env_ok_year [OF ok]
  note ls = last_sundays [OF y]
  have "QDate (cur_year e) 3 (last_sunday (cur_year e) 3) < QDate (cur_year e) 10 (last_sunday (cur_year e) 10)"
    unfolding ls(1,2) using last_sunday_range by (intro march_before_october)
  from dst_rule_spec [OF this] show ?thesis
    using setdst_eu_closed [OF ok s] ls(3,4) last_sunday_range by simp
qed

lemma march_sunday_ok: "env_ok (march_sunday\<lparr>cur_month := m\<rparr>)" if "m = 1 \<or> m = 3 \<or> m = 7" for m
  using that by (auto simp add: env_ok_def march_sunday_def isValid_ymd_def monthDays_def)

lemma no_shift: "double_to_int (3600 * (timezone_hr init_globals - my_timezone init_globals)) = Some 0"
  by (simp add: double_to_int_def init_globals_def trunc_r_def)

lemma last_sunday_2016: "last_sunday 2016 3 = 27" "last_sunday 2016 10 = 30"
  by (simp_all add: last_sunday_def julianDayFromDate_def)

text \<open>
  Claim C3, as stated, fails: on the last Sunday of March (27 March 2016) at 02:30 local
  time the hour is above 1, and \<^verbatim>\<open>setdst_eu\<close> returns 0, not 1. The hour the code compares
  with is 3.
\<close>

theorem setdst_eu_hour_counterexample:
  "cur_month march_sunday = 3 \<and> cur_day march_sunday = last_sunday (cur_year march_sunday) 3 \<and>
   hour (addSecs (cur_msecs march_sunday) 0) = 2 \<and> setdst_eu march_sunday init_globals = Some 0"
proof -
  have ok: "env_ok march_sunday"
    using march_sunday_ok [of 3] by (simp add: march_sunday_def)
  have "setdst_eu march_sunday init_globals = Some 0"
    unfolding setdst_eu_closed [OF ok no_shift]
    by (simp add: march_sunday_def last_sunday_2016 dst_rule_def hour_def addSecs_def)
  then show ?thesis
    by (simp add: march_sunday_def last_sunday_2016 hour_def addSecs_def)
qed

theorem setdst_eu_rule_witness:
  "env_ok march_sunday \<and>
   double_to_int (3600 * (timezone_hr init_globals - my_timezone init_globals)) = Some 0 \<and>
   dayOfWeek (QDate 2016 3 27) = 7 \<and> dayOfWeek (QDate 2016 10 30) = 7 \<and>
   setdst_eu march_sunday init_globals = Some (spec_dst (QDate 2016 3 27) 2 (QDate 2016 3 27) (QDate 2016 10 30))"
proof -
  have ok: "env_ok march_sunday"
    using march_sunday_ok [of 3] by (simp add: march_sunday_def)
  from setdst_eu_rule [OF ok no_shift] ok no_shift show ?thesis
    by (simp add: march_sunday_def last_sunday_2016 hour_def addSecs_def)
qed

lemma year_step:
  fixes Y :: int
  shows "365 * (Y - 1) + (Y - 1) div 4 - (Y - 1) div 100 + (Y - 1) div 400 + 364
    \<le> 365 * Y + Y div 4 - Y div 100 + Y div 400"
proof -
  define a b c a' b' c'
    where "a = Y div 4" and "b = Y div 100" and "c = Y div 400"
      and "a' = (Y - 1) div 4" and "b' = (Y - 1) div 100" and "c' = (Y - 1) div 400"
  have "a' \<le> a" "c' \<le> c"
    unfolding a_def c_def a'_def c'_def by (simp_all add: zdiv_mono1)
  moreover have "Y div 100 \<le> (Y - 1 + 100) div 100"
    by (rule zdiv_mono1) simp_all
  then have "b \<le> b' + 1"
    unfolding b_def b'_def by simp
  ultimately have "a' \<le> a" "b \<le> b' + 1" "c' \<le> c"
    by simp_all
  then have "365 * (Y - 1) + a' - b' + c' + 364 \<le> 365 * Y + a - b + c"
    by simp
  then show ?thesis
    unfolding a_def b_def c_def a'_def b'_def c'_def .
qed


lemma jd_january_shift:
  "julianDayFromDate y 1 d =
    (let Y = (if y < 0 then y + 1 else y) + 4800
     in d + 306 + 365 * (Y - 1) + (Y - 1) div 4 - (Y - 1) div 100 + (Y - 1) div 400 - 32045)"
  by (cases "y < 0") (simp_all add: julianDayFromDate_def Let_def)

lemma january_before_march:
  assumes "d \<le> 31" and "25 \<le> n"
  shows "julianDayFromDate y 1 d < julianDayFromDate y 3 n"
proof -
  define Y where "Y = (if y < 0 then y + 1 else y) + 4800"
  define F F' where "F = 365 * Y + Y div 4 - Y div 100 + Y div 400"
    and "F' = 365 * (Y - 1) + (Y - 1) div 4 - (Y - 1) div 100 + (Y - 1) div 400"
  have "julianDayFromDate y 1 d = d + 306 + F' - 32045"
    unfolding jd_january_shift Let_def F'_def Y_def by simp
  moreover have "julianDayFromDate y 3 n = n + F - 32045"
    unfolding jd_march Let_def F_def Y_def by simp
  moreover have "F' + 364 \<le> F"
    unfolding F_def F'_def by (rule year_step)
  ultimately show ?thesis
    using assms by simp
qed

lemma march_before_july:
  assumes "n \<le> 31" and "1 \<le> d"
  shows "julianDayFromDate y 3 n < julianDayFromDate y 7 d"
  using assms by (simp add: jd_march jd_july Let_def)

lemma july_before_october:
  assumes "d \<le> 31" and "25 \<le> n"
  shows "julianDayFromDate y 7 d < julianDayFromDate y 10 n"
  using assms by (simp add: jd_july jd_october Let_def)

text \<open>
  Claim C9. For every year and every time of day, \<^verbatim>\<open>setdst_eu\<close> returns 0 when the current
  date is in January and 1 when it is in July.
\<close>

theorem setdst_eu_january_july:
  assumes ok: "env_ok e" and s: "double_to_int (3600 * (timezone_hr g - my_timezone g)) = Some s"
  shows "(cur_month e = 1 \<longrightarrow> setdst_eu e g = Some 0) \<and> (cur_month e = 7 \<longrightarrow> setdst_eu e g = Some 1)"
proof -
  note y = env_ok_year [OF ok]
  note ls = last_sundays(1,2) [OF y]
  note r = last_sunday_range
  have day: "1 \<le> cur_day e \<and> cur_day e \<le> 31" if "cur_month e = 1 \<or> cur_month e = 7"
    using ok that by (auto simp add: env_ok_def isValid_ymd_def monthDays_def)
  have today: "QDate (cur_year e) m (cur_day e) = julianDayFromDate (cur_year e) m (cur_day e)"
    if "cur_month e = m" for m
    using ok that by (auto simp add: env_ok_def QDate_def)
  have "setdst_eu e g = Some 0" if m: "cur_month e = 1"
  proof -
    from day m have d: "cur_day e \<le> 31"
      by simp
    have "julianDayFromDate (cur_year e) 1 (cur_day e) < julianDayFromDate (cur_year e) 3 (last_sunday (cur_year e) 3)"
      using d r by (intro january_before_march)
    moreover have "julianDayFromDate (cur_year e) 3 (last_sunday (cur_year e) 3)
        < julianDayFromDate (cur_year e) 10 (last_sunday (cur_year e) 10)"
      using r by (intro march_before_october)
    ultimately show ?thesis
      unfolding setdst_eu_closed [OF ok s] m today [OF m] ls by (simp add: dst_rule_def)
  qed
  moreover have "setdst_eu e g = Some 1" if m: "cur_month e = 7"
  proof -
    from day m have d: "1 \<le> cur_day e" "cur_day e \<le> 31"
      by simp_all
    have "julianDayFromDate (cur_year e) 3 (last_sunday (cur_year e) 3) < julianDayFromDate (cur_year e) 7 (cur_day e)"
      using d r by (intro march_before_july)
    moreover have "julianDayFromDate (cur_year e) 7 (cur_day e)
        < julianDayFromDate (cur_year e) 10 (last_sunday (cur_year e) 10)"
      using d r by (intro july_before_october)
    ultimately show ?thesis
      unfolding setdst_eu_closed [OF ok s] m today [OF m] ls by (simp add: dst_rule_def)
  qed
  ultimately show ?thesis
    by blast
qed

theorem setdst_eu_january_july_witness:
  "setdst_eu (march_sunday\<lparr>cur_month := 1\<rparr>) init_globals = Some 0 \<and>
   setdst_eu (march_sunday\<lparr>cur_month := 7\<rparr>) init_globals = Some 1"
  using setdst_eu_january_july [OF march_sunday_ok [of 1] no_shift]
    setdst_eu_january_july [OF march_sunday_ok [of 7] no_shift]
  by simp
section \<open>Resolving a location name\<close>

lemma setcoord_absent: "cnf e = None \<Longrightarrow> setcoord e loc g = fallback e loc g"
  by (simp add: setcoord_def)

lemma fallback_table: "fallback e loc g = resolve_builtin e loc g"
  by (simp add: fallback_def resolve_builtin_def builtin_table_def)

text \<open>
  Claim C1, amended. For every location name, when the configuration file is absent,
  \<^verbatim>\<open>setcoord\<close> resolves the name from the built-in table alone: the first entry with a name
  equal up to case gives latitude, longitude and timezone, with the European daylight
  saving offset added where the entry is tagged, and a name in no entry is not found.
\<close>

theorem setcoord_fallback_table:
  assumes "cnf e = None"
  shows "setcoord e loc g = resolve_builtin e loc g"
  using assms by (simp add: setcoord_absent fallback_table)

lemma setcoord_present_true:
  assumes "cnf e = Some text" and "setcoord e loc g = Some (found, g')"
  shows "found"
  using assms by (auto simp add: setcoord_def split: option.splits)

lemma oslo_line: "fgets 252 (''Oslo 59.91 10.75 1'' @ [CHR 0x0A]) = (Some (''Oslo 59.91 10.75 1'' @ [CHR 0x0A]), [], False)"
  by (simp add: fgets_def)

lemma oslo_scan:
  "sscanf_line (''Oslo 59.91 10.75 1'' @ [CHR 0x0A]) \<lparr>glob = g, rloc = [], dststr = []\<rparr> =
     \<lparr>glob = g\<lparr>lat_deg := Fin 59.91, long_deg := Fin 10.75, timezone_hr := Fin 1\<rparr>, rloc = ''Oslo'', dststr = []\<rparr>"
  by (simp add: sscanf_line_def scan_s_def scan_lf_def isspace_def isdigit_def digits_val_def Let_def)


lemma fgets_empty: "fgets 252 [] = (None, [], True)"
  by (simp add: fgets_def)

lemma oslo_names: "\<not> strcmpi_eq ''Oslo'' ''Helsinki''" "\<not> strcmpi_eq ''Oslo'' ''unknownplace''"
  by (simp_all add: strcmpi_eq_def)

lemma oslo_read:
  assumes "\<not> strcmpi_eq ''Oslo'' loc"
  shows "read_loop e loc (''Oslo 59.91 10.75 1'' @ [CHR 0x0A]) False \<lparr>glob = g, rloc = [], dststr = []\<rparr> =
    Some \<lparr>glob = g\<lparr>lat_deg := Fin 59.91, long_deg := Fin 10.75, timezone_hr := Fin 1\<rparr>,
      rloc = ''Oslo'', dststr = []\<rparr>"
proof -
  let ?st = "\<lparr>glob = g\<lparr>lat_deg := Fin 59.91, long_deg := Fin 10.75, timezone_hr := Fin 1\<rparr>,
      rloc = ''Oslo'', dststr = []\<rparr>"
  have "read_loop e loc [] False ?st = Some ?st"
    by (subst read_loop.simps, simp add: fgets_empty del: read_loop.simps)
      (subst read_loop.simps, simp del: read_loop.simps)
  then show ?thesis
    using assms
    by (subst read_loop.simps) (simp add: oslo_line [simplified] oslo_scan [simplified] del: read_loop.simps)
qed

lemma oslo_setcoord:
  assumes "\<not> strcmpi_eq ''Oslo'' loc"
  shows "setcoord oslo_file loc g =
    Some (True, g\<lparr>lat_deg := Fin 59.91, long_deg := Fin 10.75, timezone_hr := Fin 1\<rparr>)"
  using oslo_read [OF assms, of oslo_file g] by (simp add: setcoord_def oslo_file_def march_sunday_def)

lemma helsinki_builtin:
  "resolve_builtin e ''Helsinki'' g = found_eu e g 60.16 24.83 2"
  by (simp add: resolve_builtin_def builtin_table_def strcmpi_eq_def)

lemma found_eu_lat:
  assumes "found_eu e g la lo tz = Some (found, g')"
  shows "lat_deg g' = la"
  using assms by (auto simp add: found_eu_def add_dst_def split: option.splits)

text \<open>
  Claim C1, as stated, fails: with a configuration file that is present and has no line
  for Helsinki, \<^verbatim>\<open>setcoord\<close> does not fall back to the built-in table. It returns what the
  last line read left in the coordinates, not the built-in entry of Helsinki.
\<close>

theorem setcoord_present_counterexample:
  "cnf oslo_file = Some (''Oslo 59.91 10.75 1'' @ [CHR 0x0A]) \<and>
   setcoord oslo_file ''Helsinki'' init_globals =
     Some (True, init_globals\<lparr>lat_deg := Fin 59.91, long_deg := Fin 10.75, timezone_hr := Fin 1\<rparr>) \<and>
   setcoord oslo_file ''Helsinki'' init_globals \<noteq> resolve_builtin oslo_file ''Helsinki'' init_globals"
proof -
  note here = oslo_setcoord [OF oslo_names(1), of init_globals]
  have "resolve_builtin oslo_file ''Helsinki'' init_globals \<noteq>
      Some (True, init_globals\<lparr>lat_deg := Fin 59.91, long_deg := Fin 10.75, timezone_hr := Fin 1\<rparr>)"
    unfolding helsinki_builtin by (auto dest: found_eu_lat)
  with here show ?thesis
    by (simp add: oslo_file_def)
qed

lemma march_sunday_helsinki:
  "found_eu march_sunday init_globals 60.16 24.83 2 =
     Some (True, init_globals\<lparr>lat_deg := Fin 60.16, long_deg := Fin 24.83, timezone_hr := Fin 3\<rparr>)"
proof -
  let ?g = "init_globals\<lparr>lat_deg := 60.16, long_deg := 24.83, timezone_hr := 2\<rparr>"
  have ok: "env_ok march_sunday"
    using march_sunday_ok [of 3] by (simp add: march_sunday_def)
  have shift: "double_to_int (3600 * (timezone_hr ?g - my_timezone ?g)) = Some 7200"
    by (simp add: double_to_int_def init_globals_def trunc_r_def)
  have "setdst_eu march_sunday ?g = Some 1"
    unfolding setdst_eu_closed [OF ok shift]
    by (simp add: march_sunday_def last_sunday_2016 dst_rule_def hour_def addSecs_def QDate_def
        isValid_ymd_def monthDays_def julianDayFromDate_def)
  then show ?thesis
    by (simp add: found_eu_def add_dst_def)
qed

theorem setcoord_fallback_table_witness:
  "cnf march_sunday = None \<and>
   setcoord march_sunday ''helsinki'' init_globals = resolve_builtin march_sunday ''helsinki'' init_globals \<and>
   setcoord march_sunday ''helsinki'' init_globals =
     Some (True, init_globals\<lparr>lat_deg := Fin 60.16, long_deg := Fin 24.83, timezone_hr := Fin 3\<rparr>)"
proof -
  have absent: "cnf march_sunday = None"
    by (simp add: march_sunday_def)
  have "resolve_builtin march_sunday ''helsinki'' init_globals = found_eu march_sunday init_globals 60.16 24.83 2"
    by (simp add: resolve_builtin_def builtin_table_def strcmpi_eq_def tolower_def)
  with setcoord_fallback_table [OF absent, of "''helsinki''" init_globals] absent show ?thesis
    by (simp add: march_sunday_helsinki [simplified])
qed

text \<open>
  Claim C4. The name \<open>unknownplace\<close> is in no entry of the built-in table and on no line of
  the file, and yet with the file present \<^verbatim>\<open>setcoord\<close> returns true, with the coordinates of
  the last line read: the caller never sees the failure. (With the file absent it returns
  false, as the lemma after this theorem shows.)
\<close>

theorem setcoord_unknown_place_found:
  "cnf oslo_file = Some (''Oslo 59.91 10.75 1'' @ [CHR 0x0A]) \<and>
   resolve_builtin oslo_file ''unknownplace'' init_globals = Some (False, init_globals) \<and>
   setcoord oslo_file ''unknownplace'' init_globals =
     Some (True, init_globals\<lparr>lat_deg := Fin 59.91, long_deg := Fin 10.75, timezone_hr := Fin 1\<rparr>)"
  using oslo_setcoord [OF oslo_names(2), of init_globals]
  by (simp add: oslo_file_def resolve_builtin_def builtin_table_def strcmpi_eq_def tolower_def
      name_riihimaki_def name_ylojarvi_def name_vargon_def)

lemma setcoord_unknown_place_absent:
  assumes "cnf e = None"
  shows "setcoord e ''unknownplace'' g = Some (False, g)"
  using assms
  by (simp add: setcoord_absent fallback_def strcmpi_eq_def tolower_def
      name_riihimaki_def name_ylojarvi_def name_vargon_def)

end
